(* ===== verification/Leaf_Prelude.thy ===== *)
theory Leaf_Prelude
  imports Main "HOL-Library.Word"
begin

unbundle bit_operations_syntax

text \<open>
  Shared vocabulary of the LeafOS development: the machine integer types, the
  result type of Rust code that may panic, the two shapes of Rust loop the
  kernel uses, and the generic lemmas the component theories rely on.

  The kernel is built with \<^verbatim>\<open>--release\<close> (src/src/main.rs:25), where integer
  overflow wraps; indexing, division by zero, \<^verbatim>\<open>unwrap\<close> and failed
  assertions panic in every profile, and are values of \<open>panic\<close> here.
\<close>

text \<open>Rules for operations that return and keep their component's invariant, collected over the components.\<close>

named_theorems runs "operations that return and keep the invariant"

section \<open>Machine integers\<close>

type_synonym u8 = "8 word"
type_synonym u16 = "16 word"
type_synonym u32 = "32 word"
type_synonym u64 = "64 word"
type_synonym usize = "64 word"

section \<open>Panics and results\<close>

datatype panic =
    IndexOutOfBounds
  | DivideByZero
  | UnwrapNone
  | AssertFailed
  | Unimplemented
  | AllocError "64 word" "64 word"
  | Panicked string

type_synonym 'a res = "panic + 'a"

definition bind_res :: "'a res \<Rightarrow> ('a \<Rightarrow> 'b res) \<Rightarrow> 'b res" where
  "bind_res r f = (case r of Inl e \<Rightarrow> Inl e | Inr x \<Rightarrow> f x)"

lemma bind_res_simps [simp]:
  "bind_res (Inl e) f = Inl e"
  "bind_res (Inr x) f = f x"
  by (simp_all add: bind_res_def)

lemma bind_res_Inr_right [simp]: "bind_res r Inr = r"
  by (cases r) simp_all

lemma bind_res_assoc: "bind_res (bind_res r f) g = bind_res r (\<lambda>x. bind_res (f x) g)"
  by (cases r) simp_all

lemma bind_res_eq_Inr: "bind_res r f = Inr y \<longleftrightarrow> (\<exists>x. r = Inr x \<and> f x = Inr y)"
  by (cases r) auto

text \<open>
  \<^verbatim>\<open>alloc_error_handler\<close> of src/src/lib.rs, which the allocating functions of the standard
  library call when the global allocator has no room.
\<close>

definition alloc_error_handler :: "usize \<Rightarrow> usize \<Rightarrow> 'a res" where
  "alloc_error_handler layout_size layout_align = Inl (AllocError layout_size layout_align)"

section \<open>Loops\<close>

text \<open>A Rust \<^verbatim>\<open>for\<close> loop over an iterator, its body possibly panicking.\<close>

fun for_each :: "('i \<Rightarrow> 's \<Rightarrow> 's res) \<Rightarrow> 'i list \<Rightarrow> 's \<Rightarrow> 's res" where
  "for_each f [] s = Inr s"
| "for_each f (i # is) s = bind_res (f i s) (for_each f is)"

lemma for_each_Nil [simp]: "for_each f [] = Inr"
  by (rule ext) simp

lemma for_each_single [simp]: "for_each f [i] = f i"
  by (rule ext) simp

lemma for_each_append:
  "for_each f (is @ js) s = bind_res (for_each f is s) (for_each f js)"
proof (induction "is" arbitrary: s)
  case (Cons i "is")
  then show ?case by (cases "f i s") simp_all
qed simp

text \<open>
  A loop whose body never panics under an invariant is a pure fold, and keeps
  the invariant.
\<close>

lemma for_each_fold:
  assumes step: "\<And>i s. i \<in> set is \<Longrightarrow> I s \<Longrightarrow> f i s = Inr (g i s) \<and> I (g i s)"
    and start: "I s"
  shows "for_each f is s = Inr (fold g is s) \<and> I (fold g is s)"
  using assms by (induction "is" arbitrary: s) auto

lemma for_each_cong_inv:
  assumes step: "\<And>i s. i \<in> set is \<Longrightarrow> I s \<Longrightarrow> \<exists>t. f i s = Inr t \<and> I t"
    and start: "I s"
  shows "\<exists>t. for_each f is s = Inr t \<and> I t"
  using assms by (induction "is" arbitrary: s) fastforce+

text \<open>Loop simulation: a loop over related states stays related to the loop it implements.\<close>

lemma for_each_simulation:
  assumes step: "\<And>i s a. i \<in> set is \<Longrightarrow> R s a \<Longrightarrow> \<exists>t. f i s = Inr t \<and> R t (g i a)"
    and start: "R s a"
  shows "\<exists>t. for_each f is s = Inr t \<and> R t (fold g is a)"
  using assms by (induction "is" arbitrary: s a) fastforce+

section \<open>Text\<close>

text \<open>Bytes of an ASCII literal, and \<^verbatim>\<open>{}\<close> of an unsigned integer.\<close>

definition ascii :: "string \<Rightarrow> u8 list" where
  "ascii = map of_char"

fun decimal :: "nat \<Rightarrow> u8 list" where
  "decimal n =
     (if n < 10 then [of_nat (48 + n)] else decimal (n div 10) @ [of_nat (48 + n mod 10)])"

declare decimal.simps [simp del]

section \<open>Words\<close>

lemma bit_byte_mask: "bit (255 :: int) n \<longleftrightarrow> n < 8"
proof -
  have "(255 :: int) = mask 8" by (simp add: mask_eq_exp_minus_1)
  then show ?thesis by (simp only: bit_mask_iff) simp
qed

lemma unat_uminus: "(x :: 'a::len word) \<noteq> 0 \<Longrightarrow> unat (- x) = 2 ^ LENGTH('a) - unat x"
  using unat_sub_if_size [of 0 x] by (simp add: word_size word_le_nat_alt unat_gt_0)

end
