(* ===== verification/Vga_Buffer.thy ===== *)
theory Vga_Buffer
  imports Leaf_Prelude
begin

unbundle bit_operations_syntax

text \<open>
  The VGA text-mode writer of src/src/vga_buffer.rs: colours, coloured strings,
  the 25 by 80 character buffer and every operation of \<^verbatim>\<open>Writer\<close>. The
  memory-mapped buffer is a list of rows; an index outside it is the panic the
  Rust array indexing raises. The loops are written as the source writes them,
  cell by cell, and the second half of the theory shows what they compute.
\<close>

section \<open>Colours and characters\<close>

datatype color =
    Black | Blue | Green | Cyan | Red | Magenta | Brown | LightGray
  | DarkGray | LightBlue | LightGreen | LightCyan | LightRed | Pink | Yellow | White

primrec color_u8 :: "color \<Rightarrow> u8" where
  "color_u8 Black = 0"
| "color_u8 Blue = 1"
| "color_u8 Green = 2"
| "color_u8 Cyan = 3"
| "color_u8 Red = 4"
| "color_u8 Magenta = 5"
| "color_u8 Brown = 6"
| "color_u8 LightGray = 7"
| "color_u8 DarkGray = 8"
| "color_u8 LightBlue = 9"
| "color_u8 LightGreen = 10"
| "color_u8 LightCyan = 11"
| "color_u8 LightRed = 12"
| "color_u8 Pink = 13"
| "color_u8 Yellow = 14"
| "color_u8 White = 15"

datatype color_code = ColorCode (color_code_u8: u8)

definition color_code_new :: "color \<Rightarrow> color \<Rightarrow> color_code" where
  "color_code_new foreground background =
     ColorCode (push_bit 4 (color_u8 background) OR color_u8 foreground)"

record screen_char =
  ascii_character :: u8
  sc_color :: color_code

definition screen_char_new :: "u8 \<Rightarrow> color_code \<Rightarrow> screen_char" where
  "screen_char_new c k = \<lparr>ascii_character = c, sc_color = k\<rparr>"

definition raw_char :: "screen_char \<Rightarrow> u8" where
  "raw_char c = ascii_character c"

definition raw_color :: "screen_char \<Rightarrow> color_code" where
  "raw_color c = sc_color c"

section \<open>Coloured strings\<close>

type_synonym bytes = "u8 list"

record colored_string =
  cs_chars :: "screen_char list"
  curr_color :: color_code

definition colored_string_new :: colored_string where
  "colored_string_new = \<lparr>cs_chars = [], curr_color = color_code_new White Black\<rparr>"

definition push_char :: "u8 \<Rightarrow> colored_string \<Rightarrow> colored_string" where
  "push_char c s =
     s\<lparr>cs_chars := cs_chars s @ [\<lparr>ascii_character = c, sc_color = curr_color s\<rparr>]\<rparr>"

definition from_string :: "bytes \<Rightarrow> colored_string" where
  "from_string str =
     fold push_char str \<lparr>cs_chars = [], curr_color = color_code_new White Black\<rparr>"

definition set_color :: "color_code \<Rightarrow> colored_string \<Rightarrow> colored_string" where
  "set_color k s = s\<lparr>curr_color := k\<rparr>"

definition push_colored :: "u8 \<Rightarrow> color_code \<Rightarrow> colored_string \<Rightarrow> colored_string" where
  "push_colored c k s = push_char c (set_color k s)"

section \<open>The writer\<close>

definition BUFFER_HEIGHT :: nat where "BUFFER_HEIGHT = 25"
definition BUFFER_WIDTH :: nat where "BUFFER_WIDTH = 80"

type_synonym buffer = "screen_char list list"

record writer =
  column_position :: usize
  w_color :: color_code
  buffer :: buffer

text \<open>\<^verbatim>\<open>WRITER\<close>'s initial value over the buffer contents found at \<^verbatim>\<open>0xb8000\<close>.\<close>

definition writer_init :: "buffer \<Rightarrow> writer" where
  "writer_init b =
     \<lparr>column_position = 0, w_color = color_code_new Yellow Black, buffer = b\<rparr>"

definition buf_read :: "nat \<Rightarrow> nat \<Rightarrow> writer \<Rightarrow> screen_char res" where
  "buf_read row col w =
     (if row < length (buffer w) \<and> col < length (buffer w ! row)
      then Inr (buffer w ! row ! col) else Inl IndexOutOfBounds)"

definition buf_write :: "nat \<Rightarrow> nat \<Rightarrow> screen_char \<Rightarrow> writer \<Rightarrow> writer res" where
  "buf_write row col c w =
     (if row < length (buffer w) \<and> col < length (buffer w ! row)
      then Inr (w\<lparr>buffer := (buffer w)[row := (buffer w ! row)[col := c]]\<rparr>)
      else Inl IndexOutOfBounds)"

definition clear_row :: "nat \<Rightarrow> writer \<Rightarrow> writer res" where
  "clear_row row w =
     (let blank = \<lparr>ascii_character = 0x20, sc_color = w_color w\<rparr>
      in for_each (\<lambda>col. buf_write row col blank) [0..<BUFFER_WIDTH] w)"

text \<open>The inner loop of \<^verbatim>\<open>new_line\<close> and \<^verbatim>\<open>old_line\<close>: one row copied over another.\<close>

definition copy_row :: "nat \<Rightarrow> nat \<Rightarrow> writer \<Rightarrow> writer res" where
  "copy_row src dst =
     for_each (\<lambda>col w. bind_res (buf_read src col w) (\<lambda>character. buf_write dst col character w))
       [0..<BUFFER_WIDTH]"

definition new_line :: "writer \<Rightarrow> writer res" where
  "new_line w =
     bind_res (for_each (\<lambda>row. copy_row row (row - 1)) [1..<BUFFER_HEIGHT] w) (\<lambda>w.
     bind_res (clear_row (BUFFER_HEIGHT - 1) w) (\<lambda>w.
     Inr (w\<lparr>column_position := 0\<rparr>)))"

definition old_line :: "writer \<Rightarrow> writer res" where
  "old_line w =
     bind_res (for_each (\<lambda>row. copy_row row (row + 1)) (rev [0..<BUFFER_HEIGHT - 1]) w) (\<lambda>w.
     bind_res (clear_row 0 w) (\<lambda>w.
     Inr (w\<lparr>column_position := 0\<rparr>)))"

text \<open>The store of one character at the cursor, wrapping to a new line at the right edge.\<close>

definition put_char :: "screen_char \<Rightarrow> writer \<Rightarrow> writer res" where
  "put_char c w =
     bind_res (if BUFFER_WIDTH \<le> unat (column_position w) then new_line w else Inr w) (\<lambda>w.
     buf_write (BUFFER_HEIGHT - 1) (unat (column_position w)) c w)"

definition set_byte_colored :: "u8 \<Rightarrow> color_code \<Rightarrow> writer \<Rightarrow> (bool \<times> writer) res" where
  "set_byte_colored c k w =
     (if c = 0x0A then bind_res (new_line w) (\<lambda>w. Inr (True, w))
      else bind_res (put_char \<lparr>ascii_character = c, sc_color = k\<rparr> w) (\<lambda>w. Inr (False, w)))"

definition set_byte :: "u8 \<Rightarrow> writer \<Rightarrow> writer res" where
  "set_byte c w = bind_res (set_byte_colored c (w_color w) w) (\<lambda>(_, w). Inr w)"

definition write_byte_colored :: "u8 \<Rightarrow> color_code \<Rightarrow> writer \<Rightarrow> writer res" where
  "write_byte_colored c k w =
     bind_res (set_byte_colored c k w) (\<lambda>(newline, w).
     Inr (if \<not> newline then w\<lparr>column_position := column_position w + 1\<rparr> else w))"

definition write_byte :: "u8 \<Rightarrow> writer \<Rightarrow> writer res" where
  "write_byte c w = write_byte_colored c (w_color w) w"

definition printable :: "u8 \<Rightarrow> bool" where
  "printable c \<longleftrightarrow> 0x20 \<le> c \<and> c \<le> 0x7e"

definition write_string :: "bytes \<Rightarrow> writer \<Rightarrow> writer res" where
  "write_string =
     for_each (\<lambda>c. if printable c \<or> c = 0x0A then write_byte c else write_byte 0xfe)"

definition write_colored_string :: "colored_string \<Rightarrow> writer \<Rightarrow> writer res" where
  "write_colored_string colored =
     for_each (\<lambda>c w.
       bind_res (put_char c w) (\<lambda>w. Inr (w\<lparr>column_position := column_position w + 1\<rparr>)))
       (cs_chars colored)"

text \<open>The scan of \<^verbatim>\<open>is_current_row_clear\<close>, leaving at the first cell that is not blank.\<close>

fun row_clear_from :: "nat list \<Rightarrow> writer \<Rightarrow> bool res" where
  "row_clear_from [] w = Inr True"
| "row_clear_from (col # cols) w =
     bind_res (buf_read (BUFFER_HEIGHT - 1) col w) (\<lambda>character.
     if ascii_character character \<noteq> 0x20 \<or> sc_color character \<noteq> w_color w
     then Inr False else row_clear_from cols w)"

definition is_current_row_clear :: "writer \<Rightarrow> bool res" where
  "is_current_row_clear w = row_clear_from [0..<BUFFER_WIDTH] w"

definition get_column_position :: "writer \<Rightarrow> usize" where
  "get_column_position w = column_position w"

definition set_column_position :: "usize \<Rightarrow> writer \<Rightarrow> writer" where
  "set_column_position pos w = w\<lparr>column_position := pos\<rparr>"

section \<open>The writer as a character driver\<close>

definition HEIGHT_MASK :: usize where
  "HEIGHT_MASK = 0xff AND NOT (push_bit 5 1) AND NOT (push_bit 6 1) AND NOT (push_bit 7 1)"

definition WIDTH_MASK :: usize where
  "WIDTH_MASK = push_bit 8 (0xff AND NOT (push_bit 7 1))"

definition writer_driver_init :: "'idt \<Rightarrow> writer \<Rightarrow> bool \<times> 'idt \<times> writer" where
  "writer_driver_init idt w = (True, idt, w)"

definition writer_driver_exit :: "writer \<Rightarrow> writer" where
  "writer_driver_exit w = w"

definition write_char :: "screen_char \<Rightarrow> writer \<Rightarrow> writer res" where
  "write_char c w = write_byte_colored (ascii_character c) (sc_color c) w"

definition write_char_indexed :: "usize \<Rightarrow> screen_char \<Rightarrow> writer \<Rightarrow> writer res" where
  "write_char_indexed index c w =
     buf_write (unat (index AND HEIGHT_MASK)) (unat (index AND WIDTH_MASK)) c w"

definition read_char :: "writer \<Rightarrow> (screen_char \<times> writer) res" where
  "read_char w = Inl Unimplemented"

definition read_char_indexed :: "usize \<Rightarrow> writer \<Rightarrow> (screen_char \<times> writer) res" where
  "read_char_indexed index w = Inl Unimplemented"

section \<open>What the loops compute\<close>

definition wf_buffer :: "buffer \<Rightarrow> bool" where
  "wf_buffer b \<longleftrightarrow> length b = BUFFER_HEIGHT \<and> (\<forall>r \<in> set b. length r = BUFFER_WIDTH)"

text \<open>The blank cell and row of a writer: a space in the writer's own colour.\<close>

definition blank_cell :: "color_code \<Rightarrow> screen_char" where
  "blank_cell k = \<lparr>ascii_character = 0x20, sc_color = k\<rparr>"

definition blank_row :: "color_code \<Rightarrow> screen_char list" where
  "blank_row k = replicate BUFFER_WIDTH (blank_cell k)"

lemma buffer_dims [simp]: "BUFFER_HEIGHT = 25" "BUFFER_WIDTH = 80"
  by (simp_all add: BUFFER_HEIGHT_def BUFFER_WIDTH_def)

lemma length_blank_row [simp]: "length (blank_row k) = 80"
  by (simp add: blank_row_def)

lemma wf_buffer_length [simp]: "wf_buffer b \<Longrightarrow> length b = 25"
  by (simp add: wf_buffer_def)

lemma wf_buffer_row [simp]: "wf_buffer b \<Longrightarrow> r < 25 \<Longrightarrow> length (b ! r) = 80"
  by (simp add: wf_buffer_def)

lemma wf_buffer_update [simp]:
  "wf_buffer b \<Longrightarrow> length r = 80 \<Longrightarrow> wf_buffer (b[i := r])"
  using set_update_subset_insert [of b i r] by (auto simp: wf_buffer_def)

lemma wf_buffer_scroll_up [simp]:
  "wf_buffer b \<Longrightarrow> length r = 80 \<Longrightarrow> wf_buffer (tl b @ [r])"
  by (cases b) (auto simp: wf_buffer_def)

lemma wf_buffer_scroll_down [simp]:
  "wf_buffer b \<Longrightarrow> length r = 80 \<Longrightarrow> wf_buffer (r # butlast b)"
  by (cases b rule: rev_cases) (auto simp: wf_buffer_def)

text \<open>The shape of the writer is its well-formedness: a full 25 by 80 buffer.\<close>

abbreviation wf_writer :: "writer \<Rightarrow> bool" where
  "wf_writer w \<equiv> wf_buffer (buffer w)"

lemma buf_read_wf [simp]:
  "wf_writer w \<Longrightarrow> row < 25 \<Longrightarrow> col < 80 \<Longrightarrow> buf_read row col w = Inr (buffer w ! row ! col)"
  by (simp add: buf_read_def)

lemma buf_write_wf [simp]:
  "wf_writer w \<Longrightarrow> row < 25 \<Longrightarrow> col < 80 \<Longrightarrow>
   buf_write row col c w = Inr (w\<lparr>buffer := (buffer w)[row := (buffer w ! row)[col := c]]\<rparr>)"
  by (simp add: buf_write_def)

text \<open>
  A loop that stores a value in every cell of a row, left to right: after \<open>n\<close>
  iterations the first \<open>n\<close> cells are the new ones.
\<close>

lemma fill_row_prefix:
  assumes "wf_writer w" "row < 25" "n \<le> 80" "length cs = 80"
    and body: "\<And>col v. col < 80 \<Longrightarrow> wf_writer v \<Longrightarrow>
        (\<forall>r < 25. r \<noteq> row \<longrightarrow> buffer v ! r = buffer w ! r) \<Longrightarrow>
        w_color v = w_color w \<Longrightarrow> f col v = buf_write row col (cs ! col) v"
  shows "for_each f [0..<n] w =
    Inr (w\<lparr>buffer := (buffer w)[row := take n cs @ drop n (buffer w ! row)]\<rparr>)"
  using \<open>n \<le> 80\<close>
proof (induction n)
  case 0
  then show ?case by simp
next
  case (Suc n)
  let ?v = "w\<lparr>buffer := (buffer w)[row := take n cs @ drop n (buffer w ! row)]\<rparr>"
  have wf: "wf_writer ?v"
    using assms Suc.prems by simp
  have "for_each f [0..<Suc n] w = f n ?v"
    using Suc by (simp add: for_each_append)
  also have "\<dots> = buf_write row n (cs ! n) ?v"
    using Suc.prems wf by (intro body) simp_all
  also have "\<dots> = Inr (?v\<lparr>buffer := (buffer ?v)[row := (buffer ?v ! row)[n := cs ! n]]\<rparr>)"
    using wf assms Suc.prems by (intro buf_write_wf) simp_all
  also have "(buffer ?v ! row)[n := cs ! n] = take (Suc n) cs @ drop (Suc n) (buffer w ! row)"
    using assms Suc.prems
    by (simp add: list_update_append take_Suc_conv_app_nth Cons_nth_drop_Suc [symmetric])
  finally show ?case
    using assms Suc.prems by simp
qed

lemma copy_row_wf:
  assumes "wf_writer w" "src < 25" "dst < 25" "src \<noteq> dst"
  shows "copy_row src dst w = Inr (w\<lparr>buffer := (buffer w)[dst := buffer w ! src]\<rparr>)"
  using assms fill_row_prefix [of w dst 80 "buffer w ! src"
      "\<lambda>col w. bind_res (buf_read src col w) (\<lambda>c. buf_write dst col c w)"]
  by (simp add: copy_row_def)

lemma clear_row_wf:
  assumes "wf_writer w" "row < 25"
  shows "clear_row row w = Inr (w\<lparr>buffer := (buffer w)[row := blank_row (w_color w)]\<rparr>)"
  using assms fill_row_prefix [of w row 80 "blank_row (w_color w)"
      "\<lambda>col. buf_write row col (blank_cell (w_color w))"]
  by (simp add: clear_row_def blank_row_def blank_cell_def)

lemma scroll_up_rows:
  assumes "wf_writer w" "n < 25"
  shows "for_each (\<lambda>row. copy_row row (row - 1)) [1..<Suc n] w =
    Inr (w\<lparr>buffer := take n (tl (buffer w)) @ drop n (buffer w)\<rparr>)"
  using \<open>n < 25\<close>
proof (induction n)
  case 0
  then show ?case by simp
next
  case (Suc n)
  let ?b = "take n (tl (buffer w)) @ drop n (buffer w)"
  have "wf_buffer ?b"
    using assms(1) Suc.prems
    by (auto simp: wf_buffer_def dest!: in_set_takeD in_set_dropD list.set_sel(2) [rotated])
  moreover have "?b ! Suc n = tl (buffer w) ! n"
    using assms(1) Suc.prems by (simp add: nth_append nth_tl min_def)
  moreover have "?b[n := tl (buffer w) ! n] =
      take (Suc n) (tl (buffer w)) @ drop (Suc n) (buffer w)"
    using assms(1) Suc.prems
    by (simp add: list_update_append min_def take_Suc_conv_app_nth Cons_nth_drop_Suc [symmetric])
  ultimately show ?case
    using Suc by (simp add: for_each_append copy_row_wf)
qed

lemma new_line_wf:
  assumes "wf_writer w"
  shows "new_line w =
    Inr (w\<lparr>buffer := tl (buffer w) @ [blank_row (w_color w)], column_position := 0\<rparr>)"
proof -
  have "drop 24 (buffer w) = [buffer w ! 24]"
    using assms Cons_nth_drop_Suc [of 24 "buffer w"] by simp
  then have "for_each (\<lambda>row. copy_row row (row - 1)) [1..<25] w =
      Inr (w\<lparr>buffer := tl (buffer w) @ [buffer w ! 24]\<rparr>)"
    using scroll_up_rows [OF assms, of 24] assms by simp
  moreover have "wf_buffer (tl (buffer w) @ [buffer w ! 24])"
    using assms by simp
  ultimately show ?thesis
    using assms by (simp add: new_line_def clear_row_wf list_update_append)
qed

lemma scroll_down_rows:
  assumes "wf_writer w" "n < 25"
  shows "for_each (\<lambda>row. copy_row row (row + 1)) (rev [24 - n..<24]) w =
    Inr (w\<lparr>buffer := take (25 - n) (buffer w) @ take n (drop (24 - n) (buffer w))\<rparr>)"
  using \<open>n < 25\<close>
proof (induction n)
  case 0
  then show ?case using assms(1) by simp
next
  case (Suc n)
  let ?k = "24 - Suc n"
  let ?b = "take (25 - n) (buffer w) @ take n (drop (24 - n) (buffer w))"
  have split: "[?k..<24] = ?k # [24 - n..<24]"
    using Suc.prems upt_conv_Cons [of ?k 24] by (simp add: Suc_diff_Suc [symmetric])
  have "wf_buffer ?b"
    using assms(1) Suc.prems
    by (auto simp: wf_buffer_def dest!: in_set_takeD in_set_dropD)
  moreover have "?b ! ?k = buffer w ! ?k"
    using assms(1) Suc.prems by (simp add: nth_append)
  moreover have "?b[Suc ?k := buffer w ! ?k] =
      take (25 - Suc n) (buffer w) @ take (Suc n) (drop ?k (buffer w))"
    using assms(1) Suc.prems
    by (intro nth_equalityI) (auto simp: nth_append nth_list_update min_def)
  ultimately show ?case
    using Suc split by (simp add: for_each_append copy_row_wf)
qed

lemma old_line_wf:
  assumes "wf_writer w"
  shows "old_line w =
    Inr (w\<lparr>buffer := blank_row (w_color w) # butlast (buffer w), column_position := 0\<rparr>)"
proof -
  let ?b = "take 1 (buffer w) @ take 24 (buffer w)"
  have "for_each (\<lambda>row. copy_row row (row + 1)) (rev [0..<24]) w = Inr (w\<lparr>buffer := ?b\<rparr>)"
    using scroll_down_rows [OF assms, of 24] by simp
  moreover have "wf_buffer ?b"
    using assms by (auto simp: wf_buffer_def dest!: in_set_takeD)
  moreover have "?b[0 := r] = r # butlast (buffer w)" for r
    using assms by (cases "buffer w") (simp_all add: butlast_conv_take wf_buffer_def)
  ultimately show ?thesis
    using assms by (simp add: old_line_def clear_row_wf)
qed

section \<open>Writing at the cursor\<close>

text \<open>The writer with the right-edge wrap done: what \<open>put_char\<close> stores into.\<close>

definition wrapped :: "writer \<Rightarrow> writer" where
  "wrapped w =
     (if 80 \<le> unat (column_position w)
      then w\<lparr>buffer := tl (buffer w) @ [blank_row (w_color w)], column_position := 0\<rparr> else w)"

lemma wf_wrapped [simp]: "wf_writer w \<Longrightarrow> wf_writer (wrapped w)"
  by (simp add: wrapped_def)

lemma wrapped_color [simp]: "w_color (wrapped w) = w_color w"
  by (simp add: wrapped_def)

lemma wrapped_column: "unat (column_position (wrapped w)) < 80"
  by (simp add: wrapped_def)

lemma wrapped_id [simp]: "unat (column_position w) < 80 \<Longrightarrow> wrapped w = w"
  by (simp add: wrapped_def)

text \<open>The cell under the cursor of the bottom row, replaced.\<close>

definition set_cursor_cell :: "screen_char \<Rightarrow> writer \<Rightarrow> writer" where
  "set_cursor_cell c w =
     w\<lparr>buffer := (buffer w)[24 := (buffer w ! 24)[unat (column_position w) := c]]\<rparr>"

lemma set_cursor_cell_simps [simp]:
  "column_position (set_cursor_cell c w) = column_position w"
  "w_color (set_cursor_cell c w) = w_color w"
  "wf_writer w \<Longrightarrow> wf_writer (set_cursor_cell c w)"
  by (simp_all add: set_cursor_cell_def)

definition advance :: "writer \<Rightarrow> writer" where
  "advance w = w\<lparr>column_position := column_position w + 1\<rparr>"

lemma advance_simps [simp]:
  "buffer (advance w) = buffer w"
  "w_color (advance w) = w_color w"
  by (simp_all add: advance_def)

lemma advance_column:
  "unat (column_position w) < 80 \<Longrightarrow>
   unat (column_position (advance w)) = Suc (unat (column_position w))"
  by (simp add: advance_def unat_word_ariths)

lemma put_char_wf: "wf_writer w \<Longrightarrow> put_char c w = Inr (set_cursor_cell c (wrapped w))"
  using wrapped_column [of w]
  by (auto simp: put_char_def new_line_wf wrapped_def set_cursor_cell_def split: if_splits)

lemma write_byte_colored_wf:
  "wf_writer w \<Longrightarrow> write_byte_colored c k w =
     Inr (if c = 0x0A
          then w\<lparr>buffer := tl (buffer w) @ [blank_row (w_color w)], column_position := 0\<rparr>
          else advance (set_cursor_cell \<lparr>ascii_character = c, sc_color = k\<rparr> (wrapped w)))"
  by (simp add: write_byte_colored_def set_byte_colored_def new_line_wf put_char_wf advance_def)

lemma set_byte_wf:
  "wf_writer w \<Longrightarrow> c \<noteq> 0x0A \<Longrightarrow> set_byte c w =
     Inr (set_cursor_cell \<lparr>ascii_character = c, sc_color = w_color w\<rparr> (wrapped w))"
  by (simp add: set_byte_def set_byte_colored_def put_char_wf)

lemma write_byte_colored_ok:
  "wf_writer w \<Longrightarrow> \<exists>w'. write_byte_colored c k w = Inr w' \<and> wf_writer w' \<and> w_color w' = w_color w"
  by (simp add: write_byte_colored_wf)

lemmas write_byte_ok = write_byte_colored_ok [of w _ "w_color w" for w, folded write_byte_def]

lemma write_string_append:
  "write_string (s @ t) w = bind_res (write_string s w) (write_string t)"
  by (simp add: write_string_def for_each_append)

text \<open>A printable text that fits on the current line is stored cell by cell from the cursor on.\<close>

definition cells :: "color_code \<Rightarrow> bytes \<Rightarrow> screen_char list" where
  "cells k s = map (\<lambda>c. \<lparr>ascii_character = c, sc_color = k\<rparr>) s"

lemma length_cells [simp]: "length (cells k s) = length s"
  by (simp add: cells_def)

lemma printable_not_newline: "printable c \<Longrightarrow> c \<noteq> 0x0A"
  by (auto simp: printable_def)

lemma write_byte_wf:
  "wf_writer w \<Longrightarrow> c \<noteq> 0x0A \<Longrightarrow> unat (column_position w) < 80 \<Longrightarrow>
   write_byte c w = Inr (advance (set_cursor_cell \<lparr>ascii_character = c, sc_color = w_color w\<rparr> w))"
  by (simp add: write_byte_def write_byte_colored_wf)

definition overwrite_line :: "screen_char list \<Rightarrow> writer \<Rightarrow> writer" where
  "overwrite_line cs w =
     w\<lparr>buffer := (buffer w)[24 := take (unat (column_position w)) (buffer w ! 24) @ cs @
                 drop (unat (column_position w) + length cs) (buffer w ! 24)],
       column_position := column_position w + of_nat (length cs)\<rparr>"

lemma write_string_line:
  assumes "wf_writer w" "list_all printable s" "unat (column_position w) + length s \<le> 80"
  shows "write_string s w = Inr (overwrite_line (cells (w_color w) s) w)"
  using assms
proof (induction s arbitrary: w)
  case Nil
  then show ?case by (simp add: write_string_def overwrite_line_def cells_def)
next
  case (Cons c s)
  let ?w = "advance (set_cursor_cell \<lparr>ascii_character = c, sc_color = w_color w\<rparr> w)"
  have col: "unat (column_position ?w) = Suc (unat (column_position w))"
    using Cons.prems by (simp add: advance_column)
  have "write_string (c # s) w = write_string s ?w"
    using Cons.prems printable_not_newline by (simp add: write_string_def write_byte_wf)
  also have "\<dots> = Inr (overwrite_line (cells (w_color w) s) ?w)"
    using Cons.prems col by (simp add: Cons.IH)
  also have "overwrite_line (cells (w_color w) s) ?w =
      overwrite_line (cells (w_color w) (c # s)) w"
    using Cons.prems col
    by (simp add: overwrite_line_def set_cursor_cell_def advance_def cells_def
        take_Suc_conv_app_nth algebra_simps)
  finally show ?case .
qed

lemma overwrite_line_wf:
  "wf_writer w \<Longrightarrow> unat (column_position w) + length cs \<le> 80 \<Longrightarrow> wf_writer (overwrite_line cs w)"
  by (simp add: overwrite_line_def)

end
