(* ===== verification/Terminal.thy ===== *)
theory Terminal
  imports Vga_Buffer
begin

text \<open>
  What the VGA writer promises, stated without a screen buffer: a terminal is an
  ever growing list of lines and a cursor column in the last of them. The writer
  of \<open>Vga_Buffer\<close> shows the last 25 lines; \<open>displays\<close> is that refinement relation,
  and every writing operation keeps it. The theory ends with the properties of
  the writer.
\<close>

section \<open>The abstract terminal\<close>

record terminal =
  lines :: "screen_char list list"
  tcol :: nat

definition term_newline :: "color_code \<Rightarrow> terminal \<Rightarrow> terminal" where
  "term_newline k t = \<lparr>lines = lines t @ [blank_row k], tcol = 0\<rparr>"

definition term_wrap :: "color_code \<Rightarrow> terminal \<Rightarrow> terminal" where
  "term_wrap k t = (if 80 \<le> tcol t then term_newline k t else t)"

definition term_put :: "color_code \<Rightarrow> screen_char \<Rightarrow> terminal \<Rightarrow> terminal" where
  "term_put k c t =
     (let u = term_wrap k t
      in \<lparr>lines = butlast (lines u) @ [(last (lines u))[tcol u := c]], tcol = Suc (tcol u)\<rparr>)"

definition term_byte :: "color_code \<Rightarrow> color_code \<Rightarrow> u8 \<Rightarrow> terminal \<Rightarrow> terminal" where
  "term_byte k fg c t =
     (if c = 0x0A then term_newline k t else term_put k \<lparr>ascii_character = c, sc_color = fg\<rparr> t)"

definition sanitize :: "u8 \<Rightarrow> u8" where
  "sanitize c = (if printable c \<or> c = 0x0A then c else 0xfe)"

definition term_write :: "color_code \<Rightarrow> bytes \<Rightarrow> terminal \<Rightarrow> terminal" where
  "term_write k s = fold (\<lambda>c. term_byte k k (sanitize c)) s"

section \<open>The screen is a window on the terminal\<close>

definition wf_terminal :: "terminal \<Rightarrow> bool" where
  "wf_terminal t \<longleftrightarrow> 25 \<le> length (lines t) \<and> (\<forall>r \<in> set (lines t). length r = 80)"

definition window :: "terminal \<Rightarrow> buffer" where
  "window t = drop (length (lines t) - 25) (lines t)"

definition displays :: "writer \<Rightarrow> terminal \<Rightarrow> bool" where
  "displays w t \<longleftrightarrow> wf_terminal t \<and> buffer w = window t \<and> unat (column_position w) = tcol t"

definition terminal_of :: "writer \<Rightarrow> terminal" where
  "terminal_of w = \<lparr>lines = buffer w, tcol = unat (column_position w)\<rparr>"

lemma displays_terminal_of: "wf_writer w \<Longrightarrow> displays w (terminal_of w)"
  by (simp add: displays_def terminal_of_def wf_terminal_def window_def wf_buffer_def)

lemma wf_window: "wf_terminal t \<Longrightarrow> wf_buffer (window t)"
  by (auto simp: wf_terminal_def window_def wf_buffer_def dest: in_set_dropD)

lemma displays_wf: "displays w t \<Longrightarrow> wf_writer w"
  by (simp add: displays_def wf_window)

lemma wf_terminal_nonempty: "wf_terminal t \<Longrightarrow> lines t \<noteq> []"
  by (auto simp: wf_terminal_def)

lemma wf_term_newline [simp]: "wf_terminal t \<Longrightarrow> wf_terminal (term_newline k t)"
  by (auto simp: wf_terminal_def term_newline_def)

lemma wf_term_wrap [simp]: "wf_terminal t \<Longrightarrow> wf_terminal (term_wrap k t)"
  by (simp add: term_wrap_def)

lemma window_newline:
  assumes "wf_terminal t"
  shows "window (term_newline k t) = tl (window t) @ [blank_row k]"
proof -
  have "Suc (length (lines t)) - 25 = Suc (length (lines t) - 25)"
    using assms by (auto simp: wf_terminal_def)
  then have "window (term_newline k t) = drop (Suc (length (lines t) - 25)) (lines t) @ [blank_row k]"
    using assms by (simp add: window_def term_newline_def wf_terminal_def del: diff_Suc_Suc)
  then show ?thesis
    by (simp add: window_def drop_Suc tl_drop)
qed

lemma displays_newline:
  "displays w t \<Longrightarrow>
   displays (w\<lparr>buffer := tl (buffer w) @ [blank_row k], column_position := 0\<rparr>) (term_newline k t)"
  by (simp add: displays_def window_newline) (simp add: term_newline_def)

lemma displays_wrapped: "displays w t \<Longrightarrow> displays (wrapped w) (term_wrap (w_color w) t)"
  using displays_newline [of w t "w_color w"]
  by (auto simp: wrapped_def term_wrap_def displays_def)

lemma window_set_last:
  assumes "wf_terminal t"
  shows "window (t\<lparr>lines := butlast (lines t) @ [(last (lines t))[j := c]]\<rparr>) =
    (window t)[24 := (window t ! 24)[j := c]]"
proof -
  obtain ls l where t: "lines t = ls @ [l]" and len: "24 \<le> length ls"
    using assms by (cases "lines t" rule: rev_cases) (auto simp: wf_terminal_def)
  then show ?thesis
    by (simp add: window_def list_update_append nth_append)
qed

lemma displays_put:
  assumes "displays w t" "unat (column_position w) < 80"
  shows "displays (advance (set_cursor_cell c w))
    \<lparr>lines = butlast (lines t) @ [(last (lines t))[tcol t := c]], tcol = Suc (tcol t)\<rparr>"
proof -
  have "\<forall>r \<in> set (butlast (lines t) @ [(last (lines t))[tcol t := c]]). length r = 80"
    using assms wf_terminal_nonempty [of t]
    by (auto simp: displays_def wf_terminal_def dest: in_set_butlastD)
  then show ?thesis
    using assms window_set_last [of t "tcol t" c] advance_column [of "set_cursor_cell c w"]
    by (auto simp: displays_def set_cursor_cell_def wf_terminal_def window_def)
qed

lemma displays_put_char:
  assumes "displays w t"
  shows "displays (advance (set_cursor_cell c (wrapped w))) (term_put (w_color w) c t)"
  using displays_put [OF displays_wrapped [OF assms] wrapped_column]
  by (simp add: term_put_def Let_def)

lemma write_byte_colored_displays:
  assumes "displays w t"
  shows "\<exists>w'. write_byte_colored c k w = Inr w' \<and> w_color w' = w_color w \<and>
    displays w' (term_byte (w_color w) k c t)"
  using assms displays_wf [OF assms]
  by (simp add: write_byte_colored_wf term_byte_def displays_newline displays_put_char)

lemma write_string_displays:
  assumes "displays w t" "w_color w = k"
  shows "\<exists>w'. write_string s w = Inr w' \<and> w_color w' = k \<and> displays w' (term_write k s t)"
proof -
  have "\<exists>w'. write_string s w = Inr w' \<and> (w_color w' = k \<and> displays w' (term_write k s t))"
    unfolding write_string_def term_write_def
  proof (rule for_each_simulation)
    fix c v u
    assume vu: "w_color v = k \<and> displays v u"
    have "(if printable c \<or> c = 0x0A then write_byte c else write_byte 0xfe) v =
        write_byte (sanitize c) v"
      by (simp add: sanitize_def)
    with vu show "\<exists>v'. (if printable c \<or> c = 0x0A then write_byte c else write_byte 0xfe) v = Inr v' \<and>
        (w_color v' = k \<and> displays v' (term_byte k k (sanitize c) u))"
      using write_byte_colored_displays [of v u "sanitize c" k]
      by (simp add: write_byte_def)
  qed (use assms in simp)
  then show ?thesis by blast
qed

text \<open>Only the last line of the terminal is ever written: the lines above it are final.\<close>

lemma term_byte_keeps:
  assumes "lines t \<noteq> []"
  shows "\<exists>ls. lines (term_byte k fg c t) = butlast (lines t) @ ls \<and> ls \<noteq> []"
  using assms
  by (cases "lines t" rule: rev_cases)
    (auto simp: term_byte_def term_put_def term_wrap_def term_newline_def butlast_append Let_def)

lemma butlast_append_prefix:
  "ls \<noteq> [] \<Longrightarrow> \<exists>ms. butlast (butlast xs @ ls) @ ys = butlast xs @ ms \<and> (ys \<noteq> [] \<longrightarrow> ms \<noteq> [])"
  by (auto simp: butlast_append)

lemma term_write_keeps:
  assumes "lines t \<noteq> []"
  shows "\<exists>ls. lines (term_write k s t) = butlast (lines t) @ ls \<and> ls \<noteq> []"
  using assms
proof (induction s arbitrary: t)
  case Nil
  then show ?case
    by (auto simp: term_write_def intro!: exI [of _ "[last (lines t)]"])
next
  case (Cons c s)
  obtain ls where ls: "lines (term_byte k k (sanitize c) t) = butlast (lines t) @ ls" "ls \<noteq> []"
    using term_byte_keeps [OF Cons.prems] by blast
  moreover obtain ms where
    "lines (term_write k s (term_byte k k (sanitize c) t)) =
       butlast (butlast (lines t) @ ls) @ ms" "ms \<noteq> []"
    using Cons.IH [of "term_byte k k (sanitize c) t"] ls by auto
  ultimately show ?case
    using butlast_append_prefix [of ls "lines t" ms] by (auto simp: term_write_def)
qed

section \<open>Properties of the writer\<close>

text \<open>The blank screen in the writer's initial colour, the concrete state the examples use.\<close>

definition clear_screen :: buffer where
  "clear_screen = replicate 25 (blank_row (color_code_new Yellow Black))"

lemma wf_clear_screen [simp]: "wf_buffer clear_screen"
  by (simp add: clear_screen_def wf_buffer_def)

lemma row_clear_from_wf:
  "wf_writer w \<Longrightarrow> \<forall>col \<in> set cols. col < 80 \<Longrightarrow>
   row_clear_from cols w = Inr (\<forall>col \<in> set cols. buffer w ! 24 ! col = blank_cell (w_color w))"
  by (induction cols) (auto simp: blank_cell_def)

text \<open>
  C1: Writing any byte string to a well-formed writer never panics. The screen
  afterwards is the 25-line window on the abstract terminal that received the
  same bytes (unprintable bytes shown as 0xfe, a wrap at column 80, a line feed
  opening a fresh blank line); and only the line the cursor was in and lines
  opened later are written, so lines above the cursor are final.
\<close>

theorem write_string_refines_terminal:
  assumes "wf_writer w"
  shows "\<exists>w' ls. write_string s w = Inr w' \<and>
    displays w' (term_write (w_color w) s (terminal_of w)) \<and>
    lines (term_write (w_color w) s (terminal_of w)) = butlast (buffer w) @ ls \<and> ls \<noteq> []"
proof -
  obtain w' where "write_string s w = Inr w'"
      "displays w' (term_write (w_color w) s (terminal_of w))"
    using write_string_displays [OF displays_terminal_of [OF assms] refl] by blast
  moreover have "buffer w \<noteq> []"
    using assms by (auto simp: wf_buffer_def)
  ultimately show ?thesis
    using term_write_keeps [of "terminal_of w" "w_color w" s] by (auto simp: terminal_of_def)
qed

theorem write_string_refines_terminal_witness:
  "wf_writer (writer_init clear_screen) \<and>
   (\<exists>w' ls. write_string [0x48, 0x0A, 0x01] (writer_init clear_screen) = Inr w' \<and>
     displays w' (term_write (w_color (writer_init clear_screen)) [0x48, 0x0A, 0x01]
       (terminal_of (writer_init clear_screen))) \<and>
     lines (term_write (w_color (writer_init clear_screen)) [0x48, 0x0A, 0x01]
       (terminal_of (writer_init clear_screen))) = butlast (buffer (writer_init clear_screen)) @ ls \<and>
     ls \<noteq> [])"
proof -
  have "wf_writer (writer_init clear_screen)" by (simp add: writer_init_def)
  then show ?thesis using write_string_refines_terminal by blast
qed

text \<open>
  The test \<^verbatim>\<open>test_println_output\<close> for every text: printing a printable line of
  at most 80 characters and a line feed, with the cursor at column 0, leaves that
  text in the last but one row, a blank bottom row and the cursor at column 0;
  the rest of the screen has moved up by one row.
\<close>

lemma println_output:
  assumes "wf_writer w" "column_position w = 0" "list_all printable s" "length s \<le> 80"
  shows "\<exists>w'. write_string (s @ [0x0A]) w = Inr w' \<and>
    map ascii_character (take (length s) (buffer w' ! 23)) = s \<and>
    drop (length s) (buffer w' ! 23) = drop (length s) (buffer w ! 24) \<and>
    buffer w' ! 24 = blank_row (w_color w) \<and> column_position w' = 0 \<and>
    take 23 (buffer w') = take 23 (tl (buffer w))"
proof -
  let ?cs = "cells (w_color w) s"
  let ?row = "?cs @ drop (length s) (buffer w ! 24)"
  let ?v = "overwrite_line ?cs w"
  let ?w = "?v\<lparr>buffer := tl (buffer ?v) @ [blank_row (w_color w)], column_position := 0\<rparr>"
  have "write_string s w = Inr ?v"
    using assms by (simp add: write_string_line)
  moreover have "write_string [0x0A] ?v = Inr ?w"
    using assms
    by (simp add: write_string_def write_byte_def write_byte_colored_wf overwrite_line_wf)
      (simp add: overwrite_line_def)
  ultimately have "write_string (s @ [0x0A]) w = Inr ?w"
    by (simp add: write_string_append)
  moreover have "buffer ?w = tl ((buffer w)[24 := ?row]) @ [blank_row (w_color w)]"
    using assms by (simp add: overwrite_line_def)
  moreover have "tl ((buffer w)[24 := ?row]) = (tl (buffer w))[23 := ?row]"
    using assms(1) by (cases "buffer w") (auto simp: wf_buffer_def)
  ultimately show ?thesis
    using assms(1) by (auto simp: nth_append cells_def comp_def)
qed

text \<open>
  \<^verbatim>\<open>new_line\<close> followed by \<^verbatim>\<open>old_line\<close>, the pair the shell uses to step back
  over a wrapped line, restores every row but the top one, which the scroll has
  lost and which comes back blank; the cursor is at column 0. The cell-by-cell
  loops never index outside the buffer.
\<close>

lemma old_line_undoes_new_line:
  assumes "wf_writer w"
  shows "bind_res (new_line w) old_line =
    Inr (w\<lparr>buffer := (buffer w)[0 := blank_row (w_color w)], column_position := 0\<rparr>)"
  using assms by (cases "buffer w") (simp_all add: new_line_wf old_line_wf wf_buffer_def)

text \<open>
  \<^verbatim>\<open>is_current_row_clear\<close>, an early-exit scan, answers exactly whether the
  bottom row is a row of blanks in the writer's colour.
\<close>

lemma is_current_row_clear_correct:
  assumes "wf_writer w"
  shows "is_current_row_clear w = Inr (buffer w ! 24 = blank_row (w_color w))"
  using assms row_clear_from_wf [of w "[0..<80]"]
  by (auto simp: is_current_row_clear_def list_eq_iff_nth_eq blank_row_def)

text \<open>
  C28: \<^verbatim>\<open>write_char_indexed\<close> does not use the second byte of its index as a
  column: the width mask is not shifted down, so the call panics whenever a bit
  of 0x7f00 is set or the low five bits name a row from 25 on, and otherwise
  stores the character in column 0 of the row.
\<close>

theorem write_char_indexed_behaviour:
  assumes "wf_writer w"
  shows "write_char_indexed index c w =
    (if index AND 0x7f00 = 0 \<and> unat (index AND 0x1f) < 25
     then Inr (w\<lparr>buffer := (buffer w)[unat (index AND 0x1f) :=
                 (buffer w ! unat (index AND 0x1f))[0 := c]]\<rparr>)
     else Inl IndexOutOfBounds)"
proof -
  have masks: "HEIGHT_MASK = 0x1f" "WIDTH_MASK = 0x7f00"
    by (simp_all add: HEIGHT_MASK_def WIDTH_MASK_def)
  have wide: "unat (index AND 0x7f00) < 80 \<longleftrightarrow> index AND 0x7f00 = 0"
  proof -
    have "take_bit 8 (index AND 0x7f00) = 0"
      by simp
    then have "take_bit 8 (unat (index AND 0x7f00)) = 0"
      by (metis unsigned_0 unsigned_take_bit_eq)
    then have "unat (index AND 0x7f00) mod 256 = 0"
      by (simp add: take_bit_eq_mod)
    then have "unat (index AND 0x7f00) < 80 \<longleftrightarrow> unat (index AND 0x7f00) = 0"
      by auto
    then show ?thesis
      by (simp add: unat_eq_0)
  qed
  show ?thesis
    using assms by (auto simp: write_char_indexed_def buf_write_def masks wide)
qed

theorem write_char_indexed_behaviour_witness:
  "wf_writer (writer_init clear_screen) \<and>
   write_char_indexed 0x0105 (blank_cell (ColorCode 0)) (writer_init clear_screen) =
     Inl IndexOutOfBounds"
proof -
  have wf: "wf_writer (writer_init clear_screen)" by (simp add: writer_init_def)
  show ?thesis
    using write_char_indexed_behaviour [OF wf, of "0x0105"] wf by simp
qed

lemma color_low: "color_u8 c AND 0x0f = color_u8 c" "push_bit 4 (color_u8 c) AND 0x0f = 0"
  by (cases c; simp)+

lemma color_high: "drop_bit 4 (color_u8 c) = 0" "drop_bit 4 (push_bit 4 (color_u8 c)) = color_u8 c"
  by (cases c; simp)+

text \<open>
  A colour code holds both of its colours: the foreground is its low nibble
  and the background its high nibble, so distinct colour pairs have distinct codes.
\<close>

lemma color_code_roundtrip:
  "color_code_u8 (color_code_new fg bg) AND 0x0f = color_u8 fg \<and>
   drop_bit 4 (color_code_u8 (color_code_new fg bg)) = color_u8 bg \<and>
   (color_code_new fg bg = color_code_new fg' bg' \<longleftrightarrow> fg = fg' \<and> bg = bg')"
proof -
  have low: "color_code_u8 (color_code_new f b) AND 0x0f = color_u8 f"
    and high: "drop_bit 4 (color_code_u8 (color_code_new f b)) = color_u8 b" for f b
    by (simp_all add: color_code_new_def color_low color_high bit.conj_disj_distrib2 drop_bit_or)
  have inj: "color_u8 a = color_u8 b \<Longrightarrow> a = b" for a b
    by (cases a; cases b; simp)
  show ?thesis
    using low [of fg bg] high [of fg bg] low [of fg' bg'] high [of fg' bg'] inj by metis
qed

end
