(* ===== verification/Arch.thy ===== *)
theory Arch
  imports Leaf_Prelude
begin

unbundle bit_operations_syntax

text \<open>
  The x86 half of src/src/arch: the interrupt flag, \<^verbatim>\<open>without_interrupts\<close>, and
  port input and output, with the drivers that are nothing but port writes
  (src/src/drivers/pic.rs, \<^verbatim>\<open>exit_qemu\<close>). A machine is the flags register, the
  log of port accesses made so far and the devices behind the ports. A device is
  not code of the repository: it is a function that answers a read from the log
  of everything the kernel did before.
\<close>

section \<open>The machine\<close>

datatype io_event = Out u16 u8 | Inp u16 u8 | OutL u16 u32

record machine =
  rflags :: u64
  io_log :: "io_event list"
  device :: "io_event list \<Rightarrow> u16 \<Rightarrow> u8"

definition port_write :: "u16 \<Rightarrow> u8 \<Rightarrow> 'a machine_scheme \<Rightarrow> 'a machine_scheme" where
  "port_write p v s = s\<lparr>io_log := io_log s @ [Out p v]\<rparr>"

definition port_write_u32 :: "u16 \<Rightarrow> u32 \<Rightarrow> 'a machine_scheme \<Rightarrow> 'a machine_scheme" where
  "port_write_u32 p v s = s\<lparr>io_log := io_log s @ [OutL p v]\<rparr>"

definition port_read :: "u16 \<Rightarrow> 'a machine_scheme \<Rightarrow> u8 \<times> 'a machine_scheme" where
  "port_read p s =
     (let v = device s (io_log s) p in (v, s\<lparr>io_log := io_log s @ [Inp p v]\<rparr>))"

section \<open>The interrupt flag\<close>

definition flags :: "'a machine_scheme \<Rightarrow> u64" where
  "flags s = rflags s"

definition enable_interrupts :: "'a machine_scheme \<Rightarrow> 'a machine_scheme" where
  "enable_interrupts s = s\<lparr>rflags := rflags s OR 0x0200\<rparr>"

definition disable_interrupts :: "'a machine_scheme \<Rightarrow> 'a machine_scheme" where
  "disable_interrupts s = s\<lparr>rflags := rflags s AND NOT 0x0200\<rparr>"

definition is_interrupts_enabled :: "'a machine_scheme \<Rightarrow> bool" where
  "is_interrupts_enabled s \<longleftrightarrow> flags s AND 0x0200 \<noteq> 0"

definition without_interrupts ::
    "('a machine_scheme \<Rightarrow> ('r \<times> 'a machine_scheme) res) \<Rightarrow>
     'a machine_scheme \<Rightarrow> ('r \<times> 'a machine_scheme) res" where
  "without_interrupts f s =
     (if is_interrupts_enabled s
      then bind_res (f (disable_interrupts s)) (\<lambda>(result, s). Inr (result, enable_interrupts s))
      else f s)"

section \<open>Drivers that only write ports\<close>

definition pic_disable :: "'a machine_scheme \<Rightarrow> 'a machine_scheme" where
  "pic_disable s = port_write 0x21 0xff (port_write 0xa1 0xff s)"

datatype qemu_exit_code = Success | Failed

primrec qemu_exit_code_u32 :: "qemu_exit_code \<Rightarrow> u32" where
  "qemu_exit_code_u32 Success = 0x10"
| "qemu_exit_code_u32 Failed = 0x11"

definition exit_qemu :: "qemu_exit_code \<Rightarrow> 'a machine_scheme \<Rightarrow> 'a machine_scheme" where
  "exit_qemu exit_code s = port_write_u32 0xf4 (qemu_exit_code_u32 exit_code) s"

section \<open>Lemmas\<close>

lemma enabled_simps [simp]:
  "is_interrupts_enabled (enable_interrupts s)"
  "\<not> is_interrupts_enabled (disable_interrupts s)"
  by (simp_all add: is_interrupts_enabled_def flags_def enable_interrupts_def
      disable_interrupts_def bit.conj_disj_distrib2 and.assoc)

lemma machine_frames [simp]:
  "io_log (enable_interrupts s) = io_log s" "io_log (disable_interrupts s) = io_log s"
  "device (enable_interrupts s) = device s" "device (disable_interrupts s) = device s"
  "machine.more (enable_interrupts s) = machine.more s"
  "machine.more (disable_interrupts s) = machine.more s"
  by (simp_all add: enable_interrupts_def disable_interrupts_def)

lemma port_write_simps [simp]:
  "io_log (port_write p v s) = io_log s @ [Out p v]"
  "rflags (port_write p v s) = rflags s"
  "device (port_write p v s) = device s"
  "machine.more (port_write p v s) = machine.more s"
  "is_interrupts_enabled (port_write p v s) = is_interrupts_enabled s"
  by (simp_all add: port_write_def is_interrupts_enabled_def flags_def)

text \<open>The interrupt flag is bit 9 of the flags register, and nothing else is touched.\<close>

lemma flag_mask: "(0x0200 :: u64) = push_bit 9 1"
  by simp

lemma enabled_bit: "is_interrupts_enabled s \<longleftrightarrow> bit (rflags s) 9"
  unfolding is_interrupts_enabled_def flags_def flag_mask
  by (simp only: bit_iff_and_push_bit_not_eq_0)

lemma rflags_enable: "rflags (enable_interrupts s) = set_bit 9 (rflags s)"
  unfolding enable_interrupts_def flag_mask by (simp only: set_bit_eq_or) simp

lemma rflags_disable: "rflags (disable_interrupts s) = unset_bit 9 (rflags s)"
  unfolding disable_interrupts_def flag_mask by (simp only: unset_bit_eq_and_not) simp

lemma enable_disable_id:
  assumes "is_interrupts_enabled s"
  shows "enable_interrupts (disable_interrupts s) = s"
proof -
  have "set_bit 9 (unset_bit 9 (rflags s)) = rflags s"
    using assms by (intro bit_eqI) (auto simp: enabled_bit bit_set_bit_iff bit_unset_bit_iff)
  then have "rflags (enable_interrupts (disable_interrupts s)) = rflags s"
    by (simp only: rflags_enable rflags_disable)
  then show ?thesis
    by (simp add: enable_interrupts_def disable_interrupts_def)
qed

text \<open>The state in which the closure of \<^verbatim>\<open>without_interrupts\<close> runs.\<close>

definition irq_off :: "'a machine_scheme \<Rightarrow> 'a machine_scheme" where
  "irq_off s = (if is_interrupts_enabled s then disable_interrupts s else s)"

lemma irq_off_simps [simp]:
  "\<not> is_interrupts_enabled (irq_off s)"
  "io_log (irq_off s) = io_log s"
  "device (irq_off s) = device s"
  "machine.more (irq_off s) = machine.more s"
  by (simp_all add: irq_off_def)

definition irq_restore :: "'b machine_scheme \<Rightarrow> 'a machine_scheme \<Rightarrow> 'a machine_scheme" where
  "irq_restore s t = (if is_interrupts_enabled s then enable_interrupts t else t)"

lemma irq_restore_simps [simp]:
  "io_log (irq_restore s t) = io_log t"
  "device (irq_restore s t) = device t"
  "machine.more (irq_restore s t) = machine.more t"
  by (simp_all add: irq_restore_def)

lemma irq_restore_enabled:
  "\<not> is_interrupts_enabled t \<Longrightarrow> is_interrupts_enabled (irq_restore s t) = is_interrupts_enabled s"
  by (simp add: irq_restore_def)

lemma without_interrupts_eq:
  "without_interrupts f s =
     bind_res (f (irq_off s)) (\<lambda>(result, t). Inr (result, irq_restore s t))"
  by (cases "f s") (auto simp: without_interrupts_def irq_off_def irq_restore_def)

section \<open>Critical sections\<close>

text \<open>
  \<^verbatim>\<open>without_interrupts\<close> runs its closure with the interrupt flag clear, and if
  the closure returns with the flag still clear then the caller's flag is
  restored, the result is the closure's and nothing else of the machine changes.
\<close>

lemma without_interrupts_restores:
  assumes "f (irq_off s) = Inr (r, t)" "\<not> is_interrupts_enabled t"
  shows "\<not> is_interrupts_enabled (irq_off s) \<and>
    (\<exists>u. without_interrupts f s = Inr (r, u) \<and>
      is_interrupts_enabled u = is_interrupts_enabled s \<and>
      io_log u = io_log t \<and> device u = device t \<and> machine.more u = machine.more t)"
  using assms by (simp add: without_interrupts_eq irq_restore_enabled)

text \<open>
  Nested critical sections are transparent: entering \<^verbatim>\<open>without_interrupts\<close> inside
  \<^verbatim>\<open>without_interrupts\<close> behaves as entering it once, also when the closure panics.
\<close>

lemma without_interrupts_nested:
  "without_interrupts (without_interrupts f) s = without_interrupts f s"
  by (simp add: without_interrupts_def)

end
