(* ===== verification/Pit.thy ===== *)
theory Pit
  imports Arch
begin

unbundle bit_operations_syntax

text \<open>
  The programmable interval timer of src/src/drivers/pit.rs: the command byte,
  reading and writing the 16-bit count of channel 0 through its 8-bit port, and
  the choice of the divisor for a frequency.
\<close>

definition CHANNEL0 :: u16 where "CHANNEL0 = 0x40"
definition CHANNEL1 :: u16 where "CHANNEL1 = 0x41"
definition CHANNEL2 :: u16 where "CHANNEL2 = 0x42"
definition COMMAND_REG :: u16 where "COMMAND_REG = 0x43"

datatype channel = Channel0 | Channel1 | Channel2 | ReadBackCommand

primrec channel_u8 :: "channel \<Rightarrow> u8" where
  "channel_u8 Channel0 = 0"
| "channel_u8 Channel1 = 1"
| "channel_u8 Channel2 = 2"
| "channel_u8 ReadBackCommand = 3"

datatype access_mode = LatchCountDownValueCommand | LoByteOnly | HiByteOnly | LoHiByte

primrec access_mode_u8 :: "access_mode \<Rightarrow> u8" where
  "access_mode_u8 LatchCountDownValueCommand = 0"
| "access_mode_u8 LoByteOnly = 1"
| "access_mode_u8 HiByteOnly = 2"
| "access_mode_u8 LoHiByte = 3"

datatype operating_mode =
    InterruptOnTerminalCount | HardwareReTriggerableOneShot | RateGenerator
  | SquareWaveGenerator | SoftwareTriggeredStrobe | HardwareTriggeredStrobe

primrec operating_mode_u8 :: "operating_mode \<Rightarrow> u8" where
  "operating_mode_u8 InterruptOnTerminalCount = 0"
| "operating_mode_u8 HardwareReTriggerableOneShot = 1"
| "operating_mode_u8 RateGenerator = 2"
| "operating_mode_u8 SquareWaveGenerator = 3"
| "operating_mode_u8 SoftwareTriggeredStrobe = 4"
| "operating_mode_u8 HardwareTriggeredStrobe = 5"

datatype data_mode = Binary | BCD

primrec data_mode_u8 :: "data_mode \<Rightarrow> u8" where
  "data_mode_u8 Binary = 0"
| "data_mode_u8 BCD = 1"

definition command_byte :: "channel \<Rightarrow> access_mode \<Rightarrow> operating_mode \<Rightarrow> data_mode \<Rightarrow> u8" where
  "command_byte channel access_mode operating_mode data_mode =
     data_mode_u8 data_mode OR push_bit 1 (operating_mode_u8 operating_mode) OR
     push_bit 4 (access_mode_u8 access_mode) OR push_bit 6 (channel_u8 channel)"

definition write_mode ::
    "channel \<Rightarrow> access_mode \<Rightarrow> operating_mode \<Rightarrow> data_mode \<Rightarrow>
     'a machine_scheme \<Rightarrow> (unit \<times> 'a machine_scheme) res" where
  "write_mode channel access_mode operating_mode data_mode =
     without_interrupts (\<lambda>s.
       let data = command_byte channel access_mode operating_mode data_mode
       in Inr ((), port_write COMMAND_REG data s))"

definition read_pit_count :: "'a machine_scheme \<Rightarrow> (u16 \<times> 'a machine_scheme) res" where
  "read_pit_count =
     without_interrupts (\<lambda>s.
       let s = port_write COMMAND_REG 0 s;
           (count_low, s) = port_read CHANNEL0 s;
           (count_high, s) = port_read CHANNEL0 s
       in Inr (ucast count_low OR push_bit 8 (ucast count_high), s))"

definition set_pit_count :: "u16 \<Rightarrow> 'a machine_scheme \<Rightarrow> (unit \<times> 'a machine_scheme) res" where
  "set_pit_count count =
     without_interrupts (\<lambda>s.
       let s = port_write CHANNEL0 (ucast (count AND 0xff)) s;
           s = port_write CHANNEL0 (ucast (drop_bit 8 (count AND 0xff00))) s
       in Inr ((), s))"

definition PIT_FREQUENCY_HZ :: usize where "PIT_FREQUENCY_HZ = 1000"
definition PIT_DIVIDEND :: usize where "PIT_DIVIDEND = 1193182"

text \<open>The divisor \<^verbatim>\<open>set_frequency\<close> computes: \<^verbatim>\<open>usize\<close> division panics on zero.\<close>

definition pit_divisor :: "usize \<Rightarrow> usize res" where
  "pit_divisor frequency =
     (if frequency = 0 then Inl DivideByZero
      else let new_divisor = PIT_DIVIDEND div frequency
           in Inr (if frequency div 2 < PIT_DIVIDEND mod frequency
                   then new_divisor + 1 else new_divisor))"

definition write_channel0_count :: "u16 \<Rightarrow> 'a machine_scheme \<Rightarrow> (unit \<times> 'a machine_scheme) res" where
  "write_channel0_count count s =
     bind_res (write_mode Channel0 LoHiByte RateGenerator Binary s) (\<lambda>(_, s).
     set_pit_count count s)"

definition set_frequency :: "usize \<Rightarrow> 'a machine_scheme \<Rightarrow> (unit \<times> 'a machine_scheme) res" where
  "set_frequency frequency s =
     bind_res (pit_divisor frequency) (\<lambda>new_divisor.
     bind_res (write_mode Channel0 LoHiByte RateGenerator Binary s) (\<lambda>(_, s).
     set_pit_count (ucast new_divisor) s))"

definition pit_init :: "'a machine_scheme \<Rightarrow> (unit \<times> 'a machine_scheme) res" where
  "pit_init s = set_frequency PIT_FREQUENCY_HZ s"

section \<open>Lemmas\<close>

text \<open>The command byte read back by the bit layout pit.rs documents (lines 13 to 35).\<close>

definition decode_channel :: "u8 \<Rightarrow> channel" where
  "decode_channel b =
     (let n = drop_bit 6 b
      in if n = 0 then Channel0 else if n = 1 then Channel1
         else if n = 2 then Channel2 else ReadBackCommand)"

definition decode_access_mode :: "u8 \<Rightarrow> access_mode" where
  "decode_access_mode b =
     (let n = drop_bit 4 b AND 3
      in if n = 0 then LatchCountDownValueCommand else if n = 1 then LoByteOnly
         else if n = 2 then HiByteOnly else LoHiByte)"

definition decode_operating_mode :: "u8 \<Rightarrow> operating_mode" where
  "decode_operating_mode b =
     (let n = drop_bit 1 b AND 7
      in if n = 0 then InterruptOnTerminalCount else if n = 1 then HardwareReTriggerableOneShot
         else if n = 2 \<or> n = 6 then RateGenerator else if n = 3 \<or> n = 7 then SquareWaveGenerator
         else if n = 4 then SoftwareTriggeredStrobe else HardwareTriggeredStrobe)"

definition decode_data_mode :: "u8 \<Rightarrow> data_mode" where
  "decode_data_mode b = (if b AND 1 = 0 then Binary else BCD)"

definition low_byte :: "u16 \<Rightarrow> u8" where
  "low_byte n = ucast (n AND 0xff)"

definition high_byte :: "u16 \<Rightarrow> u8" where
  "high_byte n = ucast (drop_bit 8 (n AND 0xff00))"

lemma low_byte_ucast: "low_byte n = ucast n"
  unfolding low_byte_def by (intro bit_word_eqI) (auto simp: bit_simps bit_byte_mask)

lemma high_byte_ucast: "high_byte n = ucast (drop_bit 8 n)"
  unfolding high_byte_def by (intro bit_word_eqI) (auto simp: bit_simps bit_byte_mask)

lemma join_split_bytes: "ucast (low_byte n) OR push_bit 8 (ucast (high_byte n)) = n"
  unfolding low_byte_ucast high_byte_ucast by (intro bit_word_eqI) (auto simp: bit_simps)

lemma write_mode_eq:
  "write_mode c a m d s =
     Inr ((), irq_restore s (port_write COMMAND_REG (command_byte c a m d) (irq_off s)))"
  by (simp add: write_mode_def without_interrupts_eq Let_def)

lemma set_pit_count_eq:
  "set_pit_count n s =
     Inr ((), irq_restore s (port_write CHANNEL0 (high_byte n)
       (port_write CHANNEL0 (low_byte n) (irq_off s))))"
  by (simp add: set_pit_count_def without_interrupts_eq Let_def low_byte_def high_byte_def)

lemma write_channel0_count_effect:
  "\<exists>t. write_channel0_count n s = Inr ((), t) \<and>
     io_log t = io_log s @ [Out 0x43 0x34, Out 0x40 (low_byte n), Out 0x40 (high_byte n)] \<and>
     is_interrupts_enabled t = is_interrupts_enabled s \<and>
     device t = device s \<and> machine.more t = machine.more s"
  by (simp add: write_channel0_count_def write_mode_eq set_pit_count_eq irq_restore_enabled
      command_byte_def COMMAND_REG_def CHANNEL0_def)

lemma set_frequency_eq:
  "set_frequency f s = bind_res (pit_divisor f) (\<lambda>d. write_channel0_count (ucast d) s)"
  by (cases "pit_divisor f") (simp_all add: set_frequency_def write_channel0_count_def)

lemma nearest_divisor:
  fixes D f :: nat
  assumes "0 < f"
  shows "2 * \<bar>int D - int (if f div 2 < D mod f then D div f + 1 else D div f) * int f\<bar> \<le> int f"
proof -
  have D: "int D = int (D div f) * int f + int (D mod f)"
    by (metis div_mult_mod_eq of_nat_add of_nat_mult)
  have m: "D mod f < f"
    using assms by simp
  show ?thesis
  proof (cases "f div 2 < D mod f")
    case True
    then have "int D - int (D div f + 1) * int f = int (D mod f) - int f"
      using D by (simp add: algebra_simps)
    then show ?thesis using True m by simp
  next
    case False
    then show ?thesis using D m by simp
  qed
qed

lemma pit_divisor_nat:
  assumes "f \<noteq> 0"
  shows "\<exists>d. pit_divisor f = Inr d \<and>
    unat d = (if unat f div 2 < 1193182 mod unat f then 1193182 div unat f + 1
              else 1193182 div unat f)"
proof -
  have "1193182 div unat f + 1 \<le> 1193183" by simp
  then have "1193182 div unat f + 1 < 2 ^ 64" by (rule order.strict_trans1) simp
  then show ?thesis
    using assms
    by (auto simp: pit_divisor_def Let_def PIT_DIVIDEND_def word_less_nat_alt unat_div_distrib
        unat_mod_distrib unat_word_ariths)
qed

lemma divisor_fits: "19 \<le> f \<Longrightarrow> 1193182 div f + 1 < (2 :: nat) ^ 16"
  using div_le_mono2 [of 19 f 1193182] by simp

text \<open>
  What the timer does after a latch command, for the timer behind port 0x40: the
  first read answers the low byte of the latched count and the second the high byte.
\<close>

definition latches :: "(io_event list \<Rightarrow> u16 \<Rightarrow> u8) \<Rightarrow> io_event list \<Rightarrow> u16 \<Rightarrow> bool" where
  "latches dev log n \<longleftrightarrow>
     dev (log @ [Out 0x43 0]) 0x40 = low_byte n \<and>
     dev (log @ [Out 0x43 0, Inp 0x40 (low_byte n)]) 0x40 = high_byte n"

lemma read_pit_count_eq:
  "latches (device s) (io_log s) n \<Longrightarrow> read_pit_count s =
     Inr (n, irq_restore s ((irq_off s)\<lparr>io_log := io_log s @
       [Out 0x43 0, Inp 0x40 (low_byte n), Inp 0x40 (high_byte n)]\<rparr>))"
  using join_split_bytes [of n]
  by (simp add: read_pit_count_def without_interrupts_eq port_read_def port_write_def
      latches_def COMMAND_REG_def CHANNEL0_def Let_def)

section \<open>Properties\<close>

text \<open>
  The command byte \<^verbatim>\<open>write_mode\<close> sends encodes all four of its arguments at the
  bit positions the driver documents: decoding it by that layout gives back the
  channel, the access mode, the operating mode and the data mode.
\<close>

lemma command_byte_roundtrip:
  "decode_channel (command_byte c a m d) = c \<and>
   decode_access_mode (command_byte c a m d) = a \<and>
   decode_operating_mode (command_byte c a m d) = m \<and>
   decode_data_mode (command_byte c a m d) = d"
proof (intro conjI)
  show "decode_channel (command_byte c a m d) = c"
    by (cases c; cases a; cases m; cases d; simp add: decode_channel_def command_byte_def)
  show "decode_access_mode (command_byte c a m d) = a"
    by (cases c; cases a; cases m; cases d; simp add: decode_access_mode_def command_byte_def)
  show "decode_operating_mode (command_byte c a m d) = m"
    by (cases c; cases a; cases m; cases d; simp add: decode_operating_mode_def command_byte_def)
  show "decode_data_mode (command_byte c a m d) = d"
    by (cases c; cases a; cases m; cases d; simp add: decode_data_mode_def command_byte_def)
qed

text \<open>
  C30: \<^verbatim>\<open>read_pit_count\<close> reassembles the 16-bit count a latching timer holds, leaves
  the interrupt flag as it was, and touches the ports exactly three times: the
  latch command, then two reads of channel 0.
\<close>

theorem read_pit_count_correct:
  assumes "latches (device s) (io_log s) n"
  shows "\<exists>t. read_pit_count s = Inr (n, t) \<and>
    io_log t = io_log s @ [Out 0x43 0, Inp 0x40 (low_byte n), Inp 0x40 (high_byte n)] \<and>
    is_interrupts_enabled t = is_interrupts_enabled s"
proof -
  let ?t = "(irq_off s)\<lparr>io_log := io_log s @
      [Out 0x43 0, Inp 0x40 (low_byte n), Inp 0x40 (high_byte n)]\<rparr>"
  have "\<not> is_interrupts_enabled ?t"
    using irq_off_simps(1) [of s] by (simp add: is_interrupts_enabled_def flags_def)
  moreover have "read_pit_count s = Inr (n, irq_restore s ?t)"
    using assms by (rule read_pit_count_eq)
  ultimately show ?thesis
    by (simp add: irq_restore_enabled)
qed

theorem read_pit_count_correct_witness:
  "let dev = (\<lambda>log p. if log = [Out 0x43 0] then 0x34 else 0x12);
       s = \<lparr>rflags = 0x0202, io_log = [], device = dev\<rparr>
   in latches (device s) (io_log s) 0x1234 \<and>
      (\<exists>t. read_pit_count s = Inr (0x1234, t) \<and> is_interrupts_enabled t)"
proof -
  let ?dev = "\<lambda>log p. if log = [Out 0x43 0] then 0x34 else 0x12 :: u8"
  let ?s = "\<lparr>rflags = 0x0202, io_log = [], device = ?dev\<rparr>"
  have "latches (device ?s) (io_log ?s) 0x1234"
    by (simp add: latches_def low_byte_def high_byte_def)
  moreover have "is_interrupts_enabled ?s"
    by (simp add: is_interrupts_enabled_def flags_def)
  ultimately show ?thesis
    using read_pit_count_correct [of ?s "0x1234"] by (auto simp: Let_def)
qed

text \<open>
  C29: \<^verbatim>\<open>set_frequency\<close> panics on frequency 0 and otherwise programs channel 0 as a
  low-byte/high-byte rate generator with the divisor nearest to 1193182 / f: the
  product of divisor and frequency misses the dividend by at most half a
  frequency. From 19 Hz on the divisor fits the 16-bit counter, so the bytes sent
  are the divisor's.
\<close>

theorem set_frequency_nearest_divisor:
  "(f = 0 \<longrightarrow> set_frequency f s = Inl DivideByZero) \<and>
   (f \<noteq> 0 \<longrightarrow> (\<exists>d t. set_frequency f s = Inr ((), t) \<and>
      2 * \<bar>1193182 - int d * uint f\<bar> \<le> uint f \<and>
      (19 \<le> f \<longrightarrow> d < 2 ^ 16) \<and>
      io_log t = io_log s @ [Out 0x43 0x34, Out 0x40 (low_byte (of_nat d)),
        Out 0x40 (high_byte (of_nat d))] \<and>
      is_interrupts_enabled t = is_interrupts_enabled s))"
proof (intro conjI impI)
  assume "f = 0"
  then show "set_frequency f s = Inl DivideByZero"
    by (simp add: set_frequency_eq pit_divisor_def)
next
  assume f: "f \<noteq> 0"
  then obtain d where d: "pit_divisor f = Inr d"
      and n: "unat d = (if unat f div 2 < 1193182 mod unat f then 1193182 div unat f + 1
        else 1193182 div unat f)"
    using pit_divisor_nat by blast
  have near: "2 * \<bar>1193182 - int (unat d) * uint f\<bar> \<le> uint f"
    using nearest_divisor [of "unat f" 1193182] f n by (simp add: unat_gt_0)
  have fits: "19 \<le> f \<longrightarrow> unat d < 2 ^ 16"
    using divisor_fits [of "unat f"] n by (auto simp: word_le_nat_alt split: if_splits)
  obtain t where "set_frequency f s = Inr ((), t)"
      "io_log t = io_log s @ [Out 0x43 0x34, Out 0x40 (low_byte (of_nat (unat d))),
        Out 0x40 (high_byte (of_nat (unat d)))]"
      "is_interrupts_enabled t = is_interrupts_enabled s"
    using write_channel0_count_effect [of "ucast d" s] d by (auto simp: set_frequency_eq)
  with near fits show "\<exists>d t. set_frequency f s = Inr ((), t) \<and>
      2 * \<bar>1193182 - int d * uint f\<bar> \<le> uint f \<and> (19 \<le> f \<longrightarrow> d < 2 ^ 16) \<and>
      io_log t = io_log s @ [Out 0x43 0x34, Out 0x40 (low_byte (of_nat d)),
        Out 0x40 (high_byte (of_nat d))] \<and>
      is_interrupts_enabled t = is_interrupts_enabled s"
    by blast
qed

theorem set_frequency_nearest_divisor_witness:
  "let s = \<lparr>rflags = 0x0202, io_log = [], device = (\<lambda>_ _. 0)\<rparr>
   in set_frequency 0 s = Inl DivideByZero \<and>
      (\<exists>d t. set_frequency 1000 s = Inr ((), t) \<and> d < 2 ^ 16 \<and>
        2 * \<bar>1193182 - int d * 1000\<bar> \<le> 1000)"
  using set_frequency_nearest_divisor [of 0 "\<lparr>rflags = 0x0202, io_log = [], device = (\<lambda>_ _. 0)\<rparr>"]
    set_frequency_nearest_divisor
      [of 1000 "\<lparr>rflags = 0x0202, io_log = [], device = (\<lambda>_ _. 0)\<rparr>"]
  by (simp add: Let_def) blast

end
