(* ===== verification/Memory_Model.thy ===== *)
theory Memory_Model
  imports Leaf_Prelude
begin

unbundle bit_operations_syntax

text \<open>
  Byte-addressed memory with little-endian 64-bit accesses, as the kernel's raw
  pointer writes (src/src/scheduler.rs) and its push and pop instructions
  (src/src/interrupts.rs) use it. Addresses wrap at \<open>2 ^ 64\<close>.
\<close>

type_synonym mem = "u64 \<Rightarrow> u8"

definition write64 :: "u64 \<Rightarrow> u64 \<Rightarrow> mem \<Rightarrow> mem" where
  "write64 a v m =
     (\<lambda>x. if unat (x - a) < 8 then ucast (drop_bit (8 * unat (x - a)) v) else m x)"

definition read64 :: "mem \<Rightarrow> u64 \<Rightarrow> u64" where
  "read64 m a =
     ucast (m a) OR push_bit 8 (ucast (m (a + 1))) OR push_bit 16 (ucast (m (a + 2))) OR
     push_bit 24 (ucast (m (a + 3))) OR push_bit 32 (ucast (m (a + 4))) OR
     push_bit 40 (ucast (m (a + 5))) OR push_bit 48 (ucast (m (a + 6))) OR
     push_bit 56 (ucast (m (a + 7)))"

definition zero_fill :: "u64 \<Rightarrow> nat \<Rightarrow> mem \<Rightarrow> mem" where
  "zero_fill a n m = (\<lambda>x. if unat (x - a) < n then 0 else m x)"

definition push :: "u64 \<Rightarrow> mem \<times> u64 \<Rightarrow> mem \<times> u64" where
  "push v ms = (case ms of (m, sp) \<Rightarrow> (write64 (sp - 8) v m, sp - 8))"

definition pop :: "mem \<times> u64 \<Rightarrow> u64 \<times> mem \<times> u64" where
  "pop ms = (case ms of (m, sp) \<Rightarrow> (read64 m sp, m, sp + 8))"

section \<open>Reading what was written\<close>

lemma join_bytes:
  "ucast (ucast v :: u8) OR push_bit 8 (ucast (ucast (drop_bit 8 v) :: u8)) OR
   push_bit 16 (ucast (ucast (drop_bit 16 v) :: u8)) OR
   push_bit 24 (ucast (ucast (drop_bit 24 v) :: u8)) OR
   push_bit 32 (ucast (ucast (drop_bit 32 v) :: u8)) OR
   push_bit 40 (ucast (ucast (drop_bit 40 v) :: u8)) OR
   push_bit 48 (ucast (ucast (drop_bit 48 v) :: u8)) OR
   push_bit 56 (ucast (ucast (drop_bit 56 v) :: u8)) = (v :: u64)" (is "?l = v")
proof (rule bit_word_eqI)
  fix n
  assume "n < LENGTH(64)"
  then consider "n < 8" | "8 \<le> n" "n < 16" | "16 \<le> n" "n < 24" | "24 \<le> n" "n < 32"
    | "32 \<le> n" "n < 40" | "40 \<le> n" "n < 48" | "48 \<le> n" "n < 56" | "56 \<le> n" "n < 64"
    by simp linarith
  then show "bit ?l n \<longleftrightarrow> bit v n"
    by cases (simp_all add: bit_simps less_diff_conv2)
qed

lemma read64_write64 [simp]: "read64 (write64 a v m) a = v"
  unfolding read64_def write64_def by (simp add: join_bytes)

lemma read64_cong:
  assumes "\<And>i. i < 8 \<Longrightarrow> m (a + of_nat i) = m' (a + of_nat i)"
  shows "read64 m a = read64 m' a"
proof -
  have "m a = m' a" using assms [of 0] by simp
  moreover have "m (a + numeral k) = m' (a + numeral k)" if "numeral k < (8 :: nat)" for k
    using assms [OF that] by simp
  moreover have "m (a + 1) = m' (a + 1)" using assms [of 1] by simp
  ultimately show ?thesis by (simp add: read64_def)
qed

text \<open>Two 8-byte cells are apart when their distance, either way round, is at least 8.\<close>

definition apart :: "u64 \<Rightarrow> u64 \<Rightarrow> bool" where
  "apart a b \<longleftrightarrow> 8 \<le> unat (b - a) \<and> 8 \<le> unat (a - b)"

lemma apart_offset:
  assumes "apart a b" "i < 8"
  shows "8 \<le> unat (b + of_nat i - a)"
proof -
  let ?d = "b - a"
  have "?d \<noteq> 0" and "a - b = - ?d"
    using assms by (auto simp: apart_def)
  then have "unat ?d \<le> 2 ^ 64 - 8"
    using assms(1) unat_uminus [of ?d] unfolding apart_def by auto
  moreover have "b + of_nat i - a = ?d + of_nat i" by simp
  ultimately show ?thesis
    using assms by (simp only: unat_word_ariths) (simp add: unat_of_nat apart_def)
qed

lemma read64_write64_apart: "apart a b \<Longrightarrow> read64 (write64 a v m) b = read64 m b"
  by (rule read64_cong) (use apart_offset in \<open>fastforce simp: write64_def\<close>)

section \<open>Slots of a downward stack\<close>

text \<open>
  The cell \<open>k\<close> words below \<open>a\<close>, and a sequence of stores into such cells: a store
  into one slot leaves every other slot alone, so a slot holds what was stored in
  it last.
\<close>

definition slot :: "u64 \<Rightarrow> nat \<Rightarrow> u64" where
  "slot a k = a - 8 * of_nat k"

definition store_slots :: "u64 \<Rightarrow> (nat \<times> u64) list \<Rightarrow> mem \<Rightarrow> mem" where
  "store_slots a ws = fold (\<lambda>(k, v). write64 (slot a k) v) ws"

lemma slot_apart:
  assumes "j < 2 ^ 32" "k < 2 ^ 32" "j \<noteq> k"
  shows "apart (slot a j) (slot a k)"
proof -
  have far: "unat (8 * of_nat n :: u64) = 8 * n" if "n < 2 ^ 32" for n
    using that by (simp add: unat_word_ariths unat_of_nat)
  have less: "8 \<le> unat (slot a i - slot a l) \<and> 8 \<le> unat (slot a l - slot a i)"
    if "i < l" "l < 2 ^ 32" for i l
  proof -
    have d: "slot a i - slot a l = 8 * of_nat (l - i)"
      using that by (simp add: slot_def of_nat_diff algebra_simps)
    then have up: "unat (slot a i - slot a l) = 8 * (l - i)"
      using that far [of "l - i"] by simp
    moreover have "slot a l - slot a i = - (slot a i - slot a l)" by simp
    moreover have "slot a i - slot a l \<noteq> 0"
      using up that by auto
    ultimately show ?thesis
      using that unat_uminus [of "slot a i - slot a l"] by auto
  qed
  show ?thesis
    using less [of j k] less [of k j] assms by (auto simp: apart_def nat_neq_iff)
qed

lemma read_store_slots:
  assumes "distinct (map fst ws)" "\<forall>k \<in> fst ` set ws. k < 2 ^ 32" "j < 2 ^ 32"
  shows "read64 (store_slots a ws m) (slot a j) =
    (case map_of ws j of Some v \<Rightarrow> v | None \<Rightarrow> read64 m (slot a j))"
  using assms
proof (induction ws arbitrary: m)
  case Nil
  then show ?case by (simp add: store_slots_def)
next
  case (Cons w ws)
  obtain k v where w: "w = (k, v)" by (cases w)
  have "read64 (store_slots a (w # ws) m) (slot a j) =
      (case map_of ws j of Some v \<Rightarrow> v | None \<Rightarrow> read64 (write64 (slot a k) v m) (slot a j))"
    using Cons w by (simp add: store_slots_def)
  moreover have "map_of ws k = None"
    using Cons.prems w by (simp add: map_of_eq_None_iff)
  ultimately show ?case
    using w Cons.prems slot_apart [of k j a]
    by (cases "j = k") (auto simp: read64_write64_apart split: option.splits)
qed

text \<open>Bytes outside every stored slot keep their value.\<close>

lemma store_slots_frame:
  "\<forall>k \<in> fst ` set ws. 8 \<le> unat (x - slot a k) \<Longrightarrow> store_slots a ws m x = m x"
  by (induction ws arbitrary: m) (auto simp: store_slots_def write64_def)

text \<open>Pushing a list of values is storing them into consecutive slots.\<close>

lemma fold_push:
  "fold push vs (m, slot a n) =
     (store_slots a (zip [Suc n..<Suc n + length vs] vs) m, slot a (n + length vs))"
proof (induction vs arbitrary: m n)
  case Nil
  then show ?case by (simp add: store_slots_def)
next
  case (Cons v vs)
  have "slot a n - 8 = slot a (Suc n)"
    by (simp add: slot_def algebra_simps)
  moreover have "[Suc n..<Suc n + length (v # vs)] = Suc n # [Suc (Suc n)..<Suc (Suc n) + length vs]"
    by (simp add: upt_conv_Cons del: upt_Suc)
  ultimately show ?case
    using Cons [of "write64 (slot a (Suc n)) v m" "Suc n"]
    by (simp add: push_def store_slots_def del: upt_Suc)
qed

lemma slot_up: "slot a (Suc k) + 8 = slot a k"
  by (simp add: slot_def algebra_simps)

lemma slot_0 [simp]: "slot a 0 = a"
  by (simp add: slot_def)

lemma pop_slot: "pop (m, slot a (Suc k)) = (read64 m (slot a (Suc k)), m, slot a k)"
  by (simp add: pop_def slot_up)

end
