(* ===== verification/Gdt.thy ===== *)
theory Gdt
  imports Memory_Model
begin

unbundle bit_operations_syntax

text \<open>
  The segment table and task state segment of src/src/gdt.rs. The table itself is
  the \<^verbatim>\<open>x86_64\<close> crate's: \<open>add_entry\<close> is a parameter, and \<open>sequential_entries\<close> is
  the documented behaviour the constants of gdt.rs rely on. \<^verbatim>\<open>tss_ptr\<close> copies the
  static before taking an address, so what it returns does not alias \<^verbatim>\<open>TSS\<close>.
\<close>

section \<open>Constants\<close>

definition DOUBLE_FAULT_IST_INDEX :: nat where "DOUBLE_FAULT_IST_INDEX = 0"
definition KERNEL_STACK_INDEX :: nat where "KERNEL_STACK_INDEX = 0"
definition KERNEL_CODE_SEGMENT_IDX :: usize where "KERNEL_CODE_SEGMENT_IDX = 1"
definition KERNEL_DATA_SEGMENT_IDX :: usize where "KERNEL_DATA_SEGMENT_IDX = 0"
definition USER_CODE_SEGMENT_IDX :: usize where "USER_CODE_SEGMENT_IDX = 2"
definition USER_DATA_SEGMENT_IDX :: usize where "USER_DATA_SEGMENT_IDX = 3"

section \<open>The descriptor table\<close>

datatype descriptor = KernelCodeSegment | UserCodeSegment | UserDataSegment | TssSegment

record selectors =
  kernel_code_selector :: u16
  user_code_selector :: u16
  user_data_selector :: u16
  tss_selector :: u16

definition gdt_build :: "(descriptor \<Rightarrow> 'g \<Rightarrow> u16 \<times> 'g) \<Rightarrow> 'g \<Rightarrow> 'g \<times> selectors" where
  "gdt_build add_entry gdt =
     (let (kernel_code, gdt) = add_entry KernelCodeSegment gdt;
          (user_code, gdt) = add_entry UserCodeSegment gdt;
          (user_data, gdt) = add_entry UserDataSegment gdt;
          (tss, gdt) = add_entry TssSegment gdt
      in (gdt, \<lparr>kernel_code_selector = kernel_code, user_code_selector = user_code,
                user_data_selector = user_data, tss_selector = tss\<rparr>))"

text \<open>
  The descriptor a selector names in the loaded table: its entries are in the order in
  which they were added, behind the null descriptor. There is no local table.
\<close>

definition gdt_entry :: "u16 \<Rightarrow> descriptor option" where
  "gdt_entry sel =
     (if sel AND 4 \<noteq> 0 then None
      else map_of [(1, KernelCodeSegment), (2, UserCodeSegment), (3, UserDataSegment), (4, TssSegment)]
             (drop_bit 3 sel))"

section \<open>The task state segment\<close>

record tss =
  privilege_stack_table :: "u64 list"
  interrupt_stack_table :: "u64 list"

text \<open>Loaded segment state: the code segment register and the task register.\<close>

record gdt_state =
  TSS :: tss
  loaded_cs :: "u16 option"
  loaded_tr :: "u16 option"

definition STACK_SIZE :: u64 where "STACK_SIZE = 4096"

definition gdt_init :: "u64 \<Rightarrow> u64 \<Rightarrow> selectors \<Rightarrow> gdt_state \<Rightarrow> gdt_state" where
  "gdt_init ist_stack priv_stack sel s =
     s\<lparr>TSS := (TSS s)
         \<lparr>interrupt_stack_table :=
            (interrupt_stack_table (TSS s))[DOUBLE_FAULT_IST_INDEX := ist_stack + STACK_SIZE],
          privilege_stack_table :=
            (privilege_stack_table (TSS s))[KERNEL_STACK_INDEX := priv_stack + STACK_SIZE]\<rparr>,
       loaded_cs := Some (kernel_code_selector sel),
       loaded_tr := Some (tss_selector sel)\<rparr>"

text \<open>
  \<^verbatim>\<open>tss_ptr\<close> returns the address of a local copy: a store through the pointer
  reaches the copy and leaves the static as it is.
\<close>

datatype tss_location = TssStatic | TssLocalCopy tss

definition tss_ptr :: "gdt_state \<Rightarrow> tss_location" where
  "tss_ptr s = TssLocalCopy (TSS s)"

definition store_rsp0 :: "tss_location \<Rightarrow> u64 \<Rightarrow> gdt_state \<Rightarrow> gdt_state" where
  "store_rsp0 loc v s =
     (case loc of
        TssLocalCopy _ \<Rightarrow> s
      | TssStatic \<Rightarrow>
          s\<lparr>TSS := (TSS s)\<lparr>privilege_stack_table := (privilege_stack_table (TSS s))[0 := v]\<rparr>\<rparr>)"

section \<open>Selectors\<close>

text \<open>
  Documented behaviour of \<^verbatim>\<open>GlobalDescriptorTable::add_entry\<close>: entries are numbered
  consecutively (a system segment takes two), and the selector is the index times
  eight with the requested privilege level in its low bits.
\<close>

primrec descriptor_rpl :: "descriptor \<Rightarrow> u16" where
  "descriptor_rpl KernelCodeSegment = 0"
| "descriptor_rpl UserCodeSegment = 3"
| "descriptor_rpl UserDataSegment = 3"
| "descriptor_rpl TssSegment = 0"

definition sequential_entries ::
    "(descriptor \<Rightarrow> 'g \<Rightarrow> u16 \<times> 'g) \<Rightarrow> ('g \<Rightarrow> nat) \<Rightarrow> bool" where
  "sequential_entries add_entry next_free \<longleftrightarrow>
     (\<forall>d g. fst (add_entry d g) = of_nat (8 * next_free g) OR descriptor_rpl d \<and>
            next_free (snd (add_entry d g)) = next_free g + (if d = TssSegment then 2 else 1))"

end
