(* ===== verification/Process_State.thy ===== *)
theory Process_State
  imports Gdt
begin

unbundle bit_operations_syntax

text \<open>
  Processes (src/src/process.rs) and the construction of a new task's stack image,
  \<^verbatim>\<open>ProcessState::new\<close> of src/src/scheduler.rs. The two stacks are boxed byte
  slices; their base addresses are what the global allocator returned.
\<close>

section \<open>Processes\<close>

datatype pstate = Waiting | Runnable | Running | ShuttingDown

record process =
  pid :: u64
  p_state :: pstate

definition process_new :: "u64 \<Rightarrow> pstate \<Rightarrow> process" where
  "process_new i st = \<lparr>pid = i, p_state = st\<rparr>"

section \<open>Process states\<close>

text \<open>A boxed slice: base address and length in bytes.\<close>

record boxed =
  box_base :: u64
  box_len :: u64

record process_state =
  kernel_rsp :: u64
  kernel_top_rsp :: u64
  kernel_stack :: boxed
  user_stack :: boxed

definition DEFAULT_FLAGS :: u64 where
  "DEFAULT_FLAGS = 0 OR push_bit 1 1 OR push_bit 9 1"

definition code_selector :: "bool \<Rightarrow> u64" where
  "code_selector is_kernel =
     (if is_kernel then KERNEL_CODE_SEGMENT_IDX * 8 else USER_CODE_SEGMENT_IDX * 8) OR
     (if is_kernel then 0 else 3)"

definition INTERRUPT_FRAME_OFFSET :: nat where "INTERRUPT_FRAME_OFFSET = 4"

text \<open>
  The stores of \<^verbatim>\<open>ProcessState::new\<close> in source order: \<open>(k, v)\<close> is
  \<^verbatim>\<open>kernel_stack.offset(-k).write(v)\<close>.
\<close>

definition initial_frame :: "u64 \<Rightarrow> u64 \<Rightarrow> bool \<Rightarrow> u64 \<Rightarrow> (nat \<times> u64) list" where
  "initial_frame kernel_addr user_addr is_kernel start_fn =
     [(0, if is_kernel then kernel_addr else user_addr),
      (1, DEFAULT_FLAGS),
      (2, code_selector is_kernel),
      (3, start_fn),
      (INTERRUPT_FRAME_OFFSET + 0, 0),
      (INTERRUPT_FRAME_OFFSET + 1, 0),
      (INTERRUPT_FRAME_OFFSET + 2, 0),
      (INTERRUPT_FRAME_OFFSET + 3, 0),
      (INTERRUPT_FRAME_OFFSET + 4, 0),
      (INTERRUPT_FRAME_OFFSET + 5, 0),
      (INTERRUPT_FRAME_OFFSET + 6, 0),
      (INTERRUPT_FRAME_OFFSET + 7, 0),
      (INTERRUPT_FRAME_OFFSET + 8, 0),
      (INTERRUPT_FRAME_OFFSET + 9, 0),
      (INTERRUPT_FRAME_OFFSET + 10, 0),
      (INTERRUPT_FRAME_OFFSET + 11, 0),
      (INTERRUPT_FRAME_OFFSET + 12, 0),
      (INTERRUPT_FRAME_OFFSET + 13, 0),
      (INTERRUPT_FRAME_OFFSET + 14, kernel_addr)]"

definition process_state_new ::
    "boxed \<Rightarrow> boxed \<Rightarrow> bool \<Rightarrow> u64 \<Rightarrow> mem \<Rightarrow> process_state \<times> mem" where
  "process_state_new kstack ustack is_kernel start_fn m =
     (let kernel_addr = box_base kstack + box_len kstack;
          m = store_slots kernel_addr (initial_frame kernel_addr (box_base ustack) is_kernel start_fn) m
      in (\<lparr>kernel_rsp = kernel_addr - 8 * (14 + of_nat INTERRUPT_FRAME_OFFSET),
           kernel_top_rsp = kernel_addr + box_len kstack,
           kernel_stack = kstack,
           user_stack = ustack\<rparr>, m))"

text \<open>\<^verbatim>\<open>Box::new([0; n])\<close> at the address the allocator returned.\<close>

definition box_zeroed :: "u64 \<Rightarrow> nat \<Rightarrow> mem \<Rightarrow> boxed \<times> mem" where
  "box_zeroed addr n m = (\<lparr>box_base = addr, box_len = of_nat n\<rparr>, zero_fill addr n m)"

section \<open>The stack image\<close>

lemma initial_frame_slots:
  "map fst (initial_frame a u k f) = [0..<19]"
  by (simp add: initial_frame_def INTERRUPT_FRAME_OFFSET_def upt_rec)

lemma initial_frame_keys:
  "distinct (map fst (initial_frame a u k f))"
  "fst ` set (initial_frame a u k f) = {0..<19}"
  by (simp_all only: initial_frame_slots set_map [symmetric]) simp_all

lemma process_state_new_simps:
  assumes "process_state_new ks us k f m = (st, m')"
  shows "kernel_rsp st = slot (box_base ks + box_len ks) 18"
    and "kernel_top_rsp st = box_base ks + box_len ks + box_len ks"
    and "kernel_stack st = ks" and "user_stack st = us"
    and "m' = store_slots (box_base ks + box_len ks)
      (initial_frame (box_base ks + box_len ks) (box_base us) k f) m"
  using assms
  by (auto simp: process_state_new_def Let_def slot_def INTERRUPT_FRAME_OFFSET_def)

lemma read_initial_frame:
  assumes "process_state_new ks us k f m = (st, m')" "j < 2 ^ 32"
  shows "read64 m' (slot (box_base ks + box_len ks) j) =
    (case map_of (initial_frame (box_base ks + box_len ks) (box_base us) k f) j of
       Some v \<Rightarrow> v | None \<Rightarrow> read64 m (slot (box_base ks + box_len ks) j))"
  using assms initial_frame_keys
  by (simp add: process_state_new_simps [OF assms(1)] read_store_slots)

section \<open>Selectors\<close>

text \<open>
  The segment indices of gdt.rs agree with the table that is built: if the
  descriptor table hands out consecutive entries starting at index 1, the kernel
  and user code selectors are exactly those \<^verbatim>\<open>ProcessState::new\<close> stores into the
  frames of kernel and user tasks, the user data selector is the one of
  \<^verbatim>\<open>USER_DATA_SEGMENT_IDX\<close> with privilege level 3, and the task state segment follows.
\<close>

lemma selectors_match_gdt:
  assumes "sequential_entries add_entry next_free" "next_free g = 1"
    and "gdt_build add_entry g = (g', sel)"
  shows "ucast (kernel_code_selector sel) = code_selector True \<and>
    ucast (user_code_selector sel) = code_selector False \<and>
    ucast (user_data_selector sel) = USER_DATA_SEGMENT_IDX * 8 OR 3 \<and>
    tss_selector sel = 4 * 8 \<and> next_free g' = 6"
proof -
  obtain a g1 where 1: "add_entry KernelCodeSegment g = (a, g1)" by fastforce
  obtain b g2 where 2: "add_entry UserCodeSegment g1 = (b, g2)" by fastforce
  obtain c g3 where 3: "add_entry UserDataSegment g2 = (c, g3)" by fastforce
  obtain d g4 where 4: "add_entry TssSegment g3 = (d, g4)" by fastforce
  have step: "fst (add_entry e h) = of_nat (8 * next_free h) OR descriptor_rpl e \<and>
      next_free (snd (add_entry e h)) = next_free h + (if e = TssSegment then 2 else 1)" for e h
    using assms(1) unfolding sequential_entries_def by blast
  have "next_free g1 = 2" "next_free g2 = 3" "next_free g3 = 4" "next_free g4 = 6"
    using step [of KernelCodeSegment g] step [of UserCodeSegment g1] step [of UserDataSegment g2]
      step [of TssSegment g3] 1 2 3 4 assms(2) by simp_all
  then have "a = 8" "b = 0x13" "c = 0x1B" "d = 0x20" "next_free g4 = 6"
    using step [of KernelCodeSegment g] step [of UserCodeSegment g1] step [of UserDataSegment g2]
      step [of TssSegment g3] 1 2 3 4 assms(2) by simp_all
  moreover have "g' = g4" "kernel_code_selector sel = a" "user_code_selector sel = b"
      "user_data_selector sel = c" "tss_selector sel = d"
    using assms(3) 1 2 3 4 by (auto simp: gdt_build_def)
  ultimately show ?thesis
    by (simp add: code_selector_def KERNEL_CODE_SEGMENT_IDX_def USER_CODE_SEGMENT_IDX_def
        USER_DATA_SEGMENT_IDX_def)
qed

end
