(* ===== verification/Scheduler.thy ===== *)
theory Scheduler
  imports Process_State "HOL-Library.Multiset"
begin

text \<open>
  The scheduler of src/src/scheduler.rs: the \<^verbatim>\<open>Scheduler\<close> trait as a locale, the
  round-robin implementation that is its provider, and the statics and functions
  the timer interrupt calls. A task is a process and the address of its boxed
  \<^verbatim>\<open>ProcessState\<close>; the boxes are an explicit store, since the interrupt handler
  writes through the raw pointers these functions return.
\<close>

section \<open>The round-robin scheduler\<close>

type_synonym task = "process \<times> u64"

record round_robin =
  tasks :: "task list"
  task_id :: u64

definition round_robin_new :: round_robin where
  "round_robin_new = \<lparr>tasks = [], task_id = 0\<rparr>"

text \<open>\<^verbatim>\<open>Vec::pop\<close>: the last element, if there is one.\<close>

definition pick_next :: "round_robin \<Rightarrow> task option \<times> round_robin" where
  "pick_next r =
     (if tasks r = [] then (None, r)
      else (Some (last (tasks r)), r\<lparr>tasks := butlast (tasks r)\<rparr>))"

text \<open>\<^verbatim>\<open>Vec::insert(0, task)\<close>.\<close>

definition reinsert_task :: "task \<Rightarrow> round_robin \<Rightarrow> round_robin" where
  "reinsert_task t r = r\<lparr>tasks := t # tasks r\<rparr>"

section \<open>The kernel's scheduling state\<close>

record sched =
  scheduler :: round_robin
  current :: "task option"
  idle_task :: "task option"
  void_task :: "u64 option"
  initialized :: bool
  boxes :: "u64 \<rightharpoonup> process_state"
  smem :: mem

text \<open>Addresses the global allocator returns for one new task: two stacks and the box.\<close>

record allocation =
  alloc_kernel :: u64
  alloc_user :: u64
  alloc_box :: u64

text \<open>
  \<^verbatim>\<open>Box::new(ProcessState::new(Box::new([0; kn]), Box::new([0; un]), ..))\<close>: both
  stacks zeroed, the initial frame stored, the state boxed.
\<close>

definition boxed_state ::
    "allocation \<Rightarrow> nat \<Rightarrow> nat \<Rightarrow> bool \<Rightarrow> u64 \<Rightarrow> sched \<Rightarrow> sched" where
  "boxed_state al kn un is_kernel start_fn s =
     (let (ks, m) = box_zeroed (alloc_kernel al) kn (smem s);
          (us, m) = box_zeroed (alloc_user al) un m;
          (st, m) = process_state_new ks us is_kernel start_fn m
      in s\<lparr>smem := m, boxes := (boxes s)(alloc_box al \<mapsto> st)\<rparr>)"

definition start_process :: "allocation \<Rightarrow> u64 \<Rightarrow> bool \<Rightarrow> sched \<Rightarrow> u64 \<times> sched" where
  "start_process al target_fn kernel_owned s =
     (let new_id = task_id (scheduler s) + 1;
          s = boxed_state al 4096 4096 kernel_owned target_fn s;
          t = (process_new new_id Runnable, alloc_box al)
      in (new_id,
          s\<lparr>scheduler := (scheduler s)\<lparr>task_id := new_id, tasks := tasks (scheduler s) @ [t]\<rparr>\<rparr>))"

definition start_proc :: "allocation \<Rightarrow> u64 \<Rightarrow> bool \<Rightarrow> sched \<Rightarrow> sched" where
  "start_proc al target kernel_owned s = snd (start_process al target kernel_owned s)"

text \<open>\<^verbatim>\<open>IDLE_TASK.call_once\<close>: the idle task is built on first use only.\<close>

definition get_idle_task :: "allocation \<Rightarrow> u64 \<Rightarrow> sched \<Rightarrow> task \<times> sched" where
  "get_idle_task al idle_fn s =
     (case idle_task s of
        Some t \<Rightarrow> (t, s)
      | None \<Rightarrow>
          (let s = boxed_state al 4096 4096 True idle_fn s;
               t = (process_new 0 Runnable, alloc_box al)
           in (t, s\<lparr>idle_task := Some t\<rparr>)))"

definition scheduler_init :: "allocation \<Rightarrow> u64 \<Rightarrow> sched \<Rightarrow> sched" where
  "scheduler_init al idle_fn s =
     (let s = boxed_state al 256 0 True idle_fn s in s\<lparr>void_task := Some (alloc_box al)\<rparr>)"

definition replace_curr_task :: "task option \<Rightarrow> sched \<Rightarrow> sched" where
  "replace_curr_task t s =
     (case current s of
        Some old_task \<Rightarrow> s\<lparr>scheduler := reinsert_task old_task (scheduler s), current := t\<rparr>
      | None \<Rightarrow> s\<lparr>current := t\<rparr>)"

definition select_next_task :: "allocation \<Rightarrow> u64 \<Rightarrow> sched \<Rightarrow> u64 \<times> sched" where
  "select_next_task al idle_fn s =
     (let (next_task, r) = pick_next (scheduler s);
          s = s\<lparr>scheduler := r\<rparr>
      in case next_task of
           None \<Rightarrow>
             (let s = replace_curr_task None s;
                  (t, s) = get_idle_task al idle_fn s
              in (snd t, s))
         | Some t \<Rightarrow> (snd t, replace_curr_task (Some t) s))"

definition current_task_ptr :: "allocation \<Rightarrow> u64 \<Rightarrow> sched \<Rightarrow> (u64 \<times> sched) res" where
  "current_task_ptr al idle_fn s =
     (case current s of
        Some t \<Rightarrow> Inr (snd t, s)
      | None \<Rightarrow>
          if \<not> initialized s
          then (let s = s\<lparr>initialized := True\<rparr>
                in case void_task s of None \<Rightarrow> Inl UnwrapNone | Some p \<Rightarrow> Inr (p, s))
          else (let (t, s) = get_idle_task al idle_fn s in Inr (snd t, s)))"

section \<open>The scheduler interface\<close>

text \<open>
  What the timer interrupt needs of the \<^verbatim>\<open>Scheduler\<close> trait: a queue from which
  \<^verbatim>\<open>pick_next\<close> takes the head and at whose end \<^verbatim>\<open>reinsert_task\<close> adds. The client
  lemmas describe a switch, picking before the interrupted task is put back, as
  \<^verbatim>\<open>select_next_task\<close> does: it rotates the ring of the running task and the queue.
\<close>

locale fifo_scheduler =
  fixes pick :: "'s \<Rightarrow> 't option \<times> 's"
    and reinsert :: "'t \<Rightarrow> 's \<Rightarrow> 's"
    and queue :: "'s \<Rightarrow> 't list"
  assumes pick_empty: "queue s = [] \<Longrightarrow> pick s = (None, s)"
    and pick_head: "queue s = t # q \<Longrightarrow> \<exists>s'. pick s = (Some t, s') \<and> queue s' = q"
    and queue_reinsert: "queue (reinsert t s) = queue s @ [t]"
begin

definition switch :: "'t option \<times> 's \<Rightarrow> 't option \<times> 's" where
  "switch cs =
     (case pick (snd cs) of (nxt, s) \<Rightarrow>
        (nxt, case fst cs of None \<Rightarrow> s | Some c \<Rightarrow> reinsert c s))"

definition ring :: "'t option \<times> 's \<Rightarrow> 't list" where
  "ring cs = (case fst cs of None \<Rightarrow> [] | Some c \<Rightarrow> [c]) @ queue (snd cs)"

lemma switch_empty:
  "queue s = [] \<Longrightarrow> switch (None, s) = (None, s)"
  "queue s = [] \<Longrightarrow> switch (Some c, s) = (None, reinsert c s)"
  by (simp_all add: switch_def pick_empty)

lemma switch_head:
  assumes "queue s = t # q"
  shows "\<exists>s'. switch (cur, s) = (Some t, s') \<and>
    queue s' = q @ (case cur of None \<Rightarrow> [] | Some c \<Rightarrow> [c])"
  using pick_head [OF assms] by (auto simp: switch_def queue_reinsert split: option.splits)

lemma switch_rotates:
  assumes "queue s \<noteq> []"
  shows "\<exists>t s'. switch (Some c, s) = (Some t, s') \<and> queue s' \<noteq> [] \<and>
    ring (Some t, s') = rotate1 (ring (Some c, s))"
proof -
  obtain t q where "queue s = t # q"
    using assms by (cases "queue s") auto
  then show ?thesis
    using switch_head [of s t q "Some c"] by (auto simp: ring_def)
qed

lemma switch_pow_rotates:
  assumes "queue s \<noteq> []"
  shows "\<exists>t s'. (switch ^^ n) (Some c, s) = (Some t, s') \<and> queue s' \<noteq> [] \<and>
    ring (Some t, s') = rotate n (ring (Some c, s))"
proof (induction n)
  case 0
  then show ?case using assms by simp
next
  case (Suc n)
  then obtain t s' where "(switch ^^ n) (Some c, s) = (Some t, s')" "queue s' \<noteq> []"
      "ring (Some t, s') = rotate n (ring (Some c, s))" by blast
  then show ?case
    using switch_rotates [of s' t] by (auto simp: rotate_Suc)
qed

lemma running_after:
  assumes "queue s \<noteq> []"
  shows "fst ((switch ^^ n) (Some c, s)) = Some ((c # queue s) ! (n mod Suc (length (queue s))))"
proof -
  obtain t s' where "(switch ^^ n) (Some c, s) = (Some t, s')"
      "ring (Some t, s') = rotate n (ring (Some c, s))"
    using switch_pow_rotates [OF assms] by blast
  then show ?thesis
    using hd_rotate_conv_nth [of "c # queue s" n] by (auto simp: ring_def dest: arg_cong [where f = hd])
qed

lemma ring_mset: "mset (ring (switch cs)) = mset (ring cs)"
proof (cases "queue (snd cs)")
  case Nil
  then show ?thesis
    by (cases cs; cases "fst cs") (auto simp: switch_empty ring_def queue_reinsert)
next
  case (Cons t q)
  then show ?thesis
    using switch_head [of "snd cs" t q "fst cs"]
    by (cases cs) (auto simp: ring_def split: option.splits)
qed

end

interpretation rr: fifo_scheduler pick_next reinsert_task "\<lambda>r. rev (tasks r)"
proof unfold_locales
  show "pick_next r = (None, r)" if "rev (tasks r) = []" for r
    using that by (simp add: pick_next_def)
  show "\<exists>r'. pick_next r = (Some t, r') \<and> rev (tasks r') = q" if "rev (tasks r) = t # q" for r t q
    using that by (simp add: pick_next_def rev_eq_Cons_iff)
  show "rev (tasks (reinsert_task t r)) = rev (tasks r) @ [t]" for t r
    by (simp add: reinsert_task_def)
qed

section \<open>Lemmas on the scheduling state\<close>

lemma boxed_state_simps [simp]:
  "scheduler (boxed_state al kn un k f s) = scheduler s"
  "current (boxed_state al kn un k f s) = current s"
  "idle_task (boxed_state al kn un k f s) = idle_task s"
  "void_task (boxed_state al kn un k f s) = void_task s"
  "initialized (boxed_state al kn un k f s) = initialized s"
  "dom (boxes (boxed_state al kn un k f s)) = insert (alloc_box al) (dom (boxes s))"
  by (auto simp: boxed_state_def Let_def split: prod.splits)

lemma get_idle_task_simps:
  assumes "get_idle_task al f s = (t, s')"
  shows "scheduler s' = scheduler s" "current s' = current s" "void_task s' = void_task s"
    "initialized s' = initialized s" "idle_task s' = Some t"
    "idle_task s = None \<Longrightarrow> t = (process_new 0 Runnable, alloc_box al)"
    "idle_task s = Some u \<Longrightarrow> t = u \<and> s' = s"
    "dom (boxes s') = (if idle_task s = None then insert (alloc_box al) (dom (boxes s)) else dom (boxes s))"
  using assms by (cases "idle_task s"; clarsimp simp: get_idle_task_def Let_def)+

lemma select_next_switch:
  "(current (snd (select_next_task al f s)), scheduler (snd (select_next_task al f s))) =
   rr.switch (current s, scheduler s)"
  by (auto simp: select_next_task_def rr.switch_def replace_curr_task_def Let_def
      get_idle_task_simps split: prod.splits option.splits)

lemma select_next_pow_switch:
  "(current (((\<lambda>s. snd (select_next_task al f s)) ^^ n) s),
    scheduler (((\<lambda>s. snd (select_next_task al f s)) ^^ n) s)) =
   (rr.switch ^^ n) (current s, scheduler s)"
  by (induction n) (simp_all add: select_next_switch)

end
