(* ===== verification/Sched_Invariant.thy ===== *)
theory Sched_Invariant
  imports Scheduler
begin

text \<open>
  The scheduling state machine and its properties: every state the kernel can
  reach by booting, starting processes, and the two calls the timer interrupt
  makes satisfies an invariant on task identifiers and on the boxed states the
  raw pointers refer to; switching is fair; and the pointer a context is saved
  through is the one it was loaded from.
\<close>

section \<open>States and steps\<close>

definition opt_list :: "'a option \<Rightarrow> 'a list" where
  "opt_list x = (case x of None \<Rightarrow> [] | Some y \<Rightarrow> [y])"

lemma opt_list_simps [simp]: "opt_list None = []" "opt_list (Some y) = [y]"
  by (simp_all add: opt_list_def)

text \<open>The statics of scheduler.rs before \<^verbatim>\<open>init\<close> runs.\<close>

definition sched_boot :: "mem \<Rightarrow> sched" where
  "sched_boot m =
     \<lparr>scheduler = round_robin_new, current = None, idle_task = None, void_task = None,
      initialized = False, boxes = Map.empty, smem = m\<rparr>"

text \<open>\<^verbatim>\<open>mov [rax], rsp\<close> of the timer handler: the first field of the pointed-to state.\<close>

definition store_kernel_rsp :: "u64 \<Rightarrow> u64 \<Rightarrow> sched \<Rightarrow> sched" where
  "store_kernel_rsp p v s =
     s\<lparr>boxes := (boxes s)(p := map_option (\<lambda>st. st\<lparr>kernel_rsp := v\<rparr>) (boxes s p))\<rparr>"

text \<open>
  Reachable scheduling states: between the calls, running code may write memory,
  but not the boxed states. The allocator hands out addresses of boxes that
  are not in use, and fewer than \<open>2 ^ 64\<close> processes are ever started.
\<close>

inductive reachable :: "u64 \<Rightarrow> sched \<Rightarrow> bool" for idle_fn where
  boot: "reachable idle_fn (scheduler_init al idle_fn (sched_boot m))"
| start: "reachable idle_fn s \<Longrightarrow> alloc_box al \<notin> dom (boxes s) \<Longrightarrow>
    task_id (scheduler s) + 1 \<noteq> 0 \<Longrightarrow> reachable idle_fn (start_proc al target k s)"
| save: "reachable idle_fn s \<Longrightarrow> alloc_box al \<notin> dom (boxes s) \<Longrightarrow>
    current_task_ptr al idle_fn s = Inr (p, s') \<Longrightarrow> reachable idle_fn (store_kernel_rsp p v s')"
| select: "reachable idle_fn s \<Longrightarrow> alloc_box al \<notin> dom (boxes s) \<Longrightarrow>
    select_next_task al idle_fn s = (p, s') \<Longrightarrow> reachable idle_fn s'"
| run: "reachable idle_fn s \<Longrightarrow> reachable idle_fn (s\<lparr>smem := m\<rparr>)"

section \<open>The invariant\<close>

definition all_tasks :: "sched \<Rightarrow> task list" where
  "all_tasks s = opt_list (current s) @ rev (tasks (scheduler s))"

definition box_addrs :: "sched \<Rightarrow> u64 list" where
  "box_addrs s = map snd (all_tasks s) @ map snd (opt_list (idle_task s)) @ opt_list (void_task s)"

definition ids_ok :: "sched \<Rightarrow> bool" where
  "ids_ok s \<longleftrightarrow>
     distinct (map (pid \<circ> fst) (all_tasks s)) \<and>
     (\<forall>t \<in> set (all_tasks s). 0 < pid (fst t) \<and> pid (fst t) \<le> task_id (scheduler s)) \<and>
     (\<forall>t \<in> set (opt_list (idle_task s)). pid (fst t) = 0)"

definition boxes_ok :: "sched \<Rightarrow> bool" where
  "boxes_ok s \<longleftrightarrow>
     distinct (box_addrs s) \<and> set (box_addrs s) \<subseteq> dom (boxes s) \<and> void_task s \<noteq> None"

lemma all_tasks_ring: "all_tasks s = rr.ring (current s, scheduler s)"
  by (simp add: all_tasks_def rr.ring_def opt_list_def)

lemma select_all_tasks:
  "mset (all_tasks (snd (select_next_task al f s))) = mset (all_tasks s)"
  by (simp add: all_tasks_ring select_next_switch rr.ring_mset)

lemma get_idle_task_effect:
  assumes "get_idle_task al f s = (t, s')"
  shows "scheduler s' = scheduler s \<and> current s' = current s \<and> void_task s' = void_task s \<and>
    initialized s' = initialized s \<and> idle_task s' = Some t \<and>
    (idle_task s = Some t \<and> s' = s \<or>
     idle_task s = None \<and> t = (process_new 0 Runnable, alloc_box al) \<and>
     dom (boxes s') = insert (alloc_box al) (dom (boxes s)))"
  using get_idle_task_simps [OF assms] by (cases "idle_task s") auto

lemma replace_curr_task_frame [simp]:
  "void_task (replace_curr_task t s) = void_task s"
  "idle_task (replace_curr_task t s) = idle_task s"
  "initialized (replace_curr_task t s) = initialized s"
  "boxes (replace_curr_task t s) = boxes s"
  "current (replace_curr_task t s) = t"
  "task_id (scheduler (replace_curr_task t s)) = task_id (scheduler s)"
  by (auto simp: replace_curr_task_def reinsert_task_def split: option.splits)

definition builds_idle :: "allocation \<Rightarrow> sched \<Rightarrow> sched \<Rightarrow> bool" where
  "builds_idle al s s' \<longleftrightarrow>
     idle_task s' = idle_task s \<and> dom (boxes s') = dom (boxes s) \<or>
     idle_task s = None \<and> idle_task s' = Some (process_new 0 Runnable, alloc_box al) \<and>
     dom (boxes s') = insert (alloc_box al) (dom (boxes s))"

lemma select_frame:
  assumes "select_next_task al f s = (p, s')"
  shows "void_task s' = void_task s \<and> initialized s' = initialized s \<and>
    task_id (scheduler s') = task_id (scheduler s) \<and> builds_idle al s s'"
proof (cases "tasks (scheduler s)")
  case Nil
  obtain t u where idle: "get_idle_task al f (replace_curr_task None s) = (t, u)" by fastforce
  then have "s' = u"
    using assms Nil by (simp add: select_next_task_def pick_next_def Let_def)
  then show ?thesis
    using get_idle_task_effect [OF idle] by (auto simp: builds_idle_def)
next
  case Cons
  then show ?thesis
    using assms by (auto simp: select_next_task_def pick_next_def Let_def builds_idle_def)
qed

lemma current_task_frame:
  assumes "current_task_ptr al f s = Inr (p, s')"
  shows "scheduler s' = scheduler s \<and> current s' = current s \<and> void_task s' = void_task s \<and>
    builds_idle al s s'"
proof -
  obtain t u where idle: "get_idle_task al f s = (t, u)" by fastforce
  show ?thesis
    using assms idle get_idle_task_effect [OF idle]
    by (auto simp: current_task_ptr_def Let_def builds_idle_def split: option.splits if_splits)
qed

text \<open>The invariant survives any change that permutes the tasks and at most builds the idle task.\<close>

lemma inv_idle_step:
  assumes inv: "ids_ok s" "boxes_ok s" and fresh: "alloc_box al \<notin> dom (boxes s)"
    and same: "mset (all_tasks s') = mset (all_tasks s)" "void_task s' = void_task s"
      "task_id (scheduler s') = task_id (scheduler s)"
    and idle: "builds_idle al s s'"
  shows "ids_ok s' \<and> boxes_ok s'"
proof
  have sets: "set (all_tasks s') = set (all_tasks s)"
    using same(1) by (rule mset_eq_setD)
  have "distinct (map g (all_tasks s')) = distinct (map g (all_tasks s))" for g :: "task \<Rightarrow> u64"
    using same(1) by (intro mset_eq_imp_distinct_iff) simp
  then show "ids_ok s'"
    using inv(1) sets same idle by (auto simp: ids_ok_def builds_idle_def process_new_def)
  have perm: "distinct (map snd (all_tasks s') @ xs) = distinct (map snd (all_tasks s) @ xs)" for xs
    using same(1) by (intro mset_eq_imp_distinct_iff) simp
  show "boxes_ok s'"
    using idle unfolding builds_idle_def
  proof
    assume *: "idle_task s' = idle_task s \<and> dom (boxes s') = dom (boxes s)"
    then have "box_addrs s' = map snd (all_tasks s') @
          map snd (opt_list (idle_task s)) @ opt_list (void_task s)"
        "set (box_addrs s') = set (box_addrs s)"
      using same(2) sets by (simp_all add: box_addrs_def)
    then have "distinct (box_addrs s') = distinct (box_addrs s)"
      by (simp only: perm) (simp only: box_addrs_def)
    then show ?thesis
      using inv(2) \<open>set (box_addrs s') = set (box_addrs s)\<close> same(2) *
      by (simp add: boxes_ok_def)
  next
    assume new: "idle_task s = None \<and> idle_task s' = Some (process_new 0 Runnable, alloc_box al) \<and>
      dom (boxes s') = insert (alloc_box al) (dom (boxes s))"
    then have "mset (box_addrs s') = add_mset (alloc_box al) (mset (box_addrs s))"
      using same(1,2) by (simp add: box_addrs_def)
    then have "mset (box_addrs s') = mset (alloc_box al # box_addrs s)" by simp
    then have "distinct (box_addrs s') = distinct (alloc_box al # box_addrs s)"
        "set (box_addrs s') = set (alloc_box al # box_addrs s)"
      by (rule mset_eq_imp_distinct_iff, rule mset_eq_setD)
    then show ?thesis
      using inv(2) new fresh same(2) by (auto simp: boxes_ok_def)
  qed
qed

lemma start_proc_simps:
  "all_tasks (start_proc al g k s) =
     opt_list (current s) @ (process_new (task_id (scheduler s) + 1) Runnable, alloc_box al) #
     rev (tasks (scheduler s))"
  "idle_task (start_proc al g k s) = idle_task s"
  "void_task (start_proc al g k s) = void_task s"
  "task_id (scheduler (start_proc al g k s)) = task_id (scheduler s) + 1"
  "dom (boxes (start_proc al g k s)) = insert (alloc_box al) (dom (boxes s))"
  by (simp_all add: start_proc_def start_process_def all_tasks_def Let_def)

lemma less_succ_word: "(x :: u64) \<le> n \<Longrightarrow> n + 1 \<noteq> 0 \<Longrightarrow> x < n + 1"
  using unatSuc [of n] by (simp add: word_less_nat_alt word_le_nat_alt add.commute)

lemma start_proc_inv:
  assumes inv: "ids_ok s" "boxes_ok s" and fresh: "alloc_box al \<notin> dom (boxes s)"
    and nowrap: "task_id (scheduler s) + 1 \<noteq> 0"
  shows "ids_ok (start_proc al g k s) \<and> boxes_ok (start_proc al g k s)"
proof
  let ?t = "(process_new (task_id (scheduler s) + 1) Runnable, alloc_box al)"
  let ?s = "start_proc al g k s"
  have ms: "mset (all_tasks ?s) = mset (?t # all_tasks s)"
    by (simp add: start_proc_simps) (simp add: all_tasks_def)
  have sets: "set (all_tasks ?s) = insert ?t (set (all_tasks s))"
    using mset_eq_setD [OF ms] by simp
  have perm: "distinct (map h (all_tasks ?s)) = distinct (map h (?t # all_tasks s))"
    for h :: "task \<Rightarrow> u64"
    using ms by (intro mset_eq_imp_distinct_iff) simp
  have old: "0 < pid (fst u) \<and> pid (fst u) < task_id (scheduler s) + 1"
    if "u \<in> set (all_tasks s)" for u
    using that inv(1) nowrap by (auto simp: ids_ok_def intro: less_succ_word)
  have "task_id (scheduler s) + 1 \<notin> (pid \<circ> fst) ` set (all_tasks s)"
    using old by force
  then have "distinct (map (pid \<circ> fst) (?t # all_tasks s))"
    using inv(1) by (simp add: ids_ok_def process_new_def)
  then show "ids_ok ?s"
    unfolding ids_ok_def perm sets using inv(1) old nowrap
    by (auto simp: ids_ok_def start_proc_simps process_new_def word_gt_0
        intro: order.strict_implies_order)
  have "mset (box_addrs ?s) = mset (alloc_box al # box_addrs s)"
    using ms by (simp add: box_addrs_def start_proc_simps(2,3))
  then have "distinct (box_addrs ?s) = distinct (alloc_box al # box_addrs s)"
      "set (box_addrs ?s) = set (alloc_box al # box_addrs s)"
    by (rule mset_eq_imp_distinct_iff, rule mset_eq_setD)
  then show "boxes_ok ?s"
    using inv(2) fresh by (auto simp: boxes_ok_def start_proc_simps)
qed

lemma store_kernel_rsp_simps [simp]:
  "dom (boxes (store_kernel_rsp p v s)) = dom (boxes s)"
  "scheduler (store_kernel_rsp p v s) = scheduler s"
  "current (store_kernel_rsp p v s) = current s"
  "idle_task (store_kernel_rsp p v s) = idle_task s"
  "void_task (store_kernel_rsp p v s) = void_task s"
  "initialized (store_kernel_rsp p v s) = initialized s"
  by (auto simp: store_kernel_rsp_def split: if_splits)

lemma inv_store_kernel_rsp:
  "ids_ok s \<and> boxes_ok s \<Longrightarrow> ids_ok (store_kernel_rsp p v s) \<and> boxes_ok (store_kernel_rsp p v s)"
  by (simp add: ids_ok_def boxes_ok_def box_addrs_def all_tasks_def)

lemma reachable_inv: "reachable f s \<Longrightarrow> ids_ok s \<and> boxes_ok s"
proof (induction rule: reachable.induct)
  case (boot al m)
  then show ?case
    by (simp add: scheduler_init_def sched_boot_def round_robin_new_def ids_ok_def boxes_ok_def
        box_addrs_def all_tasks_def Let_def)
next
  case (start s al target k)
  then show ?case by (simp add: start_proc_inv)
next
  case (save s al p s' v)
  then show ?case
    using current_task_frame [OF save.hyps(3)]
    by (intro inv_store_kernel_rsp inv_idle_step [of s al]) (simp_all add: all_tasks_def)
next
  case (select s al p s')
  then show ?case
    using select_frame [OF select.hyps(3)] select_all_tasks [of al f s]
    by (intro inv_idle_step [of s al]) simp_all
next
  case (run s m)
  then show ?case by (simp add: ids_ok_def boxes_ok_def box_addrs_def all_tasks_def)
qed

section \<open>Properties\<close>

abbreviation tick :: "allocation \<Rightarrow> u64 \<Rightarrow> sched \<Rightarrow> sched" where
  "tick al idle_fn s \<equiv> snd (select_next_task al idle_fn s)"

text \<open>A booted kernel with one process started, the concrete state of the examples.\<close>

definition example_alloc :: "u64 \<Rightarrow> allocation" where
  "example_alloc b = \<lparr>alloc_kernel = b + 0x1000, alloc_user = b + 0x3000, alloc_box = b\<rparr>"

definition example_boot :: sched where
  "example_boot = scheduler_init (example_alloc 0x10000) 0x400 (sched_boot (\<lambda>_. 0))"

definition example_started :: sched where
  "example_started = start_proc (example_alloc 0x20000) 0x800 True example_boot"

lemma example_started_reachable: "reachable 0x400 example_started"
  unfolding example_started_def
proof (rule reachable.start)
  show "reachable 0x400 example_boot"
    unfolding example_boot_def by (rule reachable.boot)
  show "alloc_box (example_alloc 0x20000) \<notin> dom (boxes example_boot)"
    by (simp add: example_boot_def scheduler_init_def sched_boot_def example_alloc_def Let_def)
  show "task_id (scheduler example_boot) + 1 \<noteq> 0"
    by (simp add: example_boot_def scheduler_init_def sched_boot_def round_robin_new_def Let_def)
qed

text \<open>
  C4: Round-robin scheduling is fair. While a task runs and others wait, the task
  running after \<open>n\<close> timer ticks is the \<open>n\<close>-th of the ring formed by the running
  task and the waiting ones in queue order, so each waiting task runs within as
  many ticks as there are tasks and the order repeats for ever.
\<close>

theorem round_robin_fair:
  assumes "current s = Some c" "tasks (scheduler s) \<noteq> []"
  shows "current ((tick al f ^^ n) s) =
    Some ((c # rev (tasks (scheduler s))) ! (n mod Suc (length (tasks (scheduler s)))))"
  using rr.running_after [of "scheduler s" n c] assms
    select_next_pow_switch [where al = al and f = f and n = n and s = s]
  by (auto dest: arg_cong [where f = fst])

theorem round_robin_fair_witness:
  "let p = (\<lambda>i. (process_new i Runnable, 8 * i));
       s = \<lparr>scheduler = \<lparr>tasks = [p 3, p 2], task_id = 3\<rparr>, current = Some (p 1),
            idle_task = None, void_task = Some 80, initialized = True,
            boxes = Map.empty, smem = (\<lambda>_. 0)\<rparr>
   in tasks (scheduler s) \<noteq> [] \<and> current ((tick (example_alloc 0) 0 ^^ 7) s) = Some (p 2)"
proof -
  let ?p = "\<lambda>i. (process_new i Runnable, 8 * i)"
  let ?s = "\<lparr>scheduler = \<lparr>tasks = [?p 3, ?p 2], task_id = 3\<rparr>, current = Some (?p 1),
            idle_task = None, void_task = Some 80, initialized = True,
            boxes = Map.empty, smem = (\<lambda>_. 0)\<rparr>"
  show ?thesis
    using round_robin_fair [where s = ?s and c = "?p 1" and al = "example_alloc 0" and f = 0 and n = 7]
    by (simp add: Let_def)
qed

text \<open>
  C16: No task is lost or duplicated by a switch: whatever the state, the running
  task together with the waiting ones is the same multiset before and after
  \<^verbatim>\<open>select_next_task\<close>, and starting a process adds exactly the new task, in
  front of the queue.
\<close>

theorem tasks_conserved:
  "mset (all_tasks (tick al f s)) = mset (all_tasks s) \<and>
   mset (all_tasks (start_proc al g k s)) =
     add_mset (process_new (task_id (scheduler s) + 1) Runnable, alloc_box al) (mset (all_tasks s)) \<and>
   fst (select_next_task al' f (start_proc al g k s)) = alloc_box al"
proof (intro conjI)
  show "mset (all_tasks (tick al f s)) = mset (all_tasks s)"
    by (rule select_all_tasks)
  show "mset (all_tasks (start_proc al g k s)) =
     add_mset (process_new (task_id (scheduler s) + 1) Runnable, alloc_box al) (mset (all_tasks s))"
    by (simp add: start_proc_simps) (simp add: all_tasks_def)
  show "fst (select_next_task al' f (start_proc al g k s)) = alloc_box al"
    by (simp add: select_next_task_def start_proc_def start_process_def pick_next_def Let_def)
qed

text \<open>
  C9: In every reachable state process identifiers are unique, positive and at
  most the identifier counter, the idle process alone has identifier 0, and the
  boxes of all tasks, of the idle task and of the void task are pairwise distinct
  and allocated: no two tasks share a saved context.
\<close>

theorem reachable_ids_and_boxes_distinct:
  assumes "reachable f s"
  shows "distinct (map (pid \<circ> fst) (all_tasks s)) \<and>
    (\<forall>t \<in> set (all_tasks s). 0 < pid (fst t) \<and> pid (fst t) \<le> task_id (scheduler s)) \<and>
    (\<forall>t. idle_task s = Some t \<longrightarrow> pid (fst t) = 0) \<and>
    distinct (box_addrs s) \<and> set (box_addrs s) \<subseteq> dom (boxes s)"
  using reachable_inv [OF assms] by (auto simp: ids_ok_def boxes_ok_def)

theorem reachable_ids_and_boxes_distinct_witness:
  "reachable 0x400 example_started \<and> distinct (box_addrs example_started) \<and>
   box_addrs example_started = [0x20000, 0x10000]"
  using reachable_ids_and_boxes_distinct [OF example_started_reachable] example_started_reachable
  by (simp add: box_addrs_def all_tasks_def example_started_def example_boot_def example_alloc_def
      start_proc_def start_process_def scheduler_init_def sched_boot_def round_robin_new_def Let_def)

lemma current_task_ptr_saves:
  assumes "boxes_ok s" "current s = None \<or> initialized s"
  shows "\<exists>q u. current_task_ptr al f s = Inr (q, u) \<and> q \<in> dom (boxes u) \<and> initialized u \<and>
    (void_task s = Some q \<longleftrightarrow> \<not> initialized s \<or> void_task s = Some (alloc_box al) \<and> current s = None \<and> idle_task s = None)"
proof (cases "current s")
  case (Some t)
  then show ?thesis
    using assms by (auto simp: current_task_ptr_def boxes_ok_def box_addrs_def all_tasks_def)
next
  case None
  then show ?thesis
    using assms by (cases "idle_task s")
      (auto simp: current_task_ptr_def get_idle_task_def boxes_ok_def box_addrs_def all_tasks_def Let_def)
qed

lemma select_then_current:
  assumes "select_next_task al f s = (p, s')" "initialized s" "boxes_ok s'"
  shows "current_task_ptr al' f s' = Inr (p, s')" "p \<in> dom (boxes s')" "void_task s' \<noteq> Some p" "initialized s'"
proof -
  obtain t where t: "snd t = p" "current s' = Some t \<or> current s' = None \<and> idle_task s' = Some t"
    using assms(1)
    by (auto simp: select_next_task_def Let_def get_idle_task_simps split: prod.splits option.splits)
  show i: "initialized s'"
    using select_frame [OF assms(1)] assms(2) by simp
  show "current_task_ptr al' f s' = Inr (p, s')"
    using t i by (auto simp: current_task_ptr_def get_idle_task_def)
  show "p \<in> dom (boxes s')" "void_task s' \<noteq> Some p"
    using t assms(3) by (auto simp: boxes_ok_def box_addrs_def all_tasks_def)
qed

text \<open>
  C8: A tick saves the interrupted context where it was loaded from. In every reachable
  state, before the first tick as after it, \<^verbatim>\<open>current_task_ptr\<close> returns without
  unwrapping a missing task, and what it returns is an allocated box, the void
  box exactly at the first tick. \<^verbatim>\<open>select_next_task\<close> then returns an allocated box that is
  not the void one, and at the next tick \<^verbatim>\<open>current_task_ptr\<close> returns that very
  pointer: the context goes back into the box it came from, and the boot context
  parked in the void box is not resumed. Tasks run only after the first
  tick, which the conclusion hands on to the next one.
\<close>

theorem saved_where_loaded:
  assumes "reachable f s" "current s = None \<or> initialized s"
    and "alloc_box al \<notin> dom (boxes s)" "alloc_box al' \<notin> dom (boxes s)" "alloc_box al' \<noteq> alloc_box al"
  shows "\<exists>q u p s'. current_task_ptr al f s = Inr (q, u) \<and> q \<in> dom (boxes u) \<and>
    (void_task s = Some q \<longleftrightarrow> \<not> initialized s) \<and>
    select_next_task al' f (store_kernel_rsp q v u) = (p, s') \<and> p \<in> dom (boxes s') \<and>
    void_task s' \<noteq> Some p \<and> initialized s' \<and> current_task_ptr al'' f s' = Inr (p, s')"
proof -
  have ok: "boxes_ok s"
    using reachable_inv [OF assms(1)] by simp
  have "void_task s \<noteq> Some (alloc_box al)"
    using ok assms(3) by (auto simp: boxes_ok_def box_addrs_def)
  then obtain q u where q: "current_task_ptr al f s = Inr (q, u)" "q \<in> dom (boxes u)" "initialized u"
      "void_task s = Some q \<longleftrightarrow> \<not> initialized s"
    using current_task_ptr_saves [OF ok assms(2)] by blast
  let ?w = "store_kernel_rsp q v u"
  have "reachable f ?w"
    using assms(1,3) q(1) by (rule reachable.save)
  moreover have "alloc_box al' \<notin> dom (boxes ?w)"
    using current_task_frame [OF q(1)] assms(4,5) by (auto simp: builds_idle_def)
  moreover obtain p s' where p: "select_next_task al' f ?w = (p, s')" by fastforce
  ultimately have "boxes_ok s'"
    using reachable.select reachable_inv by blast
  from select_then_current [OF p _ this] show ?thesis
    using q p by auto
qed

definition example_saved :: sched where
  "example_saved = store_kernel_rsp 0x10000 0x7000 (example_started\<lparr>initialized := True\<rparr>)"

lemmas example_defs = example_saved_def example_started_def example_boot_def example_alloc_def
  start_proc_def start_process_def scheduler_init_def sched_boot_def round_robin_new_def

theorem saved_where_loaded_witness:
  "\<exists>u s'. current_task_ptr (example_alloc 0x30000) 0x400 example_started = Inr (0x10000, u) \<and>
    select_next_task (example_alloc 0x40000) 0x400 (store_kernel_rsp 0x10000 0x7000 u) = (0x20000, s') \<and>
    current_task_ptr (example_alloc 0x50000) 0x400 s' = Inr (0x20000, s')"
proof -
  let ?a = "example_alloc 0x30000" and ?b = "example_alloc 0x40000"
  have a: "alloc_box ?a \<notin> dom (boxes example_started)" "alloc_box ?b \<notin> dom (boxes example_started)"
      "alloc_box ?b \<noteq> alloc_box ?a" "current example_started = None"
    by (simp_all add: example_defs Let_def)
  have "current_task_ptr ?a 0x400 example_started = Inr (0x10000, example_started\<lparr>initialized := True\<rparr>)"
    by (simp add: current_task_ptr_def example_defs Let_def)
  moreover have "fst (select_next_task ?b 0x400 example_saved) = 0x20000"
    by (simp add: select_next_task_def pick_next_def example_defs Let_def)
  ultimately show ?thesis
    using saved_where_loaded [OF example_started_reachable _ a(1-3), of "0x7000" "example_alloc 0x50000"] a(4)
    by (auto simp: example_saved_def)
qed

text \<open>
  A task that is the only one is not kept running: because the next task is
  picked before the interrupted one is put back, the tick after it finds an empty
  queue and runs the idle task, and the task runs again only at the tick after
  that, so a lone runnable process and the idle task alternate.
\<close>

lemma lone_task_alternates_with_idle:
  assumes "current s = Some c" "tasks (scheduler s) = []"
  shows "current (tick al f s) = None \<and>
    (\<exists>t. idle_task (tick al f s) = Some t \<and> fst (select_next_task al f s) = snd t) \<and>
    fst (select_next_task al f (tick al f s)) = snd c \<and>
    current (tick al f (tick al f s)) = Some c \<and>
    tasks (scheduler (tick al f (tick al f s))) = []"
proof -
  have "(current (tick al f s), scheduler (tick al f s)) = (None, reinsert_task c (scheduler s))"
    using assms by (simp add: select_next_switch rr.switch_empty)
  moreover have "\<exists>t. idle_task (tick al f s) = Some t \<and> fst (select_next_task al f s) = snd t"
    using assms
    by (simp add: select_next_task_def pick_next_def get_idle_task_def Let_def split: option.splits)
  ultimately show ?thesis
    using assms
    by (simp add: select_next_task_def [of al f "tick al f s"] pick_next_def reinsert_task_def
        replace_curr_task_def Let_def)
qed

end
