(* ===== verification/Shell.thy ===== *)
theory Shell
  imports Terminal Arch
begin

unbundle bit_operations_syntax

text \<open>
  The shell of src/src/shell.rs and the printing entry point of src/src/print.rs,
  over the statics they share: \<^verbatim>\<open>WRITER\<close>, \<^verbatim>\<open>SHELL\<close> and \<^verbatim>\<open>INITIALIZED\<close>. Key codes are
  the \<^verbatim>\<open>pc_keyboard\<close> crate's: their type is a parameter, with the code of the
  backspace key and the text \<^verbatim>\<open>{:?}\<close> prints for a code as arguments.
\<close>

section \<open>State\<close>

record shell =
  prompt :: colored_string
  written_char_count :: usize
  prompt_enabled :: bool

definition shell_new :: "colored_string \<Rightarrow> shell" where
  "shell_new p = \<lparr>prompt = p, written_char_count = 0, prompt_enabled = True\<rparr>"

text \<open>The statics, on top of the machine whose interrupt flag printing clears.\<close>

record console = machine +
  WRITER :: writer
  SHELL :: shell
  INITIALIZED :: bool

text \<open>The value \<^verbatim>\<open>SHELL\<close> is lazily initialised with: the prompt \<^verbatim>\<open>Test: \<close>.\<close>

definition shell_static :: shell where
  "shell_static = shell_new (from_string [0x54, 0x65, 0x73, 0x74, 0x3A, 0x20])"

definition has_shell :: "'a console_scheme \<Rightarrow> bool" where
  "has_shell s = INITIALIZED s"

text \<open>An operation on the locked writer.\<close>

definition on_writer :: "(writer \<Rightarrow> writer res) \<Rightarrow> 'a console_scheme \<Rightarrow> 'a console_scheme res" where
  "on_writer f s = bind_res (f (WRITER s)) (\<lambda>w. Inr (s\<lparr>WRITER := w\<rparr>))"

definition set_count :: "usize \<Rightarrow> 'a console_scheme \<Rightarrow> 'a console_scheme" where
  "set_count n s = s\<lparr>SHELL := (SHELL s)\<lparr>written_char_count := n\<rparr>\<rparr>"

section \<open>Operations\<close>

definition shell_init :: "'a console_scheme \<Rightarrow> 'a console_scheme res" where
  "shell_init s =
     bind_res (is_current_row_clear (WRITER s)) (\<lambda>clear.
     bind_res (if \<not> clear then on_writer new_line s else Inr s) (\<lambda>s.
     bind_res (on_writer (write_colored_string (prompt (SHELL s))) s) (\<lambda>s.
     Inr (s\<lparr>INITIALIZED := True\<rparr>))))"

definition write_colored :: "colored_string \<Rightarrow> 'a console_scheme \<Rightarrow> 'a console_scheme res" where
  "write_colored text =
     for_each (\<lambda>char s.
       if raw_char char = 0x0A then
         bind_res (on_writer new_line s) (\<lambda>s.
         bind_res (on_writer (write_colored_string (prompt (SHELL s))) s) (\<lambda>s.
         Inr (set_count 0 s)))
       else if printable (raw_char char) then
         on_writer (write_byte_colored (raw_char char) (raw_color char)) s
       else on_writer (write_byte 0xfe) s)
     (cs_chars text)"

definition print_prompt :: "'a console_scheme \<Rightarrow> 'a console_scheme res" where
  "print_prompt s =
     (if prompt_enabled (SHELL s)
      then on_writer (write_colored_string (prompt (SHELL s))) s else Inr s)"

definition newline :: "'a console_scheme \<Rightarrow> 'a console_scheme res" where
  "newline s =
     bind_res (on_writer new_line s) (\<lambda>s.
     bind_res (print_prompt s) (\<lambda>s.
     Inr (set_count 0 s)))"

definition shell_write :: "bytes \<Rightarrow> 'a console_scheme \<Rightarrow> 'a console_scheme res" where
  "shell_write =
     for_each (\<lambda>char.
       if char = 0x0A then newline
       else if printable char then on_writer (write_byte char)
       else on_writer (write_byte 0xfe))"

text \<open>
  A decoded key carries a key code or a Unicode scalar value; \<^verbatim>\<open>{}\<close> of a \<^verbatim>\<open>char\<close>
  writes its UTF-8 encoding.
\<close>

datatype 'k decoded_key = RawKey 'k | Unicode nat

definition encode_utf8 :: "nat \<Rightarrow> bytes" where
  "encode_utf8 c =
     (if c < 0x80 then [of_nat c]
      else if c < 0x800 then [of_nat (0xC0 + c div 0x40), of_nat (0x80 + c mod 0x40)]
      else if c < 0x10000 then
        [of_nat (0xE0 + c div 0x1000), of_nat (0x80 + c div 0x40 mod 0x40), of_nat (0x80 + c mod 0x40)]
      else
        [of_nat (0xF0 + c div 0x40000), of_nat (0x80 + c div 0x1000 mod 0x40),
         of_nat (0x80 + c div 0x40 mod 0x40), of_nat (0x80 + c mod 0x40)])"

definition raw_backspace :: "writer \<Rightarrow> writer res" where
  "raw_backspace w =
     (if 0 < get_column_position w then
        let w = set_column_position (get_column_position w - 1) w
        in bind_res (write_byte 0x20 w) (\<lambda>w.
           Inr (set_column_position (get_column_position w - 1) w))
      else Inr w)"

definition unicode_backspace :: "writer \<Rightarrow> writer res" where
  "unicode_backspace w =
     bind_res
       (if 0 < get_column_position w
        then Inr (set_column_position (get_column_position w - 1) w)
        else bind_res (old_line w) (\<lambda>w. Inr (set_column_position (of_nat (BUFFER_WIDTH - 1)) w)))
       (set_byte 0x20)"

definition key_event ::
    "'k \<Rightarrow> ('k \<Rightarrow> bytes) \<Rightarrow> 'k decoded_key \<Rightarrow> 'a console_scheme \<Rightarrow> 'a console_scheme res" where
  "key_event backspace_code debug_fmt key s =
     (case key of
        RawKey k \<Rightarrow>
          if k = backspace_code then
            if 0 < written_char_count (SHELL s) then
              bind_res (on_writer raw_backspace s) (\<lambda>s.
              Inr (set_count (written_char_count (SHELL s) - 1) s))
            else Inr s
          else
            bind_res (without_interrupts (\<lambda>s.
                bind_res (on_writer (write_string (debug_fmt k)) s) (\<lambda>s. Inr ((), s))) s) (\<lambda>(_, s).
            Inr (set_count (written_char_count (SHELL s) + 1) s))
      | Unicode k \<Rightarrow>
          if k = 8 then
            if 0 < written_char_count (SHELL s) then
              bind_res (on_writer unicode_backspace s) (\<lambda>s.
              Inr (set_count (written_char_count (SHELL s) - 1) s))
            else Inr s
          else if k = 10 then newline s
          else
            bind_res (on_writer (write_string (encode_utf8 k)) s) (\<lambda>s.
            Inr (set_count (written_char_count (SHELL s) + 1) s)))"

definition set_enable_prompt :: "bool \<Rightarrow> 'a console_scheme \<Rightarrow> 'a console_scheme" where
  "set_enable_prompt enabled s = s\<lparr>SHELL := (SHELL s)\<lparr>prompt_enabled := enabled\<rparr>\<rparr>"

section \<open>Printing\<close>

text \<open>
  \<^verbatim>\<open>write_fmt\<close> hands the formatted text over in pieces; by \<open>for_each_append\<close> the
  result does not depend on how it is cut, so the arguments are one byte string.
\<close>

definition print_bytes :: "bytes \<Rightarrow> 'a console_scheme \<Rightarrow> (unit \<times> 'a console_scheme) res" where
  "print_bytes args =
     without_interrupts (\<lambda>s.
       bind_res (if has_shell s then shell_write args s else on_writer (write_string args) s) (\<lambda>s.
       Inr ((), s)))"

definition println :: "bytes \<Rightarrow> 'a console_scheme \<Rightarrow> (unit \<times> 'a console_scheme) res" where
  "println args = print_bytes (args @ [0x0A])"

text \<open>The pieces: \<^verbatim>\<open>write_str\<close> of the writer and of the shell, and \<^verbatim>\<open>_print\<close> over them.\<close>

definition writer_write_str :: "bytes \<Rightarrow> writer \<Rightarrow> writer res" where
  "writer_write_str s w = write_string s w"

definition shell_write_str :: "bytes \<Rightarrow> 'a console_scheme \<Rightarrow> 'a console_scheme res" where
  "shell_write_str s c = shell_write s c"

definition print_fmt :: "bytes list \<Rightarrow> 'a console_scheme \<Rightarrow> (unit \<times> 'a console_scheme) res" where
  "print_fmt pieces =
     without_interrupts (\<lambda>s.
       bind_res (if has_shell s then for_each shell_write_str pieces s
                 else on_writer (for_each writer_write_str pieces) s) (\<lambda>s.
       Inr ((), s)))"

lemma for_each_concat: "for_each (for_each f) xss s = for_each f (concat xss) s"
proof (induction xss arbitrary: s)
  case (Cons xs xss)
  have "for_each (for_each f) xss = for_each f (concat xss)"
    using Cons.IH by (rule ext)
  then show ?case
    by (simp add: for_each_append)
qed simp

lemma print_fmt_concat:
  fixes s :: "'a console_scheme"
  shows "print_fmt pieces s = print_bytes (concat pieces) s"
proof -
  have a: "for_each shell_write_str pieces = (shell_write (concat pieces) :: 'a console_scheme \<Rightarrow> _)"
    unfolding shell_write_str_def shell_write_def by (intro ext) (rule for_each_concat)
  have b: "for_each writer_write_str pieces = write_string (concat pieces)"
    unfolding writer_write_str_def write_string_def by (intro ext) (rule for_each_concat)
  show ?thesis
    unfolding print_fmt_def print_bytes_def a b ..
qed

end
