(* ===== verification/Events.thy ===== *)
theory Events
  imports Shell
begin

text \<open>
  The keyboard event dispatch of src/src/events.rs. A handler is a boxed closure
  that may change anything it captures; here it is a value of a type \<open>'h\<close> together
  with a function that runs it on the state. The one closure the kernel registers
  is that of \<^verbatim>\<open>init_kb_handler\<close> (src/src/lib.rs).
\<close>

record 'k keyboard_event =
  key :: "'k decoded_key"

record 'h event_handlers =
  keyboard :: "'h list"

definition event_handlers_new :: "'h event_handlers" where
  "event_handlers_new = \<lparr>keyboard = []\<rparr>"

definition register_keyboard_handler :: "'h \<Rightarrow> 'h event_handlers \<Rightarrow> 'h event_handlers" where
  "register_keyboard_handler handler e = e\<lparr>keyboard := keyboard e @ [handler]\<rparr>"

definition call_keyboard_event ::
    "('h \<Rightarrow> 'k keyboard_event \<Rightarrow> 's \<Rightarrow> 's res) \<Rightarrow> 'k keyboard_event \<Rightarrow>
     'h event_handlers \<Rightarrow> 's \<Rightarrow> 's res" where
  "call_keyboard_event call event e = for_each (\<lambda>handler. call handler event) (keyboard e)"

section \<open>The kernel's handler\<close>

datatype kb_handler = ShellKeyHandler

primrec call_kb_handler ::
    "'k \<Rightarrow> ('k \<Rightarrow> bytes) \<Rightarrow> kb_handler \<Rightarrow> 'k keyboard_event \<Rightarrow>
     'a console_scheme \<Rightarrow> 'a console_scheme res" where
  "call_kb_handler backspace_code debug_fmt ShellKeyHandler event s =
     (if has_shell s then key_event backspace_code debug_fmt (key event) s else Inr s)"

section \<open>Order of calls\<close>

lemma keyboard_register:
  "keyboard (fold register_keyboard_handler hs e) = keyboard e @ hs"
  by (induction hs arbitrary: e) (simp_all add: register_keyboard_handler_def)

text \<open>
  An event reaches every registered handler exactly once, in the order of
  registration, each one seeing the state the one before it left; the first that
  panics ends the dispatch.
\<close>

lemma handlers_run_in_order:
  "call_keyboard_event call ev (fold register_keyboard_handler hs event_handlers_new) s =
     for_each (\<lambda>h. call h ev) hs s \<and>
   call_keyboard_event call ev
       (register_keyboard_handler h (fold register_keyboard_handler hs event_handlers_new)) s =
     bind_res (for_each (\<lambda>h. call h ev) hs s) (call h ev)"
  by (simp add: call_keyboard_event_def keyboard_register event_handlers_new_def)
    (simp add: register_keyboard_handler_def keyboard_register for_each_append)

end
