(* ===== verification/Interrupts.thy ===== *)
theory Interrupts
  imports Events Pit Gdt
begin

text \<open>
  Interrupt handling of src/src/interrupts.rs: the descriptor table, the local
  APIC and its one-shot timer, the exception and device handlers and the
  calibration loop of \<^verbatim>\<open>init_apic\<close>. The APIC, the interrupt controllers and the
  keyboard decoder are crates: the first two are logs of the calls made to them,
  the decoder is a record of functions. The context switch of
  \<^verbatim>\<open>apic_timer_handler\<close> and the system call path are in theories of their own.
\<close>

section \<open>Vectors and handlers\<close>

definition PIC_1_OFFSET :: u8 where "PIC_1_OFFSET = 32"
definition PIC_2_OFFSET :: u8 where "PIC_2_OFFSET = PIC_1_OFFSET + 8"

text \<open>\<^verbatim>\<open>Keyboard\<close> has no explicit discriminant: it is one more than \<^verbatim>\<open>ApicSpurious\<close>.\<close>

datatype interrupt_index = Timer | ApicTimer | ApicError | ApicSpurious | Keyboard | Syscall | Invalid

primrec as_u8 :: "interrupt_index \<Rightarrow> u8" where
  "as_u8 Timer = PIC_1_OFFSET"
| "as_u8 ApicTimer = 33"
| "as_u8 ApicError = 34"
| "as_u8 ApicSpurious = 35"
| "as_u8 Keyboard = 36"
| "as_u8 Syscall = 128"
| "as_u8 Invalid = 255"

definition as_usize :: "interrupt_index \<Rightarrow> usize" where
  "as_usize i = ucast (as_u8 i)"

datatype exception =
    Breakpoint | DivideError | Debug | NonMaskableInterrupt | Overflow | BoundRangeExceeded
  | InvalidOpcode | DeviceNotAvailable | InvalidTss | AlignmentCheck | SegmentNotPresent
  | X87FloatingPoint | SimdFloatingPoint | Virtualization | VmmCommunication | SecurityException
  | StackSegmentFault | GeneralProtectionFault | DoubleFault

datatype handler =
    ExceptionHandler exception | PageFaultHandler | TimerInterruptHandler
  | KeyboardInterruptHandler | ApicTimerConfigHandler | ApicTimerHandler
  | ApicErrorHandler | ApicSpuriousHandler | SyscallHandler

record idt_entry =
  entry_fn :: handler
  stack_index :: "u16 option"

section \<open>State\<close>

datatype timer_divide = Div64
datatype timer_mode = OneShot

record lapic =
  timer_vector :: usize
  error_vector :: usize
  spurious_vector :: usize
  lapic_base :: u64

datatype lapic_call =
    SetTimerDivide timer_divide | SetTimerInitial u32 | SetTimerMode timer_mode
  | LapicEnable | LapicEoi

datatype pic_call = PicInitialize | PicEoi u8

record 'kb irq = console +
  IDT :: "usize \<rightharpoonup> idt_entry"
  IDT_LOADED :: bool
  LAPIC :: "lapic option"
  lapic_log :: "lapic_call list"
  pic_log :: "pic_call list"
  APIC_TIMER_FREQUENCY :: usize
  TRIGGERED_ONCE :: bool
  KEYBOARD :: 'kb
  EVENT_HANDLERS :: "kb_handler event_handlers"

text \<open>
  The \<^verbatim>\<open>pc_keyboard\<close> crate: \<^verbatim>\<open>add_byte\<close> feeds a scancode (\<open>None\<close> is its error),
  \<^verbatim>\<open>process_keyevent\<close> decodes a completed event.
\<close>

record ('kb, 'ev, 'k) kb_crate =
  add_byte :: "u8 \<Rightarrow> 'kb \<Rightarrow> 'ev option option \<times> 'kb"
  process_keyevent :: "'ev \<Rightarrow> 'kb \<Rightarrow> 'k decoded_key option \<times> 'kb"
  backspace_key :: 'k
  fmt_key :: "'k \<Rightarrow> bytes"

section \<open>The descriptor table\<close>

text \<open>The vector the architecture assigns to an exception.\<close>

primrec exception_vector :: "exception \<Rightarrow> usize" where
  "exception_vector DivideError = 0"
| "exception_vector Debug = 1"
| "exception_vector NonMaskableInterrupt = 2"
| "exception_vector Breakpoint = 3"
| "exception_vector Overflow = 4"
| "exception_vector BoundRangeExceeded = 5"
| "exception_vector InvalidOpcode = 6"
| "exception_vector DeviceNotAvailable = 7"
| "exception_vector DoubleFault = 8"
| "exception_vector InvalidTss = 10"
| "exception_vector SegmentNotPresent = 11"
| "exception_vector StackSegmentFault = 12"
| "exception_vector GeneralProtectionFault = 13"
| "exception_vector X87FloatingPoint = 16"
| "exception_vector AlignmentCheck = 17"
| "exception_vector SimdFloatingPoint = 19"
| "exception_vector Virtualization = 20"
| "exception_vector VmmCommunication = 29"
| "exception_vector SecurityException = 30"

definition set_handler_fn :: "usize \<Rightarrow> handler \<Rightarrow> ('kb, 'a) irq_scheme \<Rightarrow> ('kb, 'a) irq_scheme" where
  "set_handler_fn v h s = s\<lparr>IDT := (IDT s)(v \<mapsto> \<lparr>entry_fn = h, stack_index = None\<rparr>)\<rparr>"

definition set_stack_index :: "usize \<Rightarrow> u16 \<Rightarrow> ('kb, 'a) irq_scheme \<Rightarrow> ('kb, 'a) irq_scheme" where
  "set_stack_index v i s =
     s\<lparr>IDT := (IDT s)(v := map_option (\<lambda>e. e\<lparr>stack_index := Some i\<rparr>) (IDT s v))\<rparr>"

definition set_exceptions :: "exception list \<Rightarrow> ('kb, 'a) irq_scheme \<Rightarrow> ('kb, 'a) irq_scheme" where
  "set_exceptions = fold (\<lambda>e. set_handler_fn (exception_vector e) (ExceptionHandler e))"

definition interrupts_init :: "('kb, 'a) irq_scheme \<Rightarrow> ('kb, 'a) irq_scheme" where
  "interrupts_init s =
     (let s = set_exceptions
            [Breakpoint, Overflow, BoundRangeExceeded, GeneralProtectionFault, AlignmentCheck,
             DivideError, NonMaskableInterrupt, InvalidOpcode, DeviceNotAvailable,
             SegmentNotPresent, StackSegmentFault, SecurityException, SimdFloatingPoint,
             X87FloatingPoint, VmmCommunication, Virtualization, Debug, InvalidTss] s;
          s = set_handler_fn 14 PageFaultHandler s;
          s = set_exceptions [DoubleFault] s;
          s = set_stack_index (exception_vector DoubleFault) (of_nat DOUBLE_FAULT_IST_INDEX) s;
          s = set_handler_fn (as_usize Timer) TimerInterruptHandler s;
          s = set_handler_fn (as_usize Keyboard) KeyboardInterruptHandler s;
          s = set_handler_fn (as_usize ApicTimer) ApicTimerConfigHandler s;
          s = set_handler_fn (as_usize ApicError) ApicErrorHandler s;
          s = set_handler_fn (as_usize ApicSpurious) ApicSpuriousHandler s;
          s = set_handler_fn (as_usize Syscall) SyscallHandler s
      in s\<lparr>IDT_LOADED := True\<rparr>)"

section \<open>The local APIC\<close>

text \<open>\<^verbatim>\<open>LAPIC.as_mut().unwrap()\<close> followed by a call on it.\<close>

definition on_lapic :: "lapic_call \<Rightarrow> ('kb, 'a) irq_scheme \<Rightarrow> ('kb, 'a) irq_scheme res" where
  "on_lapic c s =
     (case LAPIC s of
        None \<Rightarrow> Inl UnwrapNone
      | Some _ \<Rightarrow> Inr (s\<lparr>lapic_log := lapic_log s @ [c]\<rparr>))"

definition has_lapic :: "('kb, 'a) irq_scheme \<Rightarrow> bool" where
  "has_lapic s \<longleftrightarrow> LAPIC s \<noteq> None"

definition end_of_interrupt :: "u8 \<Rightarrow> ('kb, 'a) irq_scheme \<Rightarrow> ('kb, 'a) irq_scheme res" where
  "end_of_interrupt interrupt_id s =
     (if has_lapic s then on_lapic LapicEoi s
      else Inr (s\<lparr>pic_log := pic_log s @ [PicEoi interrupt_id]\<rparr>))"

definition SCHEDULER_TIMER_DELAY :: usize where "SCHEDULER_TIMER_DELAY = 1000000"

definition start_timer_one_shot :: "usize \<Rightarrow> ('kb, 'a) irq_scheme \<Rightarrow> ('kb, 'a) irq_scheme res" where
  "start_timer_one_shot us s =
     bind_res (on_lapic (SetTimerDivide Div64) s) (\<lambda>s.
     bind_res (on_lapic (SetTimerMode OneShot) s) (\<lambda>s.
     on_lapic (SetTimerInitial (ucast (us * (APIC_TIMER_FREQUENCY s div 1000000)))) s))"

definition restart_apic :: "('kb, 'a) irq_scheme \<Rightarrow> ('kb, 'a) irq_scheme res" where
  "restart_apic s =
     bind_res (on_lapic LapicEoi s) (start_timer_one_shot SCHEDULER_TIMER_DELAY)"

section \<open>Handlers\<close>

text \<open>
  The exception handlers panic with the exception's name, the interrupt stack
  frame and, where the processor pushes one, the error code.
\<close>

primrec exception_text :: "exception \<Rightarrow> string" where
  "exception_text Breakpoint = ''BREAKPOINT''"
| "exception_text DivideError = ''DIVIDE ERROR''"
| "exception_text Debug = ''DEBUG''"
| "exception_text NonMaskableInterrupt = ''NON MASKABLE INTERRUPT''"
| "exception_text Overflow = ''OVERFLOW''"
| "exception_text BoundRangeExceeded = ''OOB''"
| "exception_text InvalidOpcode = ''INVALID OP CODE''"
| "exception_text DeviceNotAvailable = ''DEVICE UNAVAILABLE''"
| "exception_text InvalidTss = ''INVALID TSS''"
| "exception_text AlignmentCheck = ''ALIGNMENT ERROR''"
| "exception_text SegmentNotPresent = ''SEGMENT NOT PRESENT''"
| "exception_text X87FloatingPoint = ''X87 FLOATING POINT ERROR''"
| "exception_text SimdFloatingPoint = ''SIMD FLOATING POINT ERROR''"
| "exception_text Virtualization = ''VIRTUALIZATION ERROR''"
| "exception_text VmmCommunication = ''VMM COMMUNICATION ERROR''"
| "exception_text SecurityException = ''SECURITY ERROR''"
| "exception_text StackSegmentFault = ''STACK SEGMENTATION FAULT''"
| "exception_text GeneralProtectionFault = ''GENERAL PROTECTION FAULT''"
| "exception_text DoubleFault = ''DOUBLE FAULT''"

definition error_code_text :: "exception \<Rightarrow> string \<Rightarrow> string" where
  "error_code_text e code =
     (if e \<in> {GeneralProtectionFault, DoubleFault}
      then [CHR 0x0A] @ ''Error code: '' @ code @ [CHR 0x0A]
      else if e \<in> {InvalidTss, AlignmentCheck, SegmentNotPresent, VmmCommunication,
                   SecurityException, StackSegmentFault}
      then [CHR 0x0A] @ ''ERROR CODE: '' @ code
      else [])"

definition exception_handler ::
    "exception \<Rightarrow> string \<Rightarrow> string \<Rightarrow> ('kb, 'a) irq_scheme \<Rightarrow> ('kb, 'a) irq_scheme res" where
  "exception_handler e frame code s =
     Inl (Panicked (''EXCEPTION: '' @ exception_text e @ [CHR 0x0A] @ frame @
       error_code_text e code))"

definition irq_println :: "bytes \<Rightarrow> ('kb, 'a) irq_scheme \<Rightarrow> ('kb, 'a) irq_scheme res" where
  "irq_println t s = bind_res (println t s) (\<lambda>(_, s). Inr s)"

text \<open>\<^verbatim>\<open>page_fault_handler\<close> up to its final \<^verbatim>\<open>hlt_loop\<close>, which does not return.\<close>

definition page_fault_handler ::
    "bytes \<Rightarrow> bytes \<Rightarrow> bytes \<Rightarrow> ('kb, 'a) irq_scheme \<Rightarrow> ('kb, 'a) irq_scheme res" where
  "page_fault_handler frame cr2 code s =
     bind_res (irq_println (ascii ''EXCEPTION: PAGE FAULT'') s) (\<lambda>s.
     bind_res (irq_println (ascii ''Accessed Address: '' @ cr2) s) (\<lambda>s.
     bind_res (irq_println (ascii ''Error Code: '' @ code) s) (\<lambda>s.
     irq_println frame s)))"

definition apic_timer_config_handler :: "('kb, 'a) irq_scheme \<Rightarrow> ('kb, 'a) irq_scheme res" where
  "apic_timer_config_handler s = on_lapic LapicEoi (s\<lparr>TRIGGERED_ONCE := True\<rparr>)"

definition apic_error_handler :: "('kb, 'a) irq_scheme \<Rightarrow> ('kb, 'a) irq_scheme res" where
  "apic_error_handler s =
     bind_res (irq_println (ascii ''apic error handler!'') s) (on_lapic LapicEoi)"

definition apic_spurious_handler :: "('kb, 'a) irq_scheme \<Rightarrow> ('kb, 'a) irq_scheme res" where
  "apic_spurious_handler s =
     bind_res (irq_println (ascii ''apic spurious handler!'') s) (on_lapic LapicEoi)"

definition timer_interrupt_handler :: "('kb, 'a) irq_scheme \<Rightarrow> ('kb, 'a) irq_scheme res" where
  "timer_interrupt_handler s = end_of_interrupt (as_u8 Timer) s"

definition dispatch_key ::
    "('kb, 'ev, 'k) kb_crate \<Rightarrow> 'k decoded_key \<Rightarrow> ('kb, 'a) irq_scheme \<Rightarrow> ('kb, 'a) irq_scheme res" where
  "dispatch_key kc k s =
     call_keyboard_event (call_kb_handler (backspace_key kc) (fmt_key kc)) \<lparr>key = k\<rparr>
       (EVENT_HANDLERS s) s"

definition keyboard_interrupt_handler ::
    "('kb, 'ev, 'k) kb_crate \<Rightarrow> ('kb, 'a) irq_scheme \<Rightarrow> ('kb, 'a) irq_scheme res" where
  "keyboard_interrupt_handler kc s =
     (let (scancode, s) = port_read 0x60 s;
          (r, kb) = add_byte kc scancode (KEYBOARD s);
          s = s\<lparr>KEYBOARD := kb\<rparr>
      in bind_res
           (case r of
              Some (Some ev) \<Rightarrow>
                (let (k, kb) = process_keyevent kc ev (KEYBOARD s);
                     s = s\<lparr>KEYBOARD := kb\<rparr>
                 in case k of Some k \<Rightarrow> dispatch_key kc k s | None \<Rightarrow> Inr s)
            | _ \<Rightarrow> Inr s)
           (end_of_interrupt (as_u8 Keyboard)))"

definition init_kb_handler :: "('kb, 'a) irq_scheme \<Rightarrow> ('kb, 'a) irq_scheme" where
  "init_kb_handler s =
     s\<lparr>EVENT_HANDLERS := register_keyboard_handler ShellKeyHandler (EVENT_HANDLERS s)\<rparr>"

section \<open>Calibration\<close>

definition TIMER_DELAY :: u16 where "TIMER_DELAY = 0xFFFF"

text \<open>
  While \<^verbatim>\<open>init_apic\<close> waits, the interrupt controllers are masked and the local APIC alone
  interrupts. Its interrupts go through the descriptor table, unless interrupts are
  disabled; \<open>None\<close> is a handler that does not come back: an exception's, or the
  scheduler's, which gives the processor away.
\<close>

datatype apic_irq = TimerIrq | ErrorIrq | SpuriousIrq

primrec apic_index :: "apic_irq \<Rightarrow> interrupt_index" where
  "apic_index TimerIrq = ApicTimer"
| "apic_index ErrorIrq = ApicError"
| "apic_index SpuriousIrq = ApicSpurious"

definition apic_deliver :: "apic_irq \<Rightarrow> ('kb, 'a) irq_scheme \<Rightarrow> ('kb, 'a) irq_scheme res option" where
  "apic_deliver q s =
     (if \<not> is_interrupts_enabled s then Some (Inr s)
      else case map_option entry_fn (IDT s (as_usize (apic_index q))) of
             Some ApicTimerConfigHandler \<Rightarrow> Some (apic_timer_config_handler s)
           | Some ApicErrorHandler \<Rightarrow> Some (apic_error_handler s)
           | Some ApicSpuriousHandler \<Rightarrow> Some (apic_spurious_handler s)
           | Some TimerInterruptHandler \<Rightarrow> Some (timer_interrupt_handler s)
           | _ \<Rightarrow> None)"

definition bind_run :: "'x res option \<Rightarrow> ('x \<Rightarrow> 'y res option) \<Rightarrow> 'y res option" where
  "bind_run r f = (case r of None \<Rightarrow> None | Some (Inl e) \<Rightarrow> Some (Inl e) | Some (Inr x) \<Rightarrow> f x)"

fun apic_deliver_all :: "apic_irq list \<Rightarrow> ('kb, 'a) irq_scheme \<Rightarrow> ('kb, 'a) irq_scheme res option" where
  "apic_deliver_all [] s = Some (Inr s)"
| "apic_deliver_all (q # qs) s = bind_run (apic_deliver q s) (apic_deliver_all qs)"

text \<open>
  The waiting loop: in each iteration interrupts may arrive before the flag is loaded
  and between the load and the halt, and one of them ends the halt, if any comes.
  The loop may wait for ever, so it has fuel.
\<close>

record arrivals =
  before_load :: "apic_irq list"
  before_halt :: "apic_irq list"
  ends_halt :: "apic_irq option"

fun wait_triggered ::
    "(nat \<Rightarrow> arrivals) \<Rightarrow> nat \<Rightarrow> nat \<Rightarrow> ('kb, 'a) irq_scheme \<Rightarrow> ('kb, 'a) irq_scheme res option" where
  "wait_triggered wake 0 i s = None"
| "wait_triggered wake (Suc fuel) i s =
     bind_run (apic_deliver_all (before_load (wake i)) s) (\<lambda>s.
       if TRIGGERED_ONCE s then Some (Inr s)
       else bind_run (apic_deliver_all (before_halt (wake i)) s) (\<lambda>s.
         case ends_halt (wake i) of
           None \<Rightarrow> None
         | Some q \<Rightarrow>
             if is_interrupts_enabled s
             then bind_run (apic_deliver q s) (wait_triggered wake fuel (Suc i))
             else None))"

definition calibrated_frequency :: "usize \<Rightarrow> usize res" where
  "calibrated_frequency pit_end =
     (let elapsed = ucast TIMER_DELAY - pit_end
      in if elapsed = 0 then Inl DivideByZero
         else Inr (ucast TIMER_DELAY div elapsed * PIT_DIVIDEND))"

definition lapic_config :: "u64 \<Rightarrow> u64 \<Rightarrow> lapic" where
  "lapic_config physical_memory_offset xapic_base =
     \<lparr>timer_vector = ucast (as_u8 ApicTimer), error_vector = ucast (as_u8 ApicError),
      spurious_vector = ucast (as_u8 ApicSpurious),
      lapic_base = physical_memory_offset + xapic_base\<rparr>"

definition start_calibration ::
    "(lapic \<Rightarrow> string + lapic) \<Rightarrow> u64 \<Rightarrow> u64 \<Rightarrow> ('kb, 'a) irq_scheme \<Rightarrow> ('kb, 'a) irq_scheme res" where
  "start_calibration build xapic_base physical_memory_offset s =
     bind_res
       (case build (lapic_config physical_memory_offset xapic_base) of
          Inl err \<Rightarrow> Inl (Panicked err)
        | Inr l \<Rightarrow> Inr (s\<lparr>LAPIC := Some l\<rparr>)) (\<lambda>s.
     bind_res (on_lapic (SetTimerDivide Div64) s) (\<lambda>s.
     bind_res (on_lapic (SetTimerInitial (ucast TIMER_DELAY)) s) (\<lambda>s.
     bind_res (on_lapic (SetTimerMode OneShot) s) (\<lambda>s.
     bind_res (write_channel0_count TIMER_DELAY s) (\<lambda>(_, s).
     bind_res (on_lapic LapicEnable s) (\<lambda>s.
     Inr (pic_disable s)))))))"

definition finish_calibration :: "('kb, 'a) irq_scheme \<Rightarrow> ('kb, 'a) irq_scheme res" where
  "finish_calibration s =
     bind_res (read_pit_count s) (\<lambda>(n, s).
     bind_res (irq_println (ascii ''pit end: '' @ decimal (unat n)) s) (\<lambda>s.
     bind_res (calibrated_frequency (ucast n)) (\<lambda>frequency.
     Inr (set_handler_fn (as_usize ApicTimer) ApicTimerHandler
       (s\<lparr>APIC_TIMER_FREQUENCY := frequency\<rparr>)))))"

definition init_apic ::
    "(lapic \<Rightarrow> string + lapic) \<Rightarrow> u64 \<Rightarrow> (nat \<Rightarrow> arrivals) \<Rightarrow>
     nat \<Rightarrow> u64 \<Rightarrow> ('kb, 'a) irq_scheme \<Rightarrow> ('kb, 'a) irq_scheme res option" where
  "init_apic build xapic_base wake fuel physical_memory_offset s =
     (case start_calibration build xapic_base physical_memory_offset s of
        Inl e \<Rightarrow> Some (Inl e)
      | Inr s \<Rightarrow>
          map_option (\<lambda>r. bind_res r finish_calibration) (wait_triggered wake fuel 0 s))"

end
