(* ===== verification/Context_Switch.thy ===== *)
theory Context_Switch
  imports Sched_Invariant Interrupts
begin

unbundle bit_operations_syntax

text \<open>
  The context switch: interrupt entry and \<^verbatim>\<open>iretq\<close> as the processor performs them,
  and the assembly of \<^verbatim>\<open>apic_timer_handler\<close> (src/src/interrupts.rs) instruction by
  instruction, over the registers, the memory, the scheduling state and the task
  state segment. The stack memory that the called Rust functions use below the
  stack pointer is a parameter.
\<close>

section \<open>Processor state\<close>

record cpu =
  rax :: u64
  rbx :: u64
  rcx :: u64
  rdx :: u64
  rsi :: u64
  rdi :: u64
  rbp :: u64
  rsp :: u64
  r8 :: u64
  r9 :: u64
  r10 :: u64
  r11 :: u64
  r12 :: u64
  r13 :: u64
  r14 :: u64
  r15 :: u64
  rip :: u64
  reg_cs :: u16
  reg_ss :: u16
  reg_ds :: u16
  reg_es :: u16
  reg_fs :: u16
  reg_gs :: u16

record 'kb kernel = "'kb irq" +
  CPU :: cpu
  SCHED :: sched
  SEGMENTS :: gdt_state

abbreviation memory :: "('kb, 'a) kernel_scheme \<Rightarrow> mem" where
  "memory s \<equiv> smem (SCHED s)"

definition set_memory :: "mem \<Rightarrow> ('kb, 'a) kernel_scheme \<Rightarrow> ('kb, 'a) kernel_scheme" where
  "set_memory m s = s\<lparr>SCHED := (SCHED s)\<lparr>smem := m\<rparr>\<rparr>"

definition push_all :: "u64 list \<Rightarrow> ('kb, 'a) kernel_scheme \<Rightarrow> ('kb, 'a) kernel_scheme" where
  "push_all vs s =
     (let (m, sp) = fold push vs (memory s, rsp (CPU s))
      in set_memory m (s\<lparr>CPU := (CPU s)\<lparr>rsp := sp\<rparr>\<rparr>))"

section \<open>Interrupt entry and return\<close>

text \<open>
  Delivery through an interrupt gate in 64-bit mode: the stack is that of the task
  state segment when the privilege level changes, aligned down to 16 bytes; five
  words are pushed; the interrupt flag and the flags TF, NT, RF and VM are cleared.
\<close>

definition interrupt_entry :: "u64 \<Rightarrow> ('kb, 'a) kernel_scheme \<Rightarrow> ('kb, 'a) kernel_scheme" where
  "interrupt_entry handler_addr s =
     (let c = CPU s;
          same = (reg_cs c AND 3 = 0);
          sp = (if same then rsp c else privilege_stack_table (TSS (SEGMENTS s)) ! 0) AND NOT 0xF;
          s = push_all [ucast (reg_ss c), rsp c, rflags s, ucast (reg_cs c), rip c]
                (s\<lparr>CPU := c\<lparr>rsp := sp\<rparr>\<rparr>)
      in s\<lparr>CPU := (CPU s)\<lparr>rip := handler_addr, reg_cs := 8, reg_ss := (if same then reg_ss c else 0)\<rparr>,
           rflags := rflags s AND NOT 0x34300\<rparr>)"

text \<open>\<^verbatim>\<open>iretq\<close> on a frame whose selectors the processor accepts.\<close>

definition iretq :: "('kb, 'a) kernel_scheme \<Rightarrow> ('kb, 'a) kernel_scheme" where
  "iretq s =
     (let (ip, ms) = pop (memory s, rsp (CPU s));
          (code, ms) = pop ms;
          (fl, ms) = pop ms;
          (sp, ms) = pop ms;
          (stack, ms) = pop ms
      in s\<lparr>CPU := (CPU s)\<lparr>rip := ip, reg_cs := ucast code, rsp := sp, reg_ss := ucast stack\<rparr>,
           rflags := fl\<rparr>)"

text \<open>
  What the processor accepts: the code selector names a code segment of its privilege level;
  the stack selector has the same level and names the writable data segment, which is
  the user's, or is null and the level is not 3. Otherwise \<^verbatim>\<open>iretq\<close> raises the general
  protection fault, whose handler panics.
\<close>

definition selectors_ok :: "u16 \<Rightarrow> u16 \<Rightarrow> bool" where
  "selectors_ok code stack \<longleftrightarrow>
     (code AND 3 = 0 \<and> gdt_entry code = Some KernelCodeSegment \<or>
      code AND 3 = 3 \<and> gdt_entry code = Some UserCodeSegment) \<and>
     stack AND 3 = code AND 3 \<and>
     (if drop_bit 2 stack = 0 then code AND 3 \<noteq> 3
      else code AND 3 = 3 \<and> gdt_entry stack = Some UserDataSegment)"

definition iretq_checked ::
    "string \<Rightarrow> string \<Rightarrow> u64 \<Rightarrow> ('kb, 'a) kernel_scheme \<Rightarrow> ('kb, 'a) kernel_scheme res" where
  "iretq_checked frame code fault_addr s =
     (let t = iretq s
      in if selectors_ok (reg_cs (CPU t)) (reg_ss (CPU t)) then Inr t
         else exception_handler GeneralProtectionFault frame code (interrupt_entry fault_addr s))"

section \<open>The timer handler\<close>

definition save_registers :: "('kb, 'a) kernel_scheme \<Rightarrow> ('kb, 'a) kernel_scheme" where
  "save_registers s =
     (let c = CPU s
      in push_all [rax c, rbx c, rcx c, rdx c, rsi c, rdi c, r8 c, r9 c, r10 c, r11 c, r12 c,
                   r13 c, r14 c, r15 c, rbp c] s)"

definition restore_registers :: "('kb, 'a) kernel_scheme \<Rightarrow> ('kb, 'a) kernel_scheme" where
  "restore_registers s =
     (let (v_rbp, ms) = pop (memory s, rsp (CPU s));
          (v_r15, ms) = pop ms;
          (v_r14, ms) = pop ms;
          (v_r13, ms) = pop ms;
          (v_r12, ms) = pop ms;
          (v_r11, ms) = pop ms;
          (v_r10, ms) = pop ms;
          (v_r9, ms) = pop ms;
          (v_r8, ms) = pop ms;
          (v_rdi, ms) = pop ms;
          (v_rsi, ms) = pop ms;
          (v_rdx, ms) = pop ms;
          (v_rcx, ms) = pop ms;
          (v_rbx, ms) = pop ms;
          (v_rax, ms) = pop ms
      in s\<lparr>CPU := (CPU s)\<lparr>rax := v_rax, rbx := v_rbx, rcx := v_rcx, rdx := v_rdx, rsi := v_rsi,
             rdi := v_rdi, rbp := v_rbp, rsp := snd ms, r8 := v_r8, r9 := v_r9, r10 := v_r10,
             r11 := v_r11, r12 := v_r12, r13 := v_r13, r14 := v_r14, r15 := v_r15\<rparr>\<rparr>)"

text \<open>What a called function leaves in the memory below the stack pointer.\<close>

definition call_scratch ::
    "(u64 \<Rightarrow> mem \<Rightarrow> mem) \<Rightarrow> ('kb, 'a) kernel_scheme \<Rightarrow> ('kb, 'a) kernel_scheme" where
  "call_scratch scratch s = set_memory (scratch (rsp (CPU s)) (memory s)) s"

text \<open>
  The first half of the handler, up to \<^verbatim>\<open>mov [rax], rsp\<close>: the result is the pointer
  the stack pointer was stored through.
\<close>

definition timer_save ::
    "(u64 \<Rightarrow> mem \<Rightarrow> mem) \<Rightarrow> allocation \<Rightarrow> u64 \<Rightarrow> ('kb, 'a) kernel_scheme \<Rightarrow>
     (u64 \<times> ('kb, 'a) kernel_scheme) res" where
  "timer_save scratch al idle_fn s =
     bind_res (restart_apic (save_registers s)) (\<lambda>s.
     let s = call_scratch scratch s
     in bind_res (current_task_ptr al idle_fn (SCHED s)) (\<lambda>(p, sc).
        let s = call_scratch scratch (s\<lparr>SCHED := sc\<rparr>)
        in Inr (p, s\<lparr>SCHED := store_kernel_rsp p (rsp (CPU s)) (SCHED s)\<rparr>)))"

text \<open>
  The second half, from \<^verbatim>\<open>mov rsp, [rax]\<close> up to the last pop, for the pointer
  \<^verbatim>\<open>select_next_task\<close> returned. A pointer to no boxed state is a wild read. The store
  through \<^verbatim>\<open>tss_ptr\<close>'s result lands in that function's dead frame below the stack pointer.
\<close>

definition timer_restore ::
    "(u64 \<Rightarrow> mem \<Rightarrow> mem) \<Rightarrow> u64 \<Rightarrow> ('kb, 'a) kernel_scheme \<Rightarrow> ('kb, 'a) kernel_scheme res" where
  "timer_restore scratch p s =
     (case boxes (SCHED s) p of
        None \<Rightarrow> Inl (Panicked ''wild task pointer'')
      | Some st \<Rightarrow>
          (let s = s\<lparr>CPU := (CPU s)\<lparr>rsp := kernel_rsp st, rbx := kernel_top_rsp st\<rparr>\<rparr>;
               s = call_scratch scratch (push_all [rbx (CPU s)] s);
               loc = tss_ptr (SEGMENTS s);
               (v, m, sp) = pop (memory s, rsp (CPU s));
               s = s\<lparr>CPU := (CPU s)\<lparr>rbx := v, rsp := sp\<rparr>\<rparr>;
               s = call_scratch scratch (s\<lparr>SEGMENTS := store_rsp0 loc (rbx (CPU s)) (SEGMENTS s)\<rparr>);
               s = s\<lparr>CPU := (CPU s)\<lparr>reg_ds := 0, reg_es := 0, reg_fs := 0, reg_gs := 0\<rparr>\<rparr>
           in Inr (restore_registers s)))"

text \<open>With the final \<^verbatim>\<open>iretq\<close>.\<close>

definition timer_resume ::
    "(u64 \<Rightarrow> mem \<Rightarrow> mem) \<Rightarrow> u64 \<Rightarrow> ('kb, 'a) kernel_scheme \<Rightarrow> ('kb, 'a) kernel_scheme res" where
  "timer_resume scratch p s = bind_res (timer_restore scratch p s) (\<lambda>s. Inr (iretq s))"

definition apic_timer_handler ::
    "(u64 \<Rightarrow> mem \<Rightarrow> mem) \<Rightarrow> allocation \<Rightarrow> allocation \<Rightarrow> u64 \<Rightarrow>
     ('kb, 'a) kernel_scheme \<Rightarrow> ('kb, 'a) kernel_scheme res" where
  "apic_timer_handler scratch al al' idle_fn s =
     bind_res (timer_save scratch al idle_fn s) (\<lambda>(_, s).
     let (p, sc) = select_next_task al' idle_fn (SCHED s)
     in timer_resume scratch p (call_scratch scratch (s\<lparr>SCHED := sc\<rparr>)))"

section \<open>Frames on the stack\<close>

lemma set_memory_simps [simp]:
  "memory (set_memory m s) = m" "CPU (set_memory m s) = CPU s" "rflags (set_memory m s) = rflags s"
  "SEGMENTS (set_memory m s) = SEGMENTS s" "boxes (SCHED (set_memory m s)) = boxes (SCHED s)"
  "SCHED (set_memory m s) = (SCHED s)\<lparr>smem := m\<rparr>" "LAPIC (set_memory m s) = LAPIC s"
  by (simp_all add: set_memory_def)

lemma pop_numeral:
  "pop (m, slot a (numeral n)) = (read64 m (slot a (numeral n)), m, slot a (pred_numeral n))"
  "pop (m, slot a (Suc 0)) = (read64 m (slot a 1), m, a)"
  by (simp_all add: numeral_eq_Suc pop_slot)

text \<open>The twenty words of a saved context, from the top of the frame down.\<close>

definition context_words :: "cpu \<Rightarrow> u64 \<Rightarrow> u64 list" where
  "context_words c fl =
     [ucast (reg_ss c), rsp c, fl, ucast (reg_cs c), rip c, rax c, rbx c, rcx c, rdx c, rsi c,
      rdi c, r8 c, r9 c, r10 c, r11 c, r12 c, r13 c, r14 c, r15 c, rbp c]"

definition agree_frame :: "u64 \<Rightarrow> mem \<Rightarrow> mem \<Rightarrow> bool" where
  "agree_frame sp m m' \<longleftrightarrow> (\<forall>i < 160. m' (sp + of_nat i) = m (sp + of_nat i))"

lemma slot_offset: "k \<le> n \<Longrightarrow> slot a k = slot a n + of_nat (8 * (n - k))"
  by (simp add: slot_def of_nat_diff algebra_simps)

lemma agree_frame_read:
  assumes "agree_frame (slot a 20) m m'" "1 \<le> k" "k \<le> 20"
  shows "read64 m' (slot a k) = read64 m (slot a k)"
proof (rule read64_cong)
  fix i :: nat
  assume "i < 8"
  have "slot a k + of_nat i = slot a 20 + of_nat (8 * (20 - k) + i)"
    using slot_offset [OF assms(3), of a] by simp
  moreover have "8 * (20 - k) + i < 160"
    using \<open>i < 8\<close> assms(2) by linarith
  ultimately show "m' (slot a k + of_nat i) = m (slot a k + of_nat i)"
    using assms(1) unfolding agree_frame_def by metis
qed

lemma iretq_restore:
  assumes "rsp (CPU s) = slot a 20"
  shows "CPU (iretq (restore_registers s)) = (CPU s)
     \<lparr>rax := read64 (memory s) (slot a 6), rbx := read64 (memory s) (slot a 7),
      rcx := read64 (memory s) (slot a 8), rdx := read64 (memory s) (slot a 9),
      rsi := read64 (memory s) (slot a 10), rdi := read64 (memory s) (slot a 11),
      rbp := read64 (memory s) (slot a 20), rsp := read64 (memory s) (slot a 2),
      r8 := read64 (memory s) (slot a 12), r9 := read64 (memory s) (slot a 13),
      r10 := read64 (memory s) (slot a 14), r11 := read64 (memory s) (slot a 15),
      r12 := read64 (memory s) (slot a 16), r13 := read64 (memory s) (slot a 17),
      r14 := read64 (memory s) (slot a 18), r15 := read64 (memory s) (slot a 19),
      rip := read64 (memory s) (slot a 5), reg_cs := ucast (read64 (memory s) (slot a 4)),
      reg_ss := ucast (read64 (memory s) (slot a 1))\<rparr>"
    and "rflags (iretq (restore_registers s)) = read64 (memory s) (slot a 3)"
    and "SEGMENTS (iretq (restore_registers s)) = SEGMENTS s"
  using assms by (simp_all add: iretq_def restore_registers_def pop_numeral)

text \<open>
  The calling convention: what a called function uses lies below the stack pointer,
  so the words above it (here, up to a page) are as before the call.
\<close>

definition keeps_above :: "(u64 \<Rightarrow> mem \<Rightarrow> mem) \<Rightarrow> bool" where
  "keeps_above scratch \<longleftrightarrow>
     (\<forall>sp m. \<forall>i < 4096. scratch sp m (sp + of_nat i) = m (sp + of_nat i))"

lemma keeps_above_read:
  assumes "keeps_above scratch" "k \<le> n" "n \<le> 100"
  shows "read64 (scratch (slot a n) m) (slot a k) = read64 m (slot a k)"
proof (rule read64_cong)
  fix i :: nat
  assume "i < 8"
  have "slot a k + of_nat i = slot a n + of_nat (8 * (n - k) + i)"
    using slot_offset [OF assms(2), of a] by simp
  moreover have "8 * (n - k) + i < 4096"
    using \<open>i < 8\<close> assms(3) by linarith
  ultimately show "scratch (slot a n) m (slot a k + of_nat i) = m (slot a k + of_nat i)"
    using assms(1) unfolding keeps_above_def by metis
qed

lemma timer_resume_frame:
  assumes "keeps_above scratch" "boxes (SCHED s) p = Some st" "kernel_rsp st = slot a 20"
  shows "\<exists>s'. timer_resume scratch p s = Inr s' \<and> CPU s' =
    \<lparr>rax = read64 (memory s) (slot a 6), rbx = read64 (memory s) (slot a 7),
     rcx = read64 (memory s) (slot a 8), rdx = read64 (memory s) (slot a 9),
     rsi = read64 (memory s) (slot a 10), rdi = read64 (memory s) (slot a 11),
     rbp = read64 (memory s) (slot a 20), rsp = read64 (memory s) (slot a 2),
     r8 = read64 (memory s) (slot a 12), r9 = read64 (memory s) (slot a 13),
     r10 = read64 (memory s) (slot a 14), r11 = read64 (memory s) (slot a 15),
     r12 = read64 (memory s) (slot a 16), r13 = read64 (memory s) (slot a 17),
     r14 = read64 (memory s) (slot a 18), r15 = read64 (memory s) (slot a 19),
     rip = read64 (memory s) (slot a 5), reg_cs = ucast (read64 (memory s) (slot a 4)),
     reg_ss = ucast (read64 (memory s) (slot a 1)),
     reg_ds = 0, reg_es = 0, reg_fs = 0, reg_gs = 0\<rparr> \<and>
    rflags s' = read64 (memory s) (slot a 3) \<and> SEGMENTS s' = SEGMENTS s"
proof -
  let ?m1 = "write64 (slot a 21) (kernel_top_rsp st) (memory s)"
  let ?m2 = "scratch (slot a 21) ?m1"
  let ?m3 = "scratch (slot a 20) ?m2"
  have reads: "read64 ?m3 (slot a k) = read64 (memory s) (slot a k)" if "k \<le> 20" for k
    using that assms(1) slot_apart [of 21 k a]
    by (simp add: keeps_above_read read64_write64_apart)
  have sp: "slot a 20 - 8 = slot a 21"
    by (simp add: slot_def)
  define u where "u = (set_memory ?m3 s)\<lparr>CPU := (CPU s)\<lparr>rbx := read64 ?m2 (slot a 21),
    rsp := slot a 20, reg_ds := 0, reg_es := 0, reg_fs := 0, reg_gs := 0\<rparr>\<rparr>"
  have "timer_resume scratch p s = Inr (iretq (restore_registers u))"
    using assms(2,3)
    by (simp add: timer_resume_def timer_restore_def push_all_def push_def call_scratch_def sp pop_numeral Let_def
        tss_ptr_def store_rsp0_def u_def set_memory_def)
  moreover have "rsp (CPU u) = slot a 20" "memory u = ?m3" "SEGMENTS u = SEGMENTS s"
    by (simp_all add: u_def)
  moreover have "CPU u = (CPU s)\<lparr>rbx := read64 ?m2 (slot a 21), rsp := slot a 20,
    reg_ds := 0, reg_es := 0, reg_fs := 0, reg_gs := 0\<rparr>"
    by (simp add: u_def)
  ultimately show ?thesis
    using iretq_restore [of u a] reads by simp
qed

text \<open>The stack selectors that are accepted with each of the two code selectors.\<close>

lemma null_selector: "ss AND 3 = 0 \<and> drop_bit 2 ss = 0 \<longleftrightarrow> (ss :: u16) = 0"
proof -
  have "ss = push_bit 2 (drop_bit 2 ss) + (ss AND 3)"
    using bits_ident [of 2 ss] by (simp add: take_bit_eq_mask mask_eq_exp_minus_1)
  then show ?thesis by auto
qed

lemma user_stack_selector: "ss AND 3 = 3 \<and> ss AND 4 = 0 \<and> drop_bit 3 ss = 3 \<longleftrightarrow> (ss :: u16) = 0x1B"
proof -
  have "ss AND 7 = (ss AND 3) OR (ss AND 4)"
    using bit.conj_disj_distrib [of ss 3 4] by simp
  moreover have "ss = push_bit 3 (drop_bit 3 ss) + (ss AND 7)"
    using bits_ident [of 3 ss] by (simp add: take_bit_eq_mask mask_eq_exp_minus_1)
  ultimately show ?thesis by auto
qed

lemma gdt_entry_user_data: "gdt_entry ss = Some UserDataSegment \<longleftrightarrow> ss AND 4 = 0 \<and> drop_bit 3 ss = 3"
  by (simp add: gdt_entry_def)

lemma selectors_ok_simps:
  "selectors_ok 8 ss \<longleftrightarrow> ss = 0" "selectors_ok 0x13 ss \<longleftrightarrow> ss = 0x1B"
proof -
  have "gdt_entry 8 = Some KernelCodeSegment" "gdt_entry 0x13 = Some UserCodeSegment"
    by (simp_all add: gdt_entry_def)
  then show "selectors_ok 8 ss \<longleftrightarrow> ss = 0" "selectors_ok 0x13 ss \<longleftrightarrow> ss = 0x1B"
    using null_selector [of ss] user_stack_selector [of ss]
    by (auto simp: selectors_ok_def gdt_entry_user_data)
qed

text \<open>The stack an interrupt uses.\<close>

definition entry_stack :: "('kb, 'a) kernel_scheme \<Rightarrow> u64" where
  "entry_stack s =
     (if reg_cs (CPU s) AND 3 = 0 then rsp (CPU s)
      else privilege_stack_table (TSS (SEGMENTS s)) ! 0) AND NOT 0xF"

lemma push_all_frame:
  "(memory (push_all vs s), rsp (CPU (push_all vs s))) = fold push vs (memory s, rsp (CPU s))"
  by (simp add: push_all_def split: prod.split)

lemma push_all_CPU: "CPU (push_all vs s) = (CPU s)\<lparr>rsp := snd (fold push vs (memory s, rsp (CPU s)))\<rparr>"
  by (simp add: push_all_def split: prod.split)

lemma push_all_SCHED:
  "SCHED (push_all vs s) = (SCHED s)\<lparr>smem := fst (fold push vs (memory s, rsp (CPU s)))\<rparr>"
  by (simp add: push_all_def split: prod.split)

lemma push_all_keeps [simp]:
  "rflags (push_all vs s) = rflags s" "SEGMENTS (push_all vs s) = SEGMENTS s"
  "LAPIC (push_all vs s) = LAPIC s" "lapic_log (push_all vs s) = lapic_log s"
  "APIC_TIMER_FREQUENCY (push_all vs s) = APIC_TIMER_FREQUENCY s"
  by (simp_all add: push_all_def set_memory_def split: prod.split)

lemma interrupt_entry_frame:
  "(memory (interrupt_entry h s), rsp (CPU (interrupt_entry h s))) =
     fold push (take 5 (context_words (CPU s) (rflags s))) (memory s, slot (entry_stack s) 0)"
  unfolding interrupt_entry_def entry_stack_def Let_def
  by (simp add: push_all_CPU push_all_SCHED context_words_def del: fold.simps)

lemma interrupt_entry_registers:
  "map (\<lambda>r. r (CPU (interrupt_entry h s)))
     [rax, rbx, rcx, rdx, rsi, rdi, r8, r9, r10, r11, r12, r13, r14, r15, rbp] =
   drop 5 (context_words (CPU s) (rflags s))"
  by (simp add: interrupt_entry_def Let_def push_all_CPU context_words_def del: fold.simps)

lemma saved_context:
  "(memory (save_registers (interrupt_entry h s)), rsp (CPU (save_registers (interrupt_entry h s)))) =
     fold push (context_words (CPU s) (rflags s)) (memory s, slot (entry_stack s) 0)"
proof -
  have "fold push (context_words (CPU s) (rflags s)) =
      fold push (take 5 (context_words (CPU s) (rflags s)) @ drop 5 (context_words (CPU s) (rflags s)))"
    by (simp only: append_take_drop_id)
  then show ?thesis
    using interrupt_entry_registers [of h s]
    by (simp only: save_registers_def Let_def push_all_frame fold_append comp_apply
        interrupt_entry_frame [of h s, symmetric] list.map)
qed

lemma saved_word:
  assumes "k < 20"
  shows "read64 (memory (save_registers (interrupt_entry h s))) (slot (entry_stack s) (Suc k)) =
    context_words (CPU s) (rflags s) ! k"
    and "rsp (CPU (save_registers (interrupt_entry h s))) = slot (entry_stack s) 20"
proof -
  let ?ws = "context_words (CPU s) (rflags s)" and ?a = "entry_stack s"
  have len: "length ?ws = 20"
    by (simp add: context_words_def)
  have f: "fold push ?ws (memory s, slot ?a 0) =
      (store_slots ?a (zip [Suc 0..<Suc 0 + 20] ?ws) (memory s), slot ?a 20)"
    using fold_push [of ?ws "memory s" ?a 0] len by simp
  then show "rsp (CPU (save_registers (interrupt_entry h s))) = slot ?a 20"
    using saved_context [of h s] by simp
  have "map_of (zip [Suc 0..<Suc 0 + 20] ?ws) (Suc k) = Some (?ws ! k)"
    using map_of_zip_nth [of "[Suc 0..<Suc 0 + 20]" ?ws k] len assms by simp
  moreover have "set (zip [Suc 0..<Suc 0 + 20] ?ws) \<subseteq> {Suc 0..<21} \<times> UNIV"
    by (auto dest: set_zip_leftD simp del: upt_Suc)
  ultimately show "read64 (memory (save_registers (interrupt_entry h s))) (slot ?a (Suc k)) = ?ws ! k"
    using saved_context [of h s] f len assms
      read_store_slots [of "zip [Suc 0..<Suc 0 + 20] ?ws" "Suc k" ?a "memory s"]
    by (fastforce simp del: upt_Suc)
qed

end
