(* ===== verification/Syscall.thy ===== *)
theory Syscall
  imports Context_Switch
begin

unbundle bit_operations_syntax

text \<open>
  System calls: the argument block and its dispatch (src/src/syscall.rs,
  src/src/error_codes.rs), the assembly of \<^verbatim>\<open>syscall_handler\<close>
  (src/src/interrupts.rs) and the calling side \<^verbatim>\<open>do_syscall_0\<close> to \<^verbatim>\<open>do_syscall_6\<close>.
\<close>

section \<open>Arguments and dispatch\<close>

datatype error = EIO | ENOSYS

primrec error_usize :: "error \<Rightarrow> usize" where
  "error_usize EIO = 5"
| "error_usize ENOSYS = 38"

record syscall_args =
  syscall_id :: usize
  arg0 :: usize
  arg1 :: usize
  arg2 :: usize
  arg3 :: usize
  arg4 :: usize
  arg5 :: usize
  sys_error :: usize

definition STDOUT_FD :: usize where "STDOUT_FD = 1"
definition SYS_WRITE :: usize where "SYS_WRITE = 1"

text \<open>The bytes of a \<^verbatim>\<open>str\<close> made from a pointer and a length.\<close>

definition read_bytes :: "mem \<Rightarrow> u64 \<Rightarrow> nat \<Rightarrow> bytes" where
  "read_bytes m p n = map (\<lambda>i. m (p + of_nat i)) [0..<n]"

text \<open>
  \<^verbatim>\<open>String::from\<close> copies the bytes into a block of the heap, which is given back when the
  string is dropped. The empty string has no block; a capacity above \<^verbatim>\<open>isize::MAX\<close> panics.
  Whether there is room for a block of a length depends on the boxes in use, and is a
  parameter.
\<close>

definition string_from ::
    "(u64 set \<Rightarrow> usize \<Rightarrow> bool) \<Rightarrow> u64 \<Rightarrow> usize \<Rightarrow> ('kb, 'a) kernel_scheme \<Rightarrow> bytes res" where
  "string_from room msg msg_len s =
     (if 2 ^ 63 \<le> unat msg_len then Inl (Panicked ''capacity overflow'')
      else if msg_len \<noteq> 0 \<and> \<not> room (dom (boxes (SCHED s))) msg_len then alloc_error_handler msg_len 1
      else Inr (read_bytes (memory s) msg (unat msg_len)))"

definition handle_write_fd ::
    "(u64 set \<Rightarrow> usize \<Rightarrow> bool) \<Rightarrow> usize \<Rightarrow> u64 \<Rightarrow> usize \<Rightarrow>
     ('kb, 'a) kernel_scheme \<Rightarrow> (usize \<times> ('kb, 'a) kernel_scheme) res" where
  "handle_write_fd room fd msg msg_len s =
     (if fd = STDOUT_FD then
        bind_res (string_from room msg msg_len s) (\<lambda>t.
        bind_res (irq_println t s) (\<lambda>s. Inr (0, s)))
      else Inr (error_usize EIO, s))"

definition handle_write ::
    "(u64 set \<Rightarrow> usize \<Rightarrow> bool) \<Rightarrow> syscall_args \<Rightarrow>
     ('kb, 'a) kernel_scheme \<Rightarrow> (syscall_args \<times> ('kb, 'a) kernel_scheme) res" where
  "handle_write room args s =
     bind_res (handle_write_fd room (arg0 args) (arg1 args) (arg2 args) s) (\<lambda>(result, s).
     Inr (args\<lparr>sys_error := result\<rparr>, s))"

definition handle_syscall ::
    "(u64 set \<Rightarrow> usize \<Rightarrow> bool) \<Rightarrow> syscall_args \<Rightarrow>
     ('kb, 'a) kernel_scheme \<Rightarrow> (syscall_args \<times> ('kb, 'a) kernel_scheme) res" where
  "handle_syscall room args s =
     (if syscall_id args = 1 then handle_write room args s else Inl Unimplemented)"

section \<open>The handler\<close>

text \<open>The argument block as \<^verbatim>\<open>repr(C)\<close> lays it out in memory.\<close>

definition read_args :: "mem \<Rightarrow> u64 \<Rightarrow> syscall_args" where
  "read_args m p =
     \<lparr>syscall_id = read64 m p, arg0 = read64 m (p + 8), arg1 = read64 m (p + 16),
      arg2 = read64 m (p + 24), arg3 = read64 m (p + 32), arg4 = read64 m (p + 40),
      arg5 = read64 m (p + 48), sys_error = read64 m (p + 56)\<rparr>"

definition pop_args :: "('kb, 'a) kernel_scheme \<Rightarrow> ('kb, 'a) kernel_scheme" where
  "pop_args s =
     (let (v_rdi, ms) = pop (memory s, rsp (CPU s) + 8);
          (v_rsi, ms) = pop ms;
          (v_rdx, ms) = pop ms;
          (v_rcx, ms) = pop ms;
          (v_r8, ms) = pop ms;
          (v_r9, ms) = pop ms;
          (v_rax, ms) = pop ms
      in s\<lparr>CPU := (CPU s)\<lparr>rax := v_rax, rcx := v_rcx, rdx := v_rdx, rsi := v_rsi, rdi := v_rdi,
             rsp := snd ms, r8 := v_r8, r9 := v_r9\<rparr>\<rparr>)"

text \<open>
  A called function may leave anything in the registers its caller has to save.
\<close>

definition call_clobber ::
    "(cpu \<Rightarrow> cpu) \<Rightarrow> ('kb, 'a) kernel_scheme \<Rightarrow> ('kb, 'a) kernel_scheme" where
  "call_clobber clob s =
     (let c = clob (CPU s)
      in s\<lparr>CPU := (CPU s)\<lparr>rax := rax c, rcx := rcx c, rdx := rdx c, rsi := rsi c, rdi := rdi c,
             r8 := r8 c, r9 := r9 c, r10 := r10 c, r11 := r11 c\<rparr>\<rparr>)"

text \<open>
  What a system call takes from outside the repository: the code the compiler puts around
  an \<^verbatim>\<open>x86-interrupt\<close> function, as the registers at the return from those at entry and
  those after the body; what called functions leave in the registers and in the memory
  they may use, the stack below the pointer and the block of the string; and the room the
  heap has for strings.
\<close>

record syscall_env =
  epilogue :: "cpu \<Rightarrow> cpu \<Rightarrow> cpu"
  clobber :: "cpu \<Rightarrow> cpu"
  callee_stack :: "u64 \<Rightarrow> mem \<Rightarrow> mem"
  string_room :: "u64 set \<Rightarrow> usize \<Rightarrow> bool"

text \<open>
  The body of \<^verbatim>\<open>syscall_handler\<close> up to the last pop. The callee updates the argument block
  in place: only its error word changes.
\<close>

definition syscall_body ::
    "('p) syscall_env_scheme \<Rightarrow> ('kb, 'a) kernel_scheme \<Rightarrow> ('kb, 'a) kernel_scheme res" where
  "syscall_body se s =
     (let s = disable_interrupts s;
          c = CPU s;
          s = push_all [0, r9 c, r8 c, rcx c, rdx c, rsi c, rdi c, rax c] s;
          sp = rsp (CPU s)
      in bind_res (handle_syscall (string_room se) (read_args (memory s) sp) s) (\<lambda>(args, s).
         let s = set_memory (write64 (sp + 56) (sys_error args) (memory s)) s
         in Inr (pop_args (call_clobber (clobber se) (call_scratch (callee_stack se) s)))))"

definition syscall_handler ::
    "('p) syscall_env_scheme \<Rightarrow> ('kb, 'a) kernel_scheme \<Rightarrow> ('kb, 'a) kernel_scheme res" where
  "syscall_handler se s =
     bind_res (syscall_body se s) (\<lambda>s.
     bind_res (end_of_interrupt (as_u8 Syscall) s) (\<lambda>s.
     let s = call_clobber (clobber se) (call_scratch (callee_stack se) s)
     in Inr (call_clobber (clobber se) (enable_interrupts s))))"

text \<open>\<^verbatim>\<open>int 0x80\<close>: entry, the handler and the return.\<close>

definition int_0x80 ::
    "('p) syscall_env_scheme \<Rightarrow> u64 \<Rightarrow> ('kb, 'a) kernel_scheme \<Rightarrow> ('kb, 'a) kernel_scheme res" where
  "int_0x80 se handler_addr s =
     (let e = interrupt_entry handler_addr s
      in bind_res (syscall_handler se e) (\<lambda>t.
         Inr (iretq (t\<lparr>CPU := epilogue se (CPU e) (CPU t)\<rparr>))))"

section \<open>The calling side\<close>

definition syscall_result ::
    "('kb, 'a) kernel_scheme res \<Rightarrow> (usize \<times> ('kb, 'a) kernel_scheme) res" where
  "syscall_result r = bind_res r (\<lambda>s. Inr (rax (CPU s), s))"

definition do_syscall_0 where
  "do_syscall_0 se h n s =
     syscall_result (int_0x80 se h (s\<lparr>CPU := (CPU s)\<lparr>rax := n\<rparr>\<rparr>))"

definition do_syscall_1 where
  "do_syscall_1 se h n a0 s =
     syscall_result (int_0x80 se h (s\<lparr>CPU := (CPU s)\<lparr>rax := n, rdi := a0\<rparr>\<rparr>))"

definition do_syscall_2 where
  "do_syscall_2 se h n a0 a1 s =
     syscall_result (int_0x80 se h (s\<lparr>CPU := (CPU s)\<lparr>rax := n, rdi := a0, rsi := a1\<rparr>\<rparr>))"

definition do_syscall_3 where
  "do_syscall_3 se h n a0 a1 a2 s =
     syscall_result (int_0x80 se h (s\<lparr>CPU := (CPU s)\<lparr>rax := n, rdi := a0, rsi := a1, rdx := a2\<rparr>\<rparr>))"

definition do_syscall_4 where
  "do_syscall_4 se h n a0 a1 a2 a3 s =
     syscall_result (int_0x80 se h (s\<lparr>CPU := (CPU s)
       \<lparr>rax := n, rdi := a0, rsi := a1, rdx := a2, rcx := a3\<rparr>\<rparr>))"

definition do_syscall_5 where
  "do_syscall_5 se h n a0 a1 a2 a3 a4 s =
     syscall_result (int_0x80 se h (s\<lparr>CPU := (CPU s)
       \<lparr>rax := n, rdi := a0, rsi := a1, rdx := a2, rcx := a3, r8 := a4\<rparr>\<rparr>))"

definition do_syscall_6 where
  "do_syscall_6 se h n a0 a1 a2 a3 a4 a5 s =
     syscall_result (int_0x80 se h (s\<lparr>CPU := (CPU s)
       \<lparr>rax := n, rdi := a0, rsi := a1, rdx := a2, rcx := a3, r8 := a4, r9 := a5\<rparr>\<rparr>))"

end
