(* ===== verification/Shell_Props.thy ===== *)
theory Shell_Props
  imports Shell
begin

text \<open>
  Properties of the shell: no key and no text makes it panic, line editing
  refines an abstract line editor whose backspace never reaches the prompt, and a
  printed line ends with the prompt on a fresh bottom row.
\<close>

section \<open>Every operation returns\<close>

abbreviation wf_console :: "'a console_scheme \<Rightarrow> bool" where
  "wf_console s \<equiv> wf_writer (WRITER s)"

lemma set_count_simps [simp]:
  "WRITER (set_count n s) = WRITER s"
  "written_char_count (SHELL (set_count n s)) = n"
  "prompt (SHELL (set_count n s)) = prompt (SHELL s)"
  "prompt_enabled (SHELL (set_count n s)) = prompt_enabled (SHELL s)"
  "INITIALIZED (set_count n s) = INITIALIZED s"
  "is_interrupts_enabled (set_count n s) = is_interrupts_enabled s"
  "io_log (set_count n s) = io_log s" "device (set_count n s) = device s"
  "console.more (set_count n s) = console.more s"
  by (simp_all add: set_count_def is_interrupts_enabled_def flags_def)

lemma on_writer_simps:
  "on_writer f s = Inr s' \<longleftrightarrow> (\<exists>w. f (WRITER s) = Inr w \<and> s' = s\<lparr>WRITER := w\<rparr>)"
  by (auto simp: on_writer_def bind_res_eq_Inr)

lemma irq_state_simps [simp]:
  "is_interrupts_enabled (s\<lparr>WRITER := w\<rparr>) = is_interrupts_enabled s"
  "WRITER (enable_interrupts s) = WRITER s" "WRITER (disable_interrupts s) = WRITER s"
  "SHELL (enable_interrupts s) = SHELL s" "SHELL (disable_interrupts s) = SHELL s"
  "INITIALIZED (enable_interrupts s) = INITIALIZED s"
  "INITIALIZED (disable_interrupts s) = INITIALIZED s"
  "console.more (enable_interrupts s) = console.more s"
  "console.more (disable_interrupts s) = console.more s"
  by (simp_all add: is_interrupts_enabled_def flags_def enable_interrupts_def disable_interrupts_def)

lemma irq_console_simps [simp]:
  "WRITER (irq_off s) = WRITER s" "SHELL (irq_off s) = SHELL s"
  "INITIALIZED (irq_off s) = INITIALIZED s"
  "WRITER (irq_restore u s) = WRITER s" "SHELL (irq_restore u s) = SHELL s"
  "INITIALIZED (irq_restore u s) = INITIALIZED s"
  "console.more (irq_off s) = console.more s" "console.more (irq_restore u s) = console.more s"
  by (simp_all add: irq_off_def irq_restore_def)

text \<open>
  A total run from \<open>s\<close>: it returns, with the screen buffer in shape, and keeps the
  interrupt flag, the settings of the shell and of the writer, and everything
  outside the console.
\<close>

definition settings where
  "settings s =
     (is_interrupts_enabled s, prompt (SHELL s), prompt_enabled (SHELL s), INITIALIZED s,
      w_color (WRITER s), io_log s, device s, console.more s)"

definition ok :: "'a console_scheme \<Rightarrow> 'a console_scheme res \<Rightarrow> bool" where
  "ok s r \<longleftrightarrow> (\<exists>s'. r = Inr s' \<and> wf_console s' \<and> settings s' = settings s)"

lemma ok_Inr [runs]: "wf_console s' \<Longrightarrow> settings s' = settings s \<Longrightarrow> ok s (Inr s')"
  by (simp add: ok_def)

lemma settings_set_count [simp]: "settings (set_count n s) = settings s"
  by (simp add: settings_def)

lemma ok_bind [runs]: "ok s r \<Longrightarrow> (\<And>s'. wf_console s' \<Longrightarrow> ok s' (f s')) \<Longrightarrow> ok s (bind_res r f)"
  by (fastforce simp: ok_def)

lemma ok_for_each:
  assumes "\<And>i s. wf_console s \<Longrightarrow> ok s (f i s)" and "wf_console s"
  shows "ok s (for_each f is s)"
  using assms(2)
proof (induction "is" arbitrary: s)
  case Nil
  then show ?case by (simp add: ok_def)
next
  case (Cons i "is")
  then show ?case using assms(1) by (simp add: ok_bind)
qed

lemma ok_on_writer [runs]:
  "\<exists>w'. f (WRITER s) = Inr w' \<and> wf_writer w' \<and> w_color w' = w_color (WRITER s) \<Longrightarrow>
   ok s (on_writer f s)"
  by (auto simp: ok_def on_writer_def settings_def)

lemma new_line_ok [runs]: "wf_writer w \<Longrightarrow> \<exists>w'. new_line w = Inr w' \<and> wf_writer w' \<and> w_color w' = w_color w"
  by (simp add: new_line_wf)

lemma for_each_writer_ok:
  assumes "\<And>i v. wf_writer v \<Longrightarrow> \<exists>v'. f i v = Inr v' \<and> wf_writer v' \<and> w_color v' = w_color v"
    and "wf_writer w"
  shows "\<exists>w'. for_each f is w = Inr w' \<and> wf_writer w' \<and> w_color w' = w_color w"
  using for_each_cong_inv [of "is" "\<lambda>v. wf_writer v \<and> w_color v = w_color w" f w] assms by fastforce

lemma write_string_ok [runs]:
  "wf_writer w \<Longrightarrow> \<exists>w'. write_string s w = Inr w' \<and> wf_writer w' \<and> w_color w' = w_color w"
  unfolding write_string_def
  by (rule for_each_writer_ok) (use write_byte_ok in \<open>auto split: if_splits\<close>)

lemma write_colored_string_ok [runs]:
  "wf_writer w \<Longrightarrow> \<exists>w'. write_colored_string c w = Inr w' \<and> wf_writer w' \<and> w_color w' = w_color w"
  unfolding write_colored_string_def
  by (rule for_each_writer_ok) (auto simp: put_char_wf)

lemma raw_backspace_ok [runs]: "wf_writer w \<Longrightarrow> \<exists>w'. raw_backspace w = Inr w' \<and> wf_writer w' \<and> w_color w' = w_color w"
  by (simp add: raw_backspace_def Let_def write_byte_def write_byte_colored_wf
      set_column_position_def)

lemma unicode_backspace_ok [runs]: "wf_writer w \<Longrightarrow> \<exists>w'. unicode_backspace w = Inr w' \<and> wf_writer w' \<and> w_color w' = w_color w"
  by (simp add: unicode_backspace_def old_line_wf set_byte_wf set_column_position_def)

lemma print_prompt_ok [runs]: "wf_console s \<Longrightarrow> ok s (print_prompt s)"
  by (auto simp: print_prompt_def intro!: runs)

lemma newline_ok [runs]: "wf_console s \<Longrightarrow> ok s (newline s)"
  by (auto simp: newline_def intro!: runs)

lemma shell_write_ok: "wf_console s \<Longrightarrow> ok s (shell_write t s)"
  unfolding shell_write_def
  by (rule ok_for_each) (auto intro!: runs simp: write_byte_def write_byte_colored_wf)

lemma without_interrupts_ok:
  assumes "ok (irq_off s) (f (irq_off s))"
  shows "\<exists>s'. without_interrupts (\<lambda>s. bind_res (f s) (\<lambda>s. Inr ((), s))) s = Inr ((), s') \<and>
    wf_console s' \<and> settings s' = settings s"
  using assms by (auto simp: without_interrupts_eq ok_def settings_def irq_restore_enabled)

lemma key_event_ok:
  assumes "wf_console s"
  shows "ok s (key_event b d key s)"
proof (cases key)
  case (RawKey k)
  have "ok (irq_off s) (on_writer (write_string (d k)) (irq_off s))"
    using assms by (simp add: ok_on_writer write_string_ok)
  then obtain s' where "without_interrupts
        (\<lambda>s. bind_res (on_writer (write_string (d k)) s) (\<lambda>s. Inr ((), s))) s = Inr ((), s')"
      "wf_console s'" "settings s' = settings s"
    using without_interrupts_ok [of s "on_writer (write_string (d k))"] by blast
  then show ?thesis
    using RawKey assms
    by (auto simp: key_event_def intro!: runs)
next
  case (Unicode k)
  then show ?thesis
    using assms
    by (auto simp: key_event_def intro!: runs)
qed

lemma print_bytes_ok:
  assumes "wf_console s"
  shows "\<exists>s'. print_bytes t s = Inr ((), s') \<and> wf_console s' \<and> settings s' = settings s"
  unfolding print_bytes_def
  by (rule without_interrupts_ok)
    (use assms in \<open>simp add: has_shell_def shell_write_ok ok_on_writer write_string_ok\<close>)

section \<open>Line editing\<close>

text \<open>
  The abstract line editor: the text typed since the prompt, extended by a
  printable ASCII key and shortened by backspace, which does nothing on an empty text.
\<close>

definition edit_key :: "nat \<Rightarrow> bool" where
  "edit_key k \<longleftrightarrow> k = 8 \<or> 0x20 \<le> k \<and> k \<le> 0x7e"

definition edit :: "nat \<Rightarrow> bytes \<Rightarrow> bytes" where
  "edit k t = (if k = 8 then butlast t else t @ [of_nat k])"

text \<open>
  The screen shows the text \<open>t\<close> being edited after the cells \<open>pre\<close> of the bottom
  row and blanks behind it, below the rows \<open>up\<close>.
\<close>

definition editing ::
    "screen_char list \<Rightarrow> buffer \<Rightarrow> bytes \<Rightarrow> 'a console_scheme \<Rightarrow> bool" where
  "editing pre up t s \<longleftrightarrow>
     wf_console s \<and> take 24 (buffer (WRITER s)) = up \<and>
     unat (column_position (WRITER s)) = length pre + length t \<and>
     unat (written_char_count (SHELL s)) = length t \<and>
     buffer (WRITER s) ! 24 = pre @ cells (w_color (WRITER s)) t @
       replicate (80 - (length pre + length t)) (blank_cell (w_color (WRITER s)))"

lemma editing_prompt:
  assumes "wf_console s" "column_position (WRITER s) = of_nat n" "n \<le> 80" "written_char_count (SHELL s) = 0"
    and "drop n (buffer (WRITER s) ! 24) = replicate (80 - n) (blank_cell (w_color (WRITER s)))"
  shows "editing (take n (buffer (WRITER s) ! 24)) (take 24 (buffer (WRITER s))) [] s"
proof -
  have "buffer (WRITER s) ! 24 = take n (buffer (WRITER s) ! 24) @ drop n (buffer (WRITER s) ! 24)"
    by simp
  then show ?thesis
    using assms by (simp add: editing_def cells_def unat_of_nat)
qed

lemma printable_ascii: "0x20 \<le> k \<Longrightarrow> k \<le> 0x7e \<Longrightarrow> printable (of_nat k) \<and> encode_utf8 k = [of_nat k]"
  by (simp add: printable_def encode_utf8_def word_le_nat_alt unat_of_nat)

lemma unat_pred: "(x :: usize) \<noteq> 0 \<Longrightarrow> unat (x - 1) = unat x - 1"
  by (simp add: unat_minus_one)

lemma overwrite_line_simps [simp]:
  "w_color (overwrite_line l w) = w_color w"
  "take 24 (buffer (overwrite_line l w)) = take 24 (buffer w)"
  by (simp_all add: overwrite_line_def)

lemma cells_append: "cells k (s @ t) = cells k s @ cells k t"
  by (simp add: cells_def)

lemma editing_type:
  assumes "editing pre up t s" "0x20 \<le> k" "k \<le> 0x7e" "length pre + length t < 80"
  shows "\<exists>s'. key_event b d (Unicode k) s = Inr s' \<and> editing pre up (t @ [of_nat k]) s'"
proof -
  let ?w = "WRITER s" and ?c = "of_nat k :: u8"
  let ?v = "overwrite_line (cells (w_color ?w) [?c]) ?w"
  let ?n = "length pre + length t"
  have wf: "wf_writer ?w" and col: "unat (column_position ?w) = ?n"
    and count: "unat (written_char_count (SHELL s)) = length t"
    and row: "buffer ?w ! 24 = pre @ cells (w_color ?w) t @ replicate (80 - ?n) (blank_cell (w_color ?w))"
    using assms(1) by (auto simp: editing_def)
  have "write_string (encode_utf8 k) ?w = Inr ?v"
    using write_string_line [of ?w "[?c]"] wf col assms printable_ascii by simp
  then have "key_event b d (Unicode k) s =
      Inr (set_count (written_char_count (SHELL s) + 1) (s\<lparr>WRITER := ?v\<rparr>))"
    using assms(2,3) by (simp add: key_event_def on_writer_def)
  moreover have "wf_writer ?v"
    using wf col assms(4) by (simp add: overwrite_line_wf)
  moreover have "unat (column_position ?v) = Suc ?n"
    using col assms(4) by (simp add: overwrite_line_def unat_word_ariths)
  moreover have "unat (written_char_count (SHELL s) + 1) = Suc (length t)"
    using count assms(4) by (simp add: unat_word_ariths)
  moreover have "buffer ?v ! 24 = pre @ cells (w_color ?w) (t @ [?c]) @
      replicate (80 - Suc ?n) (blank_cell (w_color ?w))"
    using wf col row by (simp add: overwrite_line_def cells_append)
  ultimately show ?thesis
    using assms(1) by (simp add: editing_def)
qed

lemma editing_backspace:
  assumes "editing pre up t s" "length pre + length t \<le> 80"
  shows "\<exists>s'. key_event b d (Unicode 8) s = Inr s' \<and> editing pre up (butlast t) s'"
proof (cases t rule: rev_cases)
  case Nil
  then have "written_char_count (SHELL s) = 0"
    using assms(1) by (simp add: editing_def unat_eq_0)
  then show ?thesis
    using assms(1) Nil by (simp add: key_event_def)
next
  case (snoc u c)
  let ?w = "WRITER s" and ?b = "blank_cell (w_color (WRITER s))"
  let ?v = "set_column_position (column_position ?w - 1) ?w"
  let ?n = "length pre + length u"
  have wf: "wf_writer ?w" and col: "unat (column_position ?w) = Suc ?n"
    and count: "unat (written_char_count (SHELL s)) = Suc (length u)"
    and row: "buffer ?w ! 24 = (pre @ cells (w_color ?w) u) @ cells (w_color ?w) [c] @ replicate (80 - Suc ?n) ?b"
    using assms(1) snoc by (auto simp: editing_def cells_append)
  have pos: "column_position ?w \<noteq> 0" "written_char_count (SHELL s) \<noteq> 0"
    using col count by auto
  have col': "unat (column_position ?v) = ?n"
    using col pos by (simp add: set_column_position_def unat_pred)
  have "unicode_backspace ?w = Inr (set_cursor_cell ?b ?v)"
    using wf pos col' assms(2) snoc
    by (simp add: unicode_backspace_def get_column_position_def set_column_position_def word_gt_0
        set_byte_wf blank_cell_def)
  then have "key_event b d (Unicode 8) s = Inr (set_count (written_char_count (SHELL s) - 1)
      (s\<lparr>WRITER := set_cursor_cell ?b ?v\<rparr>))"
    using pos by (simp add: key_event_def on_writer_def word_gt_0)
  moreover have len: "length (pre @ cells (w_color ?w) u) = ?n"
    by (simp add: cells_def)
  then have "(buffer ?w ! 24)[?n := ?b] = (pre @ cells (w_color ?w) u) @ ?b # replicate (80 - Suc ?n) ?b"
    unfolding row by (simp add: list_update_append cells_def)
  then have "(buffer ?w ! 24)[?n := ?b] = pre @ cells (w_color ?w) u @ replicate (80 - ?n) ?b"
    using assms(2) snoc by (simp flip: replicate_Suc add: Suc_diff_Suc)
  then have "buffer (set_cursor_cell ?b ?v) ! 24 = pre @ cells (w_color ?w) u @ replicate (80 - ?n) ?b"
    using wf col' by (simp add: set_cursor_cell_def set_column_position_def)
  moreover have "wf_writer (set_cursor_cell ?b ?v)" "w_color (set_cursor_cell ?b ?v) = w_color ?w"
      "column_position (set_cursor_cell ?b ?v) = column_position ?w - 1"
      "take 24 (buffer (set_cursor_cell ?b ?v)) = take 24 (buffer ?w)"
    using wf col' by (simp_all add: set_cursor_cell_def set_column_position_def)
  ultimately show ?thesis
    using assms(1) snoc col' count pos
    by (simp add: editing_def unat_pred col)
qed

lemma editing_keys:
  assumes "editing pre up t s" "list_all edit_key ks" "length pre + length t + length ks \<le> 80"
  shows "\<exists>s'. for_each (\<lambda>k. key_event b d (Unicode k)) ks s = Inr s' \<and>
    editing pre up (fold edit ks t) s'"
  using assms
proof (induction ks arbitrary: t s)
  case Nil
  then show ?case by simp
next
  case (Cons k ks)
  obtain s' where s': "key_event b d (Unicode k) s = Inr s'" "editing pre up (edit k t) s'"
    using Cons.prems editing_type [of pre up t s k b d] editing_backspace [of pre up t s b d]
    by (cases "k = 8") (auto simp: edit_key_def edit_def)
  have "length (edit k t) \<le> Suc (length t)"
    by (simp add: edit_def) linarith
  then show ?case
    using Cons.IH [OF s'(2)] Cons.prems s'(1) by simp
qed

section \<open>The prompt\<close>

lemma write_colored_string_line:
  assumes "wf_writer w" "unat (column_position w) + length (cs_chars c) \<le> 80"
  shows "write_colored_string c w = Inr (overwrite_line (cs_chars c) w)"
proof -
  have "for_each (\<lambda>c w. bind_res (put_char c w)
        (\<lambda>w. Inr (w\<lparr>column_position := column_position w + 1\<rparr>))) cs w = Inr (overwrite_line cs w)"
    if "wf_writer w" "unat (column_position w) + length cs \<le> 80" for cs w
    using that
  proof (induction cs arbitrary: w)
    case Nil
    then show ?case by (simp add: overwrite_line_def)
  next
    case (Cons x xs)
    let ?v = "advance (set_cursor_cell x w)"
    have col: "unat (column_position ?v) = Suc (unat (column_position w))"
      using Cons.prems by (simp add: advance_column)
    have "overwrite_line xs ?v = overwrite_line (x # xs) w"
      using Cons.prems col
      by (simp add: overwrite_line_def set_cursor_cell_def advance_def take_Suc_conv_app_nth
          algebra_simps)
    then show ?case
      using Cons col by (simp add: put_char_wf advance_def [symmetric])
  qed
  then show ?thesis
    using assms by (simp add: write_colored_string_def)
qed

text \<open>The bottom row of a writer that has just opened a line and printed a prompt.\<close>

definition prompt_row :: "colored_string \<Rightarrow> color_code \<Rightarrow> screen_char list" where
  "prompt_row p k = cs_chars p @ replicate (80 - length (cs_chars p)) (blank_cell k)"

lemma newline_prompt:
  assumes "wf_console s" "prompt_enabled (SHELL s)" "length (cs_chars (prompt (SHELL s))) \<le> 80"
  shows "\<exists>s'. newline s = Inr s' \<and> wf_console s' \<and> SHELL s' = (SHELL s)\<lparr>written_char_count := 0\<rparr> \<and>
    w_color (WRITER s') = w_color (WRITER s) \<and> INITIALIZED s' = INITIALIZED s \<and>
    column_position (WRITER s') = of_nat (length (cs_chars (prompt (SHELL s)))) \<and>
    buffer (WRITER s') = tl (buffer (WRITER s)) @ [prompt_row (prompt (SHELL s)) (w_color (WRITER s))]"
proof -
  let ?w = "WRITER s" and ?p = "prompt (SHELL s)"
  let ?v = "?w\<lparr>buffer := tl (buffer ?w) @ [blank_row (w_color ?w)], column_position := 0\<rparr>"
  have len: "length (tl (buffer ?w)) = 24"
    using assms(1) by simp
  have "new_line ?w = Inr ?v"
    using assms(1) by (rule new_line_wf)
  moreover have "write_colored_string ?p ?v = Inr (overwrite_line (cs_chars ?p) ?v)"
    using assms by (intro write_colored_string_line) simp_all
  ultimately have "newline s =
      Inr (set_count 0 (s\<lparr>WRITER := overwrite_line (cs_chars ?p) ?v\<rparr>))"
    using assms(2) by (simp add: newline_def print_prompt_def on_writer_def)
  moreover have "wf_writer (overwrite_line (cs_chars ?p) ?v)"
    using assms by (intro overwrite_line_wf) simp_all
  ultimately show ?thesis
    using len by (simp add: overwrite_line_def set_count_def blank_row_def prompt_row_def
        list_update_append nth_append drop_replicate)
qed

section \<open>Properties\<close>

text \<open>A console with an initialised shell over a blank screen.\<close>

definition example_console :: console where
  "example_console =
     \<lparr>rflags = 0x0202, io_log = [], device = (\<lambda>_ _. 0), WRITER = writer_init clear_screen,
      SHELL = shell_static, INITIALIZED = True\<rparr>"

lemma example_console_simps [simp]:
  "wf_console example_console"
  "WRITER example_console = writer_init clear_screen"
  "column_position (writer_init b) = 0" "buffer (writer_init b) = b"
  "SHELL example_console = shell_static" "INITIALIZED example_console"
  "written_char_count shell_static = 0" "prompt_enabled shell_static"
  by (simp_all add: example_console_def writer_init_def shell_static_def shell_new_def)

lemma clear_bottom: "clear_screen ! 24 = replicate 80 (blank_cell (w_color (writer_init b)))"
  by (simp add: clear_screen_def blank_row_def writer_init_def)

text \<open>
  C12: Typing at the shell refines the abstract line editor. Starting after a prompt
  of \<open>n\<close> cells with the rest of the row blank, any sequence of printable ASCII keys
  and backspaces that cannot run past the right edge leaves the prompt cells and the
  rows above untouched, shows exactly the edited text after the prompt and blanks
  behind it, so that what was erased is gone from the screen, with the cursor right
  behind the text and the character count equal to its length.
\<close>

theorem line_editing_refines:
  assumes "wf_console s" "column_position (WRITER s) = of_nat n" "written_char_count (SHELL s) = 0"
    and "drop n (buffer (WRITER s) ! 24) = replicate (80 - n) (blank_cell (w_color (WRITER s)))"
    and "list_all edit_key ks" "n + length ks \<le> 80"
  shows "\<exists>s'. for_each (\<lambda>k. key_event b d (Unicode k)) ks s = Inr s' \<and>
    editing (take n (buffer (WRITER s) ! 24)) (take 24 (buffer (WRITER s))) (fold edit ks []) s'"
  using editing_keys [OF editing_prompt, of s n ks b d] assms by simp

theorem line_editing_refines_witness:
  "let s = example_console
   in \<exists>s'. for_each (\<lambda>k. key_event () (\<lambda>_. []) (Unicode k)) [8, 0x48, 0x69, 8] s = Inr s' \<and>
      editing [] (take 24 (buffer (WRITER s))) [0x48] s'"
proof -
  have "list_all edit_key [8, 0x48, 0x69, 8]" by (simp add: edit_key_def)
  then show ?thesis
    using line_editing_refines [of example_console 0 "[8, 0x48, 0x69, 8]" "()" "\<lambda>_. []"]
    by (simp add: edit_def Let_def clear_bottom)
qed

text \<open>
  No key and no text makes the shell panic: for every decoded key, every text
  and every cursor position \<^verbatim>\<open>key_event\<close>, \<^verbatim>\<open>write\<close> and \<^verbatim>\<open>_print\<close> return, keep the
  buffer in shape and leave the interrupt flag as they found it.
\<close>

lemma shell_never_panics:
  assumes "wf_console s"
  shows "(\<exists>s'. key_event b d key s = Inr s' \<and> wf_console s' \<and>
      is_interrupts_enabled s' = is_interrupts_enabled s) \<and>
    (\<exists>s'. shell_write t s = Inr s' \<and> wf_console s' \<and>
      is_interrupts_enabled s' = is_interrupts_enabled s) \<and>
    (\<exists>s'. print_bytes t s = Inr ((), s') \<and> wf_console s' \<and>
      is_interrupts_enabled s' = is_interrupts_enabled s)"
  using key_event_ok [OF assms, of b d key] shell_write_ok [OF assms, of t]
    print_bytes_ok [OF assms, of t]
  by (auto simp: ok_def settings_def)

text \<open>
  C22: A line printed while the shell is up ends with the prompt: \<^verbatim>\<open>println\<close> of any text
  leaves the prompt on a fresh bottom row, the rest of that row blank, the cursor
  right behind the prompt and the character count at zero, whatever was on the
  screen and in the text before, and restores the interrupt flag.
\<close>

theorem println_ends_with_prompt:
  assumes "wf_console s" "INITIALIZED s" "prompt_enabled (SHELL s)"
    and "length (cs_chars (prompt (SHELL s))) \<le> 80"
  shows "\<exists>s'. println t s = Inr ((), s') \<and>
    buffer (WRITER s') ! 24 = prompt_row (prompt (SHELL s)) (w_color (WRITER s)) \<and>
    column_position (WRITER s') = of_nat (length (cs_chars (prompt (SHELL s)))) \<and>
    written_char_count (SHELL s') = 0 \<and> wf_console s' \<and>
    is_interrupts_enabled s' = is_interrupts_enabled s"
proof -
  let ?u = "irq_off s"
  obtain v where v: "shell_write t ?u = Inr v" "wf_console v" "settings v = settings ?u"
    using shell_write_ok [of ?u t] assms(1) by (auto simp: ok_def)
  have set: "prompt (SHELL v) = prompt (SHELL s)" "prompt_enabled (SHELL v)"
      "w_color (WRITER v) = w_color (WRITER s)"
    using v(3) assms(3) by (simp_all add: settings_def)
  then obtain s' where s': "newline v = Inr s'" "wf_console s'"
      "SHELL s' = (SHELL v)\<lparr>written_char_count := 0\<rparr>"
      "column_position (WRITER s') = of_nat (length (cs_chars (prompt (SHELL s))))"
      "buffer (WRITER s') = tl (buffer (WRITER v)) @ [prompt_row (prompt (SHELL s)) (w_color (WRITER s))]"
    using newline_prompt [of v] v(2) assms(4) by auto
  have "length (tl (buffer (WRITER v))) = 24"
    using v(2) by simp
  then have row: "buffer (WRITER s') ! 24 = prompt_row (prompt (SHELL s)) (w_color (WRITER s))"
    using s'(5) by (simp add: nth_append)
  have "shell_write (t @ [0x0A]) ?u = Inr s'"
    using v(1) s'(1) by (simp add: shell_write_def for_each_append)
  then have "println t s = Inr ((), irq_restore s s')"
    using assms(2) by (simp add: println_def print_bytes_def without_interrupts_eq has_shell_def)
  moreover have "\<not> is_interrupts_enabled s'"
    using newline_ok [OF v(2)] s'(1) v(3) by (simp add: ok_def settings_def)
  ultimately show ?thesis
    using s' row by (simp add: irq_restore_enabled)
qed

theorem println_ends_with_prompt_witness:
  "\<exists>s'. println [0x48, 0x69] example_console = Inr ((), s') \<and>
     column_position (WRITER s') = 6 \<and> written_char_count (SHELL s') = 0"
proof -
  have "length (cs_chars (prompt shell_static)) = 6"
    by (simp add: shell_static_def shell_new_def from_string_def push_char_def)
  then show ?thesis
    using println_ends_with_prompt [of example_console "[0x48, 0x69]"] by auto
qed

text \<open>
  \<^verbatim>\<open>set_enable_prompt(false)\<close> silences the prompt after a line feed for \<^verbatim>\<open>write\<close>,
  which then leaves a blank bottom row, but not for \<^verbatim>\<open>write_colored\<close>, which prints
  the prompt regardless of the setting.
\<close>

lemma write_colored_ignores_prompt_setting:
  assumes "wf_console s" "\<not> prompt_enabled (SHELL s)" "length (cs_chars (prompt (SHELL s))) \<le> 80"
  shows "(\<exists>s'. shell_write [0x0A] s = Inr s' \<and>
      buffer (WRITER s') ! 24 = blank_row (w_color (WRITER s)) \<and> column_position (WRITER s') = 0) \<and>
    (\<exists>s'. write_colored (push_char 0x0A colored_string_new) s = Inr s' \<and>
      buffer (WRITER s') ! 24 = prompt_row (prompt (SHELL s)) (w_color (WRITER s)) \<and>
      column_position (WRITER s') = of_nat (length (cs_chars (prompt (SHELL s)))))"
proof -
  have len: "length (tl (buffer (WRITER s))) = 24"
    using assms(1) by simp
  let ?on = "s\<lparr>SHELL := (SHELL s)\<lparr>prompt_enabled := True\<rparr>\<rparr>"
  have "\<exists>s'. shell_write [0x0A] s = Inr s' \<and>
      buffer (WRITER s') ! 24 = blank_row (w_color (WRITER s)) \<and> column_position (WRITER s') = 0"
    using assms len
    by (simp add: shell_write_def newline_def print_prompt_def on_writer_def new_line_wf nth_append)
  moreover have "\<exists>s'. write_colored (push_char 0x0A colored_string_new) s = Inr s' \<and>
      buffer (WRITER s') ! 24 = prompt_row (prompt (SHELL s)) (w_color (WRITER s)) \<and>
      column_position (WRITER s') = of_nat (length (cs_chars (prompt (SHELL s))))"
    using assms len
    by (simp add: write_colored_def push_char_def colored_string_new_def raw_char_def on_writer_def
        new_line_wf write_colored_string_line)
      (simp add: overwrite_line_def prompt_row_def blank_row_def nth_append list_update_append
        drop_replicate)
  ultimately show ?thesis by blast
qed

lemma two_byte_not_printable:
  assumes "0x80 \<le> k" "k < 0x800"
  shows "\<not> printable (of_nat (0xC0 + k div 0x40)) \<and> of_nat (0xC0 + k div 0x40) \<noteq> (0x0A :: u8) \<and>
    \<not> printable (of_nat (0x80 + k mod 0x40)) \<and> of_nat (0x80 + k mod 0x40) \<noteq> (0x0A :: u8)"
proof -
  have "\<not> printable (of_nat n) \<and> of_nat n \<noteq> (0x0A :: u8)" if "0x80 \<le> n" "n < 256" for n
    using that by (auto simp: printable_def word_le_nat_alt unat_of_nat word_unat_eq_iff)
  then show ?thesis
    using assms by (simp del: of_nat_add)
qed

text \<open>
  A key outside ASCII counts as one character but occupies one cell per UTF-8
  byte. Typing it and pressing backspace therefore does not restore the line: for
  a two-byte character one replacement cell stays behind, although the shell's
  count says that nothing is left to erase.
\<close>

lemma two_byte_key_not_erased:
  assumes "wf_console s" "unat (column_position (WRITER s)) + 2 \<le> 80"
    and "written_char_count (SHELL s) = 0" "0x80 \<le> k" "k < 0x800"
  shows "\<exists>s'. for_each (\<lambda>k. key_event b d (Unicode k)) [k, 8] s = Inr s' \<and>
    written_char_count (SHELL s') = 0 \<and>
    column_position (WRITER s') = column_position (WRITER s) + 1 \<and>
    buffer (WRITER s') ! 24 ! unat (column_position (WRITER s)) =
      \<lparr>ascii_character = 0xfe, sc_color = w_color (WRITER s)\<rparr>"
proof -
  let ?w = "WRITER s" and ?x = "\<lparr>ascii_character = 0xfe, sc_color = w_color (WRITER s)\<rparr>"
  let ?n = "unat (column_position ?w)"
  let ?u = "advance (set_cursor_cell ?x ?w)"
  let ?v = "advance (set_cursor_cell ?x ?u)"
  have u: "unat (column_position ?u) = Suc ?n" and v: "unat (column_position ?v) = Suc (Suc ?n)"
    using assms(2) advance_column [of "set_cursor_cell ?x ?w"]
      advance_column [of "set_cursor_cell ?x ?u"] by simp_all
  have bk: "column_position ?v - 1 = column_position ?w + 1" "0 < column_position ?v"
    using v by (auto simp: advance_def word_gt_0)
  have c1: "unat (column_position ?w + 1) = Suc ?n"
    using u by (simp add: advance_def)
  have enc: "encode_utf8 k = [of_nat (0xC0 + k div 0x40), of_nat (0x80 + k mod 0x40)]"
    using assms(4,5) by (simp add: encode_utf8_def)
  have "write_string (encode_utf8 k) ?w = Inr ?v"
    using two_byte_not_printable [OF assms(4,5)] assms(1,2) u
    by (simp add: enc write_string_def write_byte_wf del: of_nat_add)
  then have "key_event b d (Unicode k) s = Inr (set_count 1 (s\<lparr>WRITER := ?v\<rparr>))"
    using assms(3,4) by (simp add: key_event_def on_writer_def)
  moreover have "key_event b d (Unicode 8) (set_count 1 (s\<lparr>WRITER := ?v\<rparr>)) =
      Inr (set_count 0 (s\<lparr>WRITER := set_cursor_cell (blank_cell (w_color ?w))
        (?v\<lparr>column_position := column_position ?w + 1\<rparr>)\<rparr>))"
    using assms(1,2) u bk(2)
    by (simp add: key_event_def on_writer_def unicode_backspace_def get_column_position_def
        set_column_position_def bk(1) set_byte_wf blank_cell_def set_count_def
        wrapped_id [of "?v\<lparr>column_position := column_position ?w + 1\<rparr>"] c1)
  ultimately show ?thesis
    using assms(1,2) u
    by (simp add: advance_def set_cursor_cell_def)
qed

end
