(* ===== verification/Interrupt_Props.thy ===== *)
theory Interrupt_Props
  imports Interrupts Shell_Props
begin

text \<open>
  Properties of interrupt handling: the descriptor table, acknowledgement of
  interrupts, the calibration of the APIC timer and the counts it is armed with,
  and the path of a key from the port to the shell's line editor.
\<close>

section \<open>Frames\<close>

text \<open>Code below the interrupt layer keeps its fields: they are the console's extension.\<close>

lemma irq_of_console_more:
  "console.more s = console.more t \<Longrightarrow>
   IDT s = IDT t \<and> IDT_LOADED s = IDT_LOADED t \<and> LAPIC s = LAPIC t \<and> lapic_log s = lapic_log t \<and>
   pic_log s = pic_log t \<and> APIC_TIMER_FREQUENCY s = APIC_TIMER_FREQUENCY t \<and>
   TRIGGERED_ONCE s = TRIGGERED_ONCE t \<and> KEYBOARD s = KEYBOARD t \<and>
   EVENT_HANDLERS s = EVENT_HANDLERS t \<and> irq.more s = irq.more t"
  by (cases s; cases t) simp

lemma irq_of_machine_more:
  "machine.more s = machine.more t \<Longrightarrow>
   console.more s = console.more t \<and> WRITER s = WRITER t \<and> SHELL s = SHELL t \<and>
   INITIALIZED s = INITIALIZED t" for s t :: "'a console_scheme"
  by (cases s; cases t) simp

lemma console_irq_updates [simp]:
  "is_interrupts_enabled (s\<lparr>lapic_log := a\<rparr>) = is_interrupts_enabled s"
  "is_interrupts_enabled (s\<lparr>LAPIC := b\<rparr>) = is_interrupts_enabled s"
  "is_interrupts_enabled (s\<lparr>TRIGGERED_ONCE := c\<rparr>) = is_interrupts_enabled s"
  "is_interrupts_enabled (s\<lparr>APIC_TIMER_FREQUENCY := d\<rparr>) = is_interrupts_enabled s"
  "is_interrupts_enabled (s\<lparr>IDT := e\<rparr>) = is_interrupts_enabled s"
  "is_interrupts_enabled (s\<lparr>pic_log := f\<rparr>) = is_interrupts_enabled s"
  "is_interrupts_enabled (s\<lparr>KEYBOARD := g\<rparr>) = is_interrupts_enabled s"
  "is_interrupts_enabled (s\<lparr>io_log := h\<rparr>) = is_interrupts_enabled s"
  by (simp_all add: is_interrupts_enabled_def flags_def)

lemma on_lapic_Some [simp]:
  "LAPIC s = Some l \<Longrightarrow> on_lapic c s = Inr (s\<lparr>lapic_log := lapic_log s @ [c]\<rparr>)"
  by (simp add: on_lapic_def)

lemma irq_println_ok:
  assumes "wf_console s"
  shows "\<exists>s'. irq_println t s = Inr s' \<and> wf_console s' \<and> settings s' = settings s"
proof -
  obtain s' where "print_bytes (t @ [0x0A]) s = Inr ((), s')" "wf_console s'" "settings s' = settings s"
    using print_bytes_ok [OF assms] by blast
  then show ?thesis
    by (simp add: irq_println_def println_def)
qed

text \<open>Before the shell exists, printing changes the writer and nothing else; a printed line ends on a blank row.\<close>

lemma irq_println_plain:
  assumes "wf_console s" "\<not> INITIALIZED s"
  shows "\<exists>w. irq_println t s = Inr (s\<lparr>WRITER := w\<rparr>) \<and> wf_writer w \<and> w_color w = w_color (WRITER s) \<and>
    column_position w = 0 \<and> buffer w ! 24 = blank_row (w_color w) \<and>
    write_string (t @ [0x0A]) (WRITER s) = Inr w"
proof -
  obtain v where v: "write_string t (WRITER s) = Inr v" "wf_writer v" "w_color v = w_color (WRITER s)"
    using write_string_ok assms(1) by blast
  define w where "w = v\<lparr>buffer := tl (buffer v) @ [blank_row (w_color v)], column_position := 0\<rparr>"
  have w: "write_string (t @ [0x0A]) (WRITER s) = Inr w"
    unfolding w_def write_string_append v(1)
    using write_byte_colored_wf [OF v(2), of "0x0A"] by (simp add: write_string_def write_byte_def)
  have "enable_interrupts ((disable_interrupts s)\<lparr>WRITER := w\<rparr>) = s\<lparr>WRITER := w\<rparr>"
    if "is_interrupts_enabled s"
    using enable_disable_id [of "s\<lparr>WRITER := w\<rparr>"] that
    by (simp add: enable_interrupts_def disable_interrupts_def is_interrupts_enabled_def flags_def)
  then have "irq_println t s = Inr (s\<lparr>WRITER := w\<rparr>)"
    using w assms(2)
    by (simp add: irq_println_def println_def print_bytes_def without_interrupts_def on_writer_def
        has_shell_def disable_interrupts_def)
  then show ?thesis
    using v(2,3) w by (auto simp: w_def nth_append)
qed

section \<open>Calibration\<close>

lemma bind_run_simps [simp]:
  "bind_run (Some (Inr x)) f = f x" "bind_run (Some (Inl e)) f = Some (Inl e)" "bind_run None f = None"
  by (simp_all add: bind_run_def)

text \<open>The table leads the local APIC's interrupts to their handlers, as \<^verbatim>\<open>init\<close> sets it up.\<close>

definition apic_gates :: "('kb, 'a) irq_scheme \<Rightarrow> bool" where
  "apic_gates s \<longleftrightarrow>
     map_option entry_fn (IDT s (as_usize ApicTimer)) = Some ApicTimerConfigHandler \<and>
     map_option entry_fn (IDT s (as_usize ApicError)) = Some ApicErrorHandler \<and>
     map_option entry_fn (IDT s (as_usize ApicSpurious)) = Some ApicSpuriousHandler"

definition awaiting :: "('kb, 'a) irq_scheme \<Rightarrow> bool" where
  "awaiting s \<longleftrightarrow> wf_console s \<and> is_interrupts_enabled s \<and> LAPIC s \<noteq> None \<and> apic_gates s"

text \<open>\<open>n\<close> interrupts handled and acknowledged, the timer's among them or not.\<close>

definition waited :: "nat \<Rightarrow> bool \<Rightarrow> ('kb, 'a) irq_scheme \<Rightarrow> ('kb, 'a) irq_scheme \<Rightarrow> bool" where
  "waited n b s t \<longleftrightarrow>
     wf_console t \<and> is_interrupts_enabled t = is_interrupts_enabled s \<and> LAPIC t = LAPIC s \<and> IDT t = IDT s \<and>
     lapic_log t = lapic_log s @ replicate n LapicEoi \<and> (TRIGGERED_ONCE t \<longleftrightarrow> TRIGGERED_ONCE s \<or> b) \<and>
     io_log t = io_log s \<and> device t = device s \<and> EVENT_HANDLERS t = EVENT_HANDLERS s \<and>
     irq.more t = irq.more s \<and> INITIALIZED t = INITIALIZED s \<and> (\<not> INITIALIZED s \<longrightarrow> SHELL t = SHELL s)"

lemma waited_awaiting: "awaiting s \<Longrightarrow> waited n b s t \<Longrightarrow> awaiting t"
  by (simp add: awaiting_def waited_def apic_gates_def)

lemma waited_trans: "waited n b s t \<Longrightarrow> waited m c t u \<Longrightarrow> waited (n + m) (b \<or> c) s u"
  by (auto simp: waited_def replicate_add)

lemma apic_report_waited:
  assumes "wf_console s" "LAPIC s \<noteq> None"
  shows "\<exists>t. bind_res (irq_println m s) (on_lapic LapicEoi) = Inr t \<and> waited 1 False s t"
proof -
  obtain u where u: "irq_println m s = Inr u" "wf_console u" "settings u = settings s"
    using irq_println_ok [OF assms(1)] by blast
  have more: "console.more u = console.more s"
    using u(3) by (simp add: settings_def)
  have "\<not> INITIALIZED s \<Longrightarrow> SHELL u = SHELL s"
    using irq_println_plain [OF assms(1), of m] u(1) by auto
  then show ?thesis
    using u assms(2) irq_of_console_more [OF more] by (auto simp: waited_def settings_def)
qed

lemma apic_deliver_waited:
  assumes "awaiting s"
  shows "\<exists>t. apic_deliver q s = Some (Inr t) \<and> waited 1 (q = TimerIrq) s t"
proof -
  have s: "wf_console s" "is_interrupts_enabled s" "LAPIC s \<noteq> None" "apic_gates s"
    using assms by (simp_all add: awaiting_def)
  then have "\<exists>t. apic_timer_config_handler s = Inr t \<and> waited 1 True s t"
    by (auto simp: apic_timer_config_handler_def waited_def)
  then show ?thesis
    using s apic_report_waited [OF s(1,3)]
    by (cases q) (auto simp: apic_deliver_def apic_gates_def apic_error_handler_def apic_spurious_handler_def)
qed

lemma apic_deliver_all_waited:
  assumes "awaiting s"
  shows "\<exists>t. apic_deliver_all qs s = Some (Inr t) \<and> waited (length qs) (TimerIrq \<in> set qs) s t"
  using assms
proof (induction qs arbitrary: s)
  case Nil
  then show ?case by (simp add: waited_def awaiting_def)
next
  case (Cons q qs)
  obtain t where t: "apic_deliver q s = Some (Inr t)" "waited 1 (q = TimerIrq) s t"
    using apic_deliver_waited [OF Cons.prems] by blast
  obtain u where u: "apic_deliver_all qs t = Some (Inr u)" "waited (length qs) (TimerIrq \<in> set qs) t u"
    using Cons.IH waited_awaiting [OF Cons.prems t(2)] by blast
  have "(TimerIrq \<in> set (q # qs)) = (q = TimerIrq \<or> TimerIrq \<in> set qs)"
    by auto
  then show ?case
    using t(1) u(1) waited_trans [OF t(2) u(2)] by simp
qed

text \<open>The interrupts that have arrived, from iteration \<open>j\<close> on, when iteration \<open>k\<close> loads the flag.\<close>

definition iteration :: "arrivals \<Rightarrow> apic_irq list" where
  "iteration a = before_load a @ before_halt a @ (case ends_halt a of None \<Rightarrow> [] | Some q \<Rightarrow> [q])"

definition seen :: "(nat \<Rightarrow> arrivals) \<Rightarrow> nat \<Rightarrow> nat \<Rightarrow> apic_irq list" where
  "seen wake j k = concat (map (\<lambda>i. iteration (wake i)) [j..<k]) @ before_load (wake k)"

lemma seen_first [simp]: "seen wake j j = before_load (wake j)"
  by (simp add: seen_def)

lemma seen_next: "j < k \<Longrightarrow> seen wake j k = iteration (wake j) @ seen wake (Suc j) k"
  by (simp add: seen_def upt_conv_Cons)

text \<open>Iteration \<open>k\<close> is the first to load the flag after the timer interrupt, and all halts before it ended.\<close>

definition notices :: "bool \<Rightarrow> (nat \<Rightarrow> arrivals) \<Rightarrow> nat \<Rightarrow> nat \<Rightarrow> bool" where
  "notices b wake j k \<longleftrightarrow> j \<le> k \<and> (b \<or> TimerIrq \<in> set (seen wake j k)) \<and>
     (\<forall>i. j \<le> i \<and> i < k \<longrightarrow> \<not> b \<and> TimerIrq \<notin> set (seen wake j i) \<and> ends_halt (wake i) \<noteq> None)"

lemma notices_next:
  assumes "\<not> b" "TimerIrq \<notin> set (before_load (wake j))" "ends_halt (wake j) = Some q"
  shows "notices (TimerIrq \<in> set (before_halt (wake j)) \<or> q = TimerIrq) wake (Suc j) k \<longleftrightarrow> j < k \<and> notices b wake j k"
proof -
  let ?c = "TimerIrq \<in> set (before_halt (wake j)) \<or> q = TimerIrq"
  have s: "TimerIrq \<in> set (seen wake j i) \<longleftrightarrow> ?c \<or> TimerIrq \<in> set (seen wake (Suc j) i)" if "j < i" for i
    using assms(2,3) that by (auto simp: seen_next iteration_def)
  have "(\<forall>i. Suc j \<le> i \<and> i < k \<longrightarrow> \<not> ?c \<and> TimerIrq \<notin> set (seen wake (Suc j) i) \<and> ends_halt (wake i) \<noteq> None) \<longleftrightarrow>
      (\<forall>i. Suc j \<le> i \<and> i < k \<longrightarrow> TimerIrq \<notin> set (seen wake j i) \<and> ends_halt (wake i) \<noteq> None)"
    using s by (auto simp: Suc_le_eq)
  moreover have "(\<forall>i. j \<le> i \<and> i < k \<longrightarrow> P i) \<longleftrightarrow> (j < k \<longrightarrow> P j) \<and> (\<forall>i. Suc j \<le> i \<and> i < k \<longrightarrow> P i)" for P
    by (metis Suc_leD Suc_leI le_neq_implies_less le_refl)
  ultimately show ?thesis
    using assms s [of k] by (auto simp: notices_def Suc_le_eq)
qed

text \<open>One iteration, by what it finds in the flag.\<close>

lemma wait_triggered_step:
  assumes "awaiting s"
  shows "\<exists>t. waited (length (before_load (wake j))) (TimerIrq \<in> set (before_load (wake j))) s t \<and>
    (if TRIGGERED_ONCE s \<or> TimerIrq \<in> set (before_load (wake j)) then wait_triggered wake (Suc fuel) j s = Some (Inr t)
     else case ends_halt (wake j) of
       None \<Rightarrow> wait_triggered wake (Suc fuel) j s = None
     | Some q \<Rightarrow> \<exists>u. waited (length (iteration (wake j))) (TimerIrq \<in> set (iteration (wake j))) s u \<and>
         wait_triggered wake (Suc fuel) j s = wait_triggered wake fuel (Suc j) u)"
proof -
  obtain t where t: "apic_deliver_all (before_load (wake j)) s = Some (Inr t)"
      "waited (length (before_load (wake j))) (TimerIrq \<in> set (before_load (wake j))) s t"
    using apic_deliver_all_waited [OF assms] by blast
  have at: "awaiting t"
    using waited_awaiting [OF assms t(2)] .
  obtain v where v: "apic_deliver_all (before_halt (wake j)) t = Some (Inr v)"
      "waited (length (before_halt (wake j))) (TimerIrq \<in> set (before_halt (wake j))) t v"
    using apic_deliver_all_waited [OF at] by blast
  have av: "awaiting v"
    using waited_awaiting [OF at v(2)] .
  have flag: "TRIGGERED_ONCE t \<longleftrightarrow> TRIGGERED_ONCE s \<or> TimerIrq \<in> set (before_load (wake j))"
    using t(2) by (simp add: waited_def)
  have "\<exists>u. waited (length (iteration (wake j))) (TimerIrq \<in> set (iteration (wake j))) s u \<and>
      wait_triggered wake (Suc fuel) j s = wait_triggered wake fuel (Suc j) u"
    if q: "ends_halt (wake j) = Some q" and off: "\<not> TRIGGERED_ONCE t" for q
  proof -
    obtain u where u: "apic_deliver q v = Some (Inr u)" "waited 1 (q = TimerIrq) v u"
      using apic_deliver_waited [OF av] by blast
    have "waited (length (iteration (wake j))) (TimerIrq \<in> set (iteration (wake j))) s u"
      using waited_trans [OF waited_trans [OF t(2) v(2)] u(2)] q
      by (auto simp: iteration_def elim!: back_subst [where P = "\<lambda>b. waited _ b s u"])
    then show ?thesis
      using t(1) v(1) u(1) q off av by (auto simp: awaiting_def)
  qed
  then show ?thesis
    using t v(1) flag by (cases "ends_halt (wake j)") auto
qed

lemma wait_triggered_returns:
  assumes "awaiting s" "notices (TRIGGERED_ONCE s) wake j k" "k - j < fuel"
  shows "\<exists>t. wait_triggered wake fuel j s = Some (Inr t) \<and> waited (length (seen wake j k)) True s t"
  using assms
proof (induction "k - j" arbitrary: j s fuel)
  case 0
  then have "j = k" "TRIGGERED_ONCE s \<or> TimerIrq \<in> set (before_load (wake j))"
    by (auto simp: notices_def)
  moreover obtain n where "fuel = Suc n"
    using "0.prems"(3) by (cases fuel) simp_all
  ultimately show ?case
    using wait_triggered_step [OF "0.prems"(1), of wake j n] by (auto simp: waited_def)
next
  case (Suc d)
  have j: "j < k" and off: "\<not> TRIGGERED_ONCE s" "TimerIrq \<notin> set (before_load (wake j))"
    using Suc.hyps(2) Suc.prems(2) by (auto simp: notices_def dest!: spec [of _ j])
  obtain q where q: "ends_halt (wake j) = Some q"
    using Suc.prems(2) j by (auto simp: notices_def)
  obtain n where n: "fuel = Suc n" "k - Suc j < n"
    using Suc.prems(3) j by (cases fuel) auto
  obtain u where u: "waited (length (iteration (wake j))) (TimerIrq \<in> set (iteration (wake j))) s u"
      "wait_triggered wake fuel j s = wait_triggered wake n (Suc j) u"
    using wait_triggered_step [OF Suc.prems(1), of wake j n] off q n(1) by auto
  have "TRIGGERED_ONCE u \<longleftrightarrow> TimerIrq \<in> set (before_halt (wake j)) \<or> q = TimerIrq"
    using u(1) off q by (auto simp: waited_def iteration_def)
  then have "notices (TRIGGERED_ONCE u) wake (Suc j) k"
    using notices_next [of "TRIGGERED_ONCE s" wake j q k] off q Suc.prems(2) j by simp
  then obtain t where t: "wait_triggered wake n (Suc j) u = Some (Inr t)" "waited (length (seen wake (Suc j) k)) True u t"
    using Suc.hyps(1) [of "Suc j" u n] diff_Suc [of k j] Suc.hyps(2) [symmetric]
      waited_awaiting [OF Suc.prems(1) u(1)] n(2) by auto
  then show ?case
    using u(2) waited_trans [OF u(1) t(2)] seen_next [OF j, of wake] by simp
qed


lemma unat_ucast_u16: "unat (ucast (n :: u16) :: usize) = unat n"
  by transfer (simp add: take_bit_take_bit min_def)

lemma calibrated_frequency_nat:
  assumes "n \<noteq> 0xFFFF"
  shows "\<exists>f. calibrated_frequency (ucast (n :: u16)) = Inr f \<and>
    unat f = 65535 div (65535 - unat n) * 1193182"
proof -
  have le: "unat n \<le> 65535" "unat n \<noteq> 65535"
    using unsigned_less [of n, where 'a = nat] assms by (auto simp: word_unat_eq_iff)
  let ?d = "(65535 :: usize) - ucast n"
  have d: "unat ?d = 65535 - unat n"
    using le(1) by (subst unat_sub) (auto simp: word_le_nat_alt unat_ucast_u16)
  define q where "q = 65535 div (65535 - unat n)"
  have "q \<le> 65535" "unat (65535 div ?d) = q"
    using d by (simp_all add: q_def unat_div)
  then have "unat (65535 div ?d * 1193182) = q * 1193182"
    by (simp only: unat_word_ariths) simp
  moreover have "?d \<noteq> 0"
    using d le by auto
  ultimately show ?thesis
    by (simp add: q_def calibrated_frequency_def TIMER_DELAY_def PIT_DIVIDEND_def Let_def)
qed

lemma irq_state_of_machine [simp]:
  "console.more (s\<lparr>io_log := l\<rparr>) = console.more s"
  "WRITER (s\<lparr>io_log := l\<rparr>) = WRITER s" for s :: "'a console_scheme"
  by simp_all

lemma finish_calibration_ok:
  assumes "wf_console s" "latches (device s) (io_log s) n" "n \<noteq> 0xFFFF"
  shows "\<exists>s'. finish_calibration s = Inr s' \<and> wf_console s' \<and> LAPIC s' = LAPIC s \<and>
    lapic_log s' = lapic_log s \<and> is_interrupts_enabled s' = is_interrupts_enabled s \<and>
    io_log s' = io_log s @ [Out 0x43 0, Inp 0x40 (low_byte n), Inp 0x40 (high_byte n)] \<and>
    unat (APIC_TIMER_FREQUENCY s') = 65535 div (65535 - unat n) * 1193182 \<and>
    IDT s' = (IDT s)(33 \<mapsto> \<lparr>entry_fn = ApicTimerHandler, stack_index = None\<rparr>) \<and>
    EVENT_HANDLERS s' = EVENT_HANDLERS s \<and> irq.more s' = irq.more s \<and>
    INITIALIZED s' = INITIALIZED s \<and> (\<not> INITIALIZED s \<longrightarrow> SHELL s' = SHELL s)"
proof -
  let ?c = "(irq_off s)\<lparr>io_log := io_log s @
      [Out 0x43 0, Inp 0x40 (low_byte n), Inp 0x40 (high_byte n)]\<rparr>"
  obtain t where t: "irq_println (ascii ''pit end: '' @ decimal (unat n)) (irq_restore s ?c) = Inr t"
      "wf_console t" "settings t = settings (irq_restore s ?c)"
    using irq_println_ok [of "irq_restore s ?c"] assms(1) by auto
  have "console.more t = console.more s" "is_interrupts_enabled t = is_interrupts_enabled s"
      "io_log t = io_log s @ [Out 0x43 0, Inp 0x40 (low_byte n), Inp 0x40 (high_byte n)]"
    using t(3) by (simp_all add: settings_def irq_restore_enabled)
  note more = irq_of_console_more [OF this(1)] this(2,3)
  have "INITIALIZED t = INITIALIZED s" "\<not> INITIALIZED s \<Longrightarrow> SHELL t = SHELL s"
    using t irq_println_plain [of "irq_restore s ?c" "ascii ''pit end: '' @ decimal (unat n)"] assms(1)
    by (auto simp: settings_def)
  moreover obtain f where "calibrated_frequency (ucast n) = Inr f"
      "unat f = 65535 div (65535 - unat n) * 1193182"
    using calibrated_frequency_nat [OF assms(3)] by blast
  ultimately show ?thesis
    using t(1,2) more read_pit_count_eq [OF assms(2)]
    by (simp add: finish_calibration_def set_handler_fn_def as_usize_def)
qed

text \<open>What \<^verbatim>\<open>init_apic\<close> has done to the ports when it starts to wait: the timer chip is programmed, the controllers masked.\<close>

definition calibration_ports :: "io_event list" where
  "calibration_ports = [Out 0x43 0x34, Out 0x40 0xff, Out 0x40 0xff, Out 0xa1 0xff, Out 0x21 0xff]"

lemma start_calibration_ok:
  assumes "wf_console s" "is_interrupts_enabled s" "apic_gates s" "build (lapic_config off base) = Inr l"
  shows "\<exists>t. start_calibration build base off s = Inr t \<and> awaiting t \<and> LAPIC t = Some l \<and> IDT t = IDT s \<and>
    lapic_log t = lapic_log s @ [SetTimerDivide Div64, SetTimerInitial 0xFFFF, SetTimerMode OneShot, LapicEnable] \<and>
    io_log t = io_log s @ calibration_ports \<and> device t = device s \<and> TRIGGERED_ONCE t = TRIGGERED_ONCE s \<and>
    EVENT_HANDLERS t = EVENT_HANDLERS s \<and> irq.more t = irq.more s \<and> INITIALIZED t = INITIALIZED s \<and>
    SHELL t = SHELL s"
proof -
  let ?a = "s\<lparr>LAPIC := Some l, lapic_log := lapic_log s @ [SetTimerDivide Div64,
    SetTimerInitial 0xFFFF, SetTimerMode OneShot]\<rparr>"
  obtain t where t: "write_channel0_count 0xFFFF ?a = Inr ((), t)"
      "io_log t = io_log s @ [Out 0x43 0x34, Out 0x40 0xff, Out 0x40 0xff]"
      "is_interrupts_enabled t = is_interrupts_enabled s" "device t = device s"
      "machine.more t = machine.more ?a"
    using write_channel0_count_effect [of "0xFFFF" ?a]
    by (auto simp: low_byte_def high_byte_def)
  note tm = irq_of_machine_more [OF t(5)]
  note tc = irq_of_console_more [OF conjunct1 [OF tm]]
  have "start_calibration build base off s = Inr (pic_disable (t\<lparr>lapic_log := lapic_log t @ [LapicEnable]\<rparr>))"
    using assms(4) t(1) tc by (simp add: start_calibration_def TIMER_DELAY_def)
  then show ?thesis
    using assms(1-3) tm tc t(2-4)
    by (simp add: awaiting_def apic_gates_def calibration_ports_def pic_disable_def port_write_def)
qed

lemma init_apic_ok:
  assumes "wf_console s" "is_interrupts_enabled s" "apic_gates s" "\<not> TRIGGERED_ONCE s"
    and "build (lapic_config off base) = Inr l" "notices False wake 0 k" "k < fuel"
    and "latches (device s) (io_log s @ calibration_ports) n" "n \<noteq> 0xFFFF"
  shows "\<exists>s'. init_apic build base wake fuel off s = Some (Inr s') \<and>
    LAPIC s' = Some l \<and> unat (APIC_TIMER_FREQUENCY s') = 65535 div (65535 - unat n) * 1193182 \<and>
    lapic_log s' = lapic_log s @ [SetTimerDivide Div64, SetTimerInitial 0xFFFF,
      SetTimerMode OneShot, LapicEnable] @ replicate (length (seen wake 0 k)) LapicEoi \<and>
    io_log s' = io_log s @ calibration_ports @ [Out 0x43 0, Inp 0x40 (low_byte n), Inp 0x40 (high_byte n)] \<and>
    IDT s' = (IDT s)(33 \<mapsto> \<lparr>entry_fn = ApicTimerHandler, stack_index = None\<rparr>) \<and> wf_console s' \<and>
    is_interrupts_enabled s' \<and> EVENT_HANDLERS s' = EVENT_HANDLERS s \<and> irq.more s' = irq.more s \<and>
    INITIALIZED s' = INITIALIZED s \<and> (\<not> INITIALIZED s \<longrightarrow> SHELL s' = SHELL s)"
proof -
  obtain t where start: "start_calibration build base off s = Inr t" "awaiting t"
      and t: "LAPIC t = Some l" "IDT t = IDT s"
      "lapic_log t = lapic_log s @ [SetTimerDivide Div64, SetTimerInitial 0xFFFF, SetTimerMode OneShot, LapicEnable]"
      "io_log t = io_log s @ calibration_ports" "device t = device s" "\<not> TRIGGERED_ONCE t"
      "EVENT_HANDLERS t = EVENT_HANDLERS s" "irq.more t = irq.more s" "INITIALIZED t = INITIALIZED s" "SHELL t = SHELL s"
    using start_calibration_ok [OF assms(1-3), of build off base l] assms(4,5) by auto
  obtain u where u: "wait_triggered wake fuel 0 t = Some (Inr u)" "waited (length (seen wake 0 k)) True t u"
    using wait_triggered_returns [OF start(2), of wake 0 k fuel] t(6) assms(6,7) by auto
  have "latches (device u) (io_log u) n" "wf_console u"
    using u(2) t assms(8) by (simp_all add: waited_def)
  then obtain s' where "finish_calibration u = Inr s'" "wf_console s'" "LAPIC s' = LAPIC u"
      "lapic_log s' = lapic_log u" "is_interrupts_enabled s' = is_interrupts_enabled u"
      "io_log s' = io_log u @ [Out 0x43 0, Inp 0x40 (low_byte n), Inp 0x40 (high_byte n)]"
      "unat (APIC_TIMER_FREQUENCY s') = 65535 div (65535 - unat n) * 1193182"
      "IDT s' = (IDT u)(33 \<mapsto> \<lparr>entry_fn = ApicTimerHandler, stack_index = None\<rparr>)"
      "EVENT_HANDLERS s' = EVENT_HANDLERS u" "irq.more s' = irq.more u"
      "INITIALIZED s' = INITIALIZED u" "\<not> INITIALIZED u \<longrightarrow> SHELL s' = SHELL u"
    using finish_calibration_ok [of u n] assms(9) by blast
  then show ?thesis
    using start u t by (simp add: init_apic_def waited_def awaiting_def)
qed

section \<open>Properties\<close>

text \<open>
  C18: Calibration succeeds if a load of the flag by the waiting loop of \<^verbatim>\<open>init_apic\<close> comes
  after the APIC timer interrupt: whatever other interrupts of the local APIC arrive in
  whatever places, the loop then ends, the stored frequency is 65535 / (65535 - count)
  (rounded down) times 1193182 for the count the timer chip holds, every interrupt that
  arrived was acknowledged to the APIC, vector 33 is switched to the scheduler, and the
  port accesses are exactly these: the timer chip is programmed, both interrupt
  controllers are masked, the count is latched and read.
\<close>

theorem init_apic_calibrates:
  assumes "wf_console s" "is_interrupts_enabled s" "apic_gates s" "\<not> TRIGGERED_ONCE s"
    and "build (lapic_config off base) = Inr l" "notices False wake 0 k" "k < fuel"
    and "latches (device s) (io_log s @ calibration_ports) n" "n \<noteq> 0xFFFF"
  shows "\<exists>s'. init_apic build base wake fuel off s = Some (Inr s') \<and>
    LAPIC s' = Some l \<and> unat (APIC_TIMER_FREQUENCY s') = 65535 div (65535 - unat n) * 1193182 \<and>
    lapic_log s' = lapic_log s @ [SetTimerDivide Div64, SetTimerInitial 0xFFFF,
      SetTimerMode OneShot, LapicEnable] @ replicate (length (seen wake 0 k)) LapicEoi \<and>
    io_log s' = io_log s @ [Out 0x43 0x34, Out 0x40 0xff, Out 0x40 0xff, Out 0xa1 0xff, Out 0x21 0xff,
      Out 0x43 0, Inp 0x40 (low_byte n), Inp 0x40 (high_byte n)] \<and>
    map_option entry_fn (IDT s' 33) = Some ApicTimerHandler \<and> wf_console s' \<and> is_interrupts_enabled s'"
  using init_apic_ok [of s build off base l wake k fuel n] assms by (auto simp: calibration_ports_def)


definition example_irq :: "(io_event list \<Rightarrow> u16 \<Rightarrow> u8) \<Rightarrow> unit irq" where
  "example_irq dev =
     \<lparr>rflags = 0x0202, io_log = [], device = dev, WRITER = writer_init clear_screen,
      SHELL = shell_static, INITIALIZED = True, IDT = Map.empty, IDT_LOADED = False, LAPIC = None,
      lapic_log = [], pic_log = [], APIC_TIMER_FREQUENCY = 0, TRIGGERED_ONCE = False,
      KEYBOARD = (), EVENT_HANDLERS = event_handlers_new\<rparr>"

lemma example_irq_simps [simp]:
  "WRITER (example_irq dev) = writer_init clear_screen" "SHELL (example_irq dev) = shell_static"
  "INITIALIZED (example_irq dev)" "wf_console (example_irq dev)" "io_log (example_irq dev) = []"
  "device (example_irq dev) = dev" "LAPIC (example_irq dev) = None"
  "\<not> TRIGGERED_ONCE (example_irq dev)" "IDT (example_irq dev) = Map.empty"
  "pic_log (example_irq dev) = []" "lapic_log (example_irq dev) = []" "is_interrupts_enabled (example_irq dev)"
  using example_console_simps(1)
  by (simp_all add: example_irq_def example_console_def is_interrupts_enabled_def flags_def)

text \<open>A machine about to calibrate, and interrupts: two reports, then the timer during a halt.\<close>

definition example_calib :: "(io_event list \<Rightarrow> u16 \<Rightarrow> u8) \<Rightarrow> unit irq" where
  "example_calib dev = (example_irq dev)\<lparr>IDT := [as_usize ApicTimer \<mapsto> \<lparr>entry_fn = ApicTimerConfigHandler, stack_index = None\<rparr>,
     as_usize ApicError \<mapsto> \<lparr>entry_fn = ApicErrorHandler, stack_index = None\<rparr>,
     as_usize ApicSpurious \<mapsto> \<lparr>entry_fn = ApicSpuriousHandler, stack_index = None\<rparr>]\<rparr>"

definition example_wake :: "nat \<Rightarrow> arrivals" where
  "example_wake i =
     \<lparr>before_load = [], before_halt = (if i = 0 then [ErrorIrq] else []),
      ends_halt = Some (if i = 0 then SpuriousIrq else TimerIrq)\<rparr>"

lemma example_notices: "notices False example_wake 0 2" "length (seen example_wake 0 2) = 3"
proof -
  have "i = 0 \<or> i = 1" if "i < 2" for i :: nat
    using that by linarith
  then show "notices False example_wake 0 2"
    by (auto simp: notices_def seen_def iteration_def example_wake_def upt_rec)
  show "length (seen example_wake 0 2) = 3"
    by (simp add: seen_def iteration_def example_wake_def upt_rec)
qed

lemma example_calib_simps [simp]:
  "wf_console (example_calib dev)" "is_interrupts_enabled (example_calib dev)" "apic_gates (example_calib dev)"
  "\<not> TRIGGERED_ONCE (example_calib dev)" "device (example_calib dev) = dev" "io_log (example_calib dev) = []"
  by (simp_all add: example_calib_def apic_gates_def as_usize_def)

theorem init_apic_calibrates_witness:
  "let dev = (\<lambda>log p. if last log = Out 0x43 0 then 0x00 else 0x80)
   in \<exists>s'. init_apic Inr 0xFEE00000 example_wake 3 0 (example_calib dev) = Some (Inr s') \<and>
        unat (APIC_TIMER_FREQUENCY s') = 2 * 1193182"
proof -
  let ?dev = "\<lambda>log p. if last log = Out 0x43 0 then 0x00 else 0x80 :: u8"
  have "latches ?dev calibration_ports 0x8000"
    by (simp add: latches_def low_byte_def high_byte_def calibration_ports_def)
  then show ?thesis
    using init_apic_calibrates [of "example_calib ?dev" Inr 0 "0xFEE00000" _ example_wake 2 3 "0x8000"]
      example_notices(1)
    by (auto simp: Let_def)
qed


text \<open>
  C32: The calibrated frequency is only a lower bound: it misses the exact quotient
  65535 * 1193182 / elapsed by less than 1193182, because the division comes before
  the multiplication, so it is 1193182 whatever the APIC's speed whenever at
  least half of the counter elapsed; and if the counter did not move at all the
  division panics.
\<close>

theorem calibration_error_bound:
  "calibrated_frequency (ucast (0xFFFF :: u16)) = Inl DivideByZero \<and>
   (n \<noteq> 0xFFFF \<longrightarrow> (\<exists>f. calibrated_frequency (ucast (n :: u16)) = Inr f \<and>
      unat f * (65535 - unat n) \<le> 65535 * 1193182 \<and>
      65535 * 1193182 < (unat f + 1193182) * (65535 - unat n) \<and>
      (unat n \<le> 32767 \<longrightarrow> unat f = 1193182)))"
proof (intro conjI impI)
  show "calibrated_frequency (ucast (0xFFFF :: u16)) = Inl DivideByZero"
    by (simp add: calibrated_frequency_def TIMER_DELAY_def)
next
  assume "n \<noteq> 0xFFFF"
  then obtain f where f: "calibrated_frequency (ucast n) = Inr f"
      "unat f = 65535 div (65535 - unat n) * 1193182"
    using calibrated_frequency_nat by blast
  define d where "d = 65535 - unat n"
  have d: "0 < d"
    using \<open>n \<noteq> 0xFFFF\<close> unsigned_less [of n, where 'a = nat]
    by (auto simp: d_def word_unat_eq_iff)
  have "65535 div d * d \<le> 65535" "65535 < (65535 div d + 1) * d"
    using d by (simp_all add: dividend_less_div_times)
  then have "65535 div d * d * 1193182 \<le> 65535 * 1193182"
      "65535 * 1193182 < (65535 div d + 1) * d * 1193182"
    by (simp_all only: mult_le_mono1 mult_less_mono1)
  then have bounds: "unat f * d \<le> 65535 * 1193182" "65535 * 1193182 < (unat f + 1193182) * d"
    using f(2) by (simp_all add: d_def [symmetric] algebra_simps)
  have "unat n \<le> 32767 \<Longrightarrow> 65535 div d = 1"
    using d by (intro div_nat_eqI) (auto simp: d_def)
  with f bounds show "\<exists>f. calibrated_frequency (ucast n) = Inr f \<and>
      unat f * (65535 - unat n) \<le> 65535 * 1193182 \<and>
      65535 * 1193182 < (unat f + 1193182) * (65535 - unat n) \<and>
      (unat n \<le> 32767 \<longrightarrow> unat f = 1193182)"
    by (auto simp: d_def)
qed

theorem calibration_error_bound_witness:
  "\<exists>f. calibrated_frequency (ucast (0x7FFF :: u16)) = Inr f \<and> unat f = 1193182"
  using calibration_error_bound [of "0x7FFF"] by auto

text \<open>
  C31: \<^verbatim>\<open>restart_apic\<close> acknowledges the interrupt and re-arms the one-shot timer with
  the frequency rounded down to a whole number of megahertz, truncated to 32 bits:
  exact below 4295 MHz. Without a local APIC it panics.
\<close>

theorem restart_apic_arms_timer:
  "(LAPIC s = None \<longrightarrow> restart_apic s = Inl UnwrapNone) \<and>
   (LAPIC s \<noteq> None \<longrightarrow> (\<exists>c. restart_apic s = Inr (s\<lparr>lapic_log := lapic_log s @
        [LapicEoi, SetTimerDivide Div64, SetTimerMode OneShot, SetTimerInitial c]\<rparr>) \<and>
      unat c = (unat (APIC_TIMER_FREQUENCY s) div 1000000 * 1000000) mod 2 ^ 32 \<and>
      (unat (APIC_TIMER_FREQUENCY s) < 4295 * 1000000 \<longrightarrow>
        unat c = unat (APIC_TIMER_FREQUENCY s) div 1000000 * 1000000)))"
proof (intro conjI impI)
  assume "LAPIC s = None"
  then show "restart_apic s = Inl UnwrapNone"
    by (simp add: restart_apic_def on_lapic_def)
next
  assume "LAPIC s \<noteq> None"
  then obtain l where l: "LAPIC s = Some l" by blast
  let ?f = "APIC_TIMER_FREQUENCY s"
  let ?c = "ucast (1000000 * (?f div 1000000)) :: u32"
  have "1000000 * (unat ?f div 1000000) \<le> unat ?f" by simp
  then have "1000000 * (unat ?f div 1000000) < 2 ^ 64"
    using unsigned_less [of ?f, where 'a = nat] by (simp del: times_div_less_eq_dividend)
  then have "unat (1000000 * (?f div 1000000)) = unat ?f div 1000000 * 1000000"
    by (simp add: unat_word_ariths unat_div)
  then have c: "unat ?c = (unat ?f div 1000000 * 1000000) mod 2 ^ 32"
    by (simp only: unsigned_ucast_eq unsigned_take_bit_eq) (simp add: take_bit_eq_mod)
  have "unat ?f < 4295 * 1000000 \<Longrightarrow> unat ?f div 1000000 \<le> 4294"
    by (simp add: less_Suc_eq_le [symmetric] div_less_iff_less_mult)
  then have "unat ?f < 4295 * 1000000 \<Longrightarrow> unat ?c = unat ?f div 1000000 * 1000000"
    using c by simp
  moreover have "restart_apic s = Inr (s\<lparr>lapic_log := lapic_log s @
        [LapicEoi, SetTimerDivide Div64, SetTimerMode OneShot, SetTimerInitial ?c]\<rparr>)"
    using l by (simp add: restart_apic_def start_timer_one_shot_def SCHEDULER_TIMER_DELAY_def)
  ultimately show "\<exists>c. restart_apic s = Inr (s\<lparr>lapic_log := lapic_log s @
        [LapicEoi, SetTimerDivide Div64, SetTimerMode OneShot, SetTimerInitial c]\<rparr>) \<and>
      unat c = (unat ?f div 1000000 * 1000000) mod 2 ^ 32 \<and>
      (unat ?f < 4295 * 1000000 \<longrightarrow> unat c = unat ?f div 1000000 * 1000000)"
    using c by blast
qed


theorem restart_apic_arms_timer_witness:
  "let s = (example_irq (\<lambda>_ _. 0))\<lparr>LAPIC := Some (lapic_config 0 0), APIC_TIMER_FREQUENCY := 2386364\<rparr>
   in restart_apic (example_irq (\<lambda>_ _. 0)) = Inl UnwrapNone \<and>
      (\<exists>c s'. restart_apic s = Inr s' \<and> last (lapic_log s') = SetTimerInitial c \<and> unat c = 2000000)"
  using restart_apic_arms_timer [of "example_irq (\<lambda>_ _. 0)"]
    restart_apic_arms_timer [of "(example_irq (\<lambda>_ _. 0))
      \<lparr>LAPIC := Some (lapic_config 0 0), APIC_TIMER_FREQUENCY := 2386364\<rparr>"]
  by (auto simp: Let_def)

section \<open>The descriptor table\<close>

lemma exception_vector_inj: "exception_vector e = exception_vector e' \<longleftrightarrow> e = e'"
  by (cases e; cases e') simp_all

lemma exception_vector_less: "exception_vector e < 32"
  by (cases e) simp_all

lemma as_usize_ge: "32 \<le> as_usize i"
  by (cases i) (simp_all add: as_usize_def PIC_1_OFFSET_def)

lemma as_usize_inj: "as_usize i = as_usize j \<longleftrightarrow> i = j"
  by (cases i; cases j) (simp_all add: as_usize_def PIC_1_OFFSET_def)

lemma exception_not_index [simp]: "exception_vector e \<noteq> as_usize i" "as_usize i \<noteq> exception_vector e"
  using exception_vector_less [of e] as_usize_ge [of i] by auto

lemma exception_not_page_fault [simp]: "exception_vector e \<noteq> 14" "14 \<noteq> exception_vector e"
  by (cases e; simp)+

declare exception_vector.simps [simp del]

lemma index_not_page_fault [simp]: "as_usize i \<noteq> 14" "14 \<noteq> as_usize i"
  using as_usize_ge [of i] by auto

lemma set_exceptions_simps [simp]:
  "set_exceptions [] s = s"
  "set_exceptions (e # es) s =
     set_exceptions es (set_handler_fn (exception_vector e) (ExceptionHandler e) s)"
  by (simp_all add: set_exceptions_def)

lemma set_exceptions_out:
  "v \<notin> exception_vector ` set es \<Longrightarrow> IDT (set_exceptions es s) v = IDT s v"
  by (induction es arbitrary: s) (auto simp: set_handler_fn_def)

lemma set_exceptions_in:
  "e \<in> set es \<Longrightarrow> IDT (set_exceptions es s) (exception_vector e) =
     Some \<lparr>entry_fn = ExceptionHandler e, stack_index = None\<rparr>"
proof (induction es arbitrary: s)
  case (Cons e' es)
  show ?case
  proof (cases "e \<in> set es")
    case True
    then show ?thesis using Cons.IH by simp
  next
    case False
    then show ?thesis
      using Cons.prems
      by (auto simp: set_exceptions_out set_handler_fn_def exception_vector_inj image_iff)
  qed
qed simp

text \<open>The exceptions \<^verbatim>\<open>init\<close> sets before the page fault and the double fault.\<close>

definition first_exceptions :: "exception list" where
  "first_exceptions =
     [Breakpoint, Overflow, BoundRangeExceeded, GeneralProtectionFault, AlignmentCheck,
      DivideError, NonMaskableInterrupt, InvalidOpcode, DeviceNotAvailable, SegmentNotPresent,
      StackSegmentFault, SecurityException, SimdFloatingPoint, X87FloatingPoint,
      VmmCommunication, Virtualization, Debug, InvalidTss]"

lemma set_first_exceptions: "set first_exceptions = UNIV - {DoubleFault}"
proof -
  have "e \<in> set first_exceptions \<longleftrightarrow> e \<noteq> DoubleFault" for e
    by (cases e) (simp_all add: first_exceptions_def)
  then show ?thesis by blast
qed

text \<open>The device handler each index of the table is meant for.\<close>

primrec index_handler :: "interrupt_index \<Rightarrow> handler option" where
  "index_handler Timer = Some TimerInterruptHandler"
| "index_handler ApicTimer = Some ApicTimerConfigHandler"
| "index_handler ApicError = Some ApicErrorHandler"
| "index_handler ApicSpurious = Some ApicSpuriousHandler"
| "index_handler Keyboard = Some KeyboardInterruptHandler"
| "index_handler Syscall = Some SyscallHandler"
| "index_handler Invalid = None"

lemma interrupts_init_IDT:
  "IDT (interrupts_init s) =
     (IDT (set_exceptions first_exceptions s))
       (14 \<mapsto> \<lparr>entry_fn = PageFaultHandler, stack_index = None\<rparr>,
        exception_vector DoubleFault \<mapsto> \<lparr>entry_fn = ExceptionHandler DoubleFault, stack_index = Some 0\<rparr>,
        as_usize Timer \<mapsto> \<lparr>entry_fn = TimerInterruptHandler, stack_index = None\<rparr>,
        as_usize Keyboard \<mapsto> \<lparr>entry_fn = KeyboardInterruptHandler, stack_index = None\<rparr>,
        as_usize ApicTimer \<mapsto> \<lparr>entry_fn = ApicTimerConfigHandler, stack_index = None\<rparr>,
        as_usize ApicError \<mapsto> \<lparr>entry_fn = ApicErrorHandler, stack_index = None\<rparr>,
        as_usize ApicSpurious \<mapsto> \<lparr>entry_fn = ApicSpuriousHandler, stack_index = None\<rparr>,
        as_usize Syscall \<mapsto> \<lparr>entry_fn = SyscallHandler, stack_index = None\<rparr>)"
  unfolding interrupts_init_def first_exceptions_def [symmetric] Let_def
  by (simp add: set_handler_fn_def set_stack_index_def DOUBLE_FAULT_IST_INDEX_def)

lemma interrupts_init_dom:
  assumes "IDT s = Map.empty"
  shows "dom (IDT (interrupts_init s)) = range exception_vector \<union> {14} \<union> as_usize ` (UNIV - {Invalid})"
proof -
  have "range exception_vector =
      insert (exception_vector DoubleFault) (exception_vector ` set first_exceptions)"
    by (auto simp: set_first_exceptions)
  moreover have "dom (IDT (set_exceptions first_exceptions s)) = exception_vector ` set first_exceptions"
    using set_exceptions_in [of _ first_exceptions s] set_exceptions_out [of _ first_exceptions s] assms
    by (force simp: dom_def)
  moreover have "UNIV - {Invalid} = {Timer, Keyboard, ApicTimer, ApicError, ApicSpurious, Syscall}"
    using interrupt_index.exhaust by auto
  ultimately show ?thesis
    by (simp add: interrupts_init_IDT) blast
qed

lemma machine_check_unused: "18 \<notin> range exception_vector" "18 \<noteq> as_usize i"
proof -
  show "18 \<notin> range exception_vector"
  proof
    assume "(18 :: usize) \<in> range exception_vector"
    then obtain e where "exception_vector e = 18" by auto
    then show False by (cases e) (simp_all add: exception_vector.simps)
  qed
  show "18 \<noteq> as_usize i"
    using as_usize_ge [of i] by auto
qed

text \<open>
  C24: After \<^verbatim>\<open>init\<close> every exception of the kernel's list is dispatched to its own
  handler, the page fault (vector 14) to \<^verbatim>\<open>page_fault_handler\<close>, the double fault on the
  interrupt stack that the task state segment sets up, and every device index to
  the handler meant for it: no entry overwrites another. Nothing else is present; in
  particular the machine check exception (vector 18) has no handler.
\<close>

theorem idt_complete:
  assumes "IDT s = Map.empty"
  shows "IDT (interrupts_init s) (exception_vector e) = Some \<lparr>entry_fn = ExceptionHandler e,
      stack_index = if e = DoubleFault then Some (of_nat DOUBLE_FAULT_IST_INDEX) else None\<rparr> \<and>
    IDT (interrupts_init s) 14 = Some \<lparr>entry_fn = PageFaultHandler, stack_index = None\<rparr> \<and>
    IDT (interrupts_init s) (as_usize i) =
      map_option (\<lambda>h. \<lparr>entry_fn = h, stack_index = None\<rparr>) (index_handler i) \<and>
    dom (IDT (interrupts_init s)) =
      range exception_vector \<union> {14} \<union> as_usize ` (UNIV - {Invalid}) \<and>
    18 \<notin> dom (IDT (interrupts_init s))"
proof -
  have "18 \<notin> dom (IDT (interrupts_init s))"
    unfolding interrupts_init_dom [OF assms] using machine_check_unused by auto
  moreover have "IDT (interrupts_init s) 14 = Some \<lparr>entry_fn = PageFaultHandler, stack_index = None\<rparr>"
    by (simp add: interrupts_init_IDT)
  moreover have "IDT (interrupts_init s) (as_usize i) =
      map_option (\<lambda>h. \<lparr>entry_fn = h, stack_index = None\<rparr>) (index_handler i)"
  proof -
    have "as_usize i \<notin> exception_vector ` set first_exceptions"
      by auto
    then have "IDT (set_exceptions first_exceptions s) (as_usize i) = None"
      using assms set_exceptions_out [of "as_usize i" first_exceptions s] by simp
    then show ?thesis
      by (cases i) (simp_all add: interrupts_init_IDT as_usize_inj)
  qed
  moreover have "IDT (interrupts_init s) (exception_vector e) = Some \<lparr>entry_fn = ExceptionHandler e,
      stack_index = if e = DoubleFault then Some (of_nat DOUBLE_FAULT_IST_INDEX) else None\<rparr>"
    using set_exceptions_in [of e first_exceptions s]
    by (cases "e = DoubleFault")
      (auto simp: interrupts_init_IDT set_first_exceptions exception_vector_inj
        DOUBLE_FAULT_IST_INDEX_def)
  ultimately show ?thesis
    using interrupts_init_dom [OF assms] by blast
qed

theorem idt_complete_witness:
  "map_option entry_fn (IDT (interrupts_init (example_irq (\<lambda>_ _. 0))) (as_usize Keyboard)) =
     Some KeyboardInterruptHandler \<and> as_usize Keyboard = 36"
  using idt_complete [of "example_irq (\<lambda>_ _. 0)" Debug Keyboard] by (simp add: as_usize_def)

text \<open>
  C37: The primary interrupt controller raises the keyboard line, its line 1, as
  vector \<^verbatim>\<open>PIC_1_OFFSET\<close> + 1. That vector is not the keyboard's but the APIC
  timer's: before the local APIC is set up, a key press runs the calibration
  handler, which unwraps the missing APIC and panics.
\<close>

theorem keyboard_line_misrouted:
  assumes "IDT s = Map.empty" "LAPIC s = None"
  shows "map_option entry_fn (IDT (interrupts_init s) (ucast (PIC_1_OFFSET + 1))) =
      Some ApicTimerConfigHandler \<and>
    as_usize Keyboard \<noteq> ucast (PIC_1_OFFSET + 1) \<and>
    apic_timer_config_handler (interrupts_init s) = Inl UnwrapNone"
proof -
  have "ucast (PIC_1_OFFSET + 1) = as_usize ApicTimer"
    by (simp add: as_usize_def PIC_1_OFFSET_def)
  moreover have "LAPIC (set_exceptions es s) = None" for es
    using assms(2) by (induction es arbitrary: s) (simp_all add: set_handler_fn_def)
  then have "LAPIC (interrupts_init s) = None"
    unfolding interrupts_init_def first_exceptions_def [symmetric] Let_def
    by (simp add: set_handler_fn_def set_stack_index_def)
  ultimately show ?thesis
    by (simp add: interrupts_init_IDT as_usize_inj apic_timer_config_handler_def on_lapic_def)
qed

theorem keyboard_line_misrouted_witness:
  "apic_timer_config_handler (interrupts_init (example_irq (\<lambda>_ _. 0))) = Inl UnwrapNone"
  using keyboard_line_misrouted [of "example_irq (\<lambda>_ _. 0)"] by simp

section \<open>Acknowledgement\<close>

text \<open>Exactly one acknowledgement, to whichever controller is in charge.\<close>

definition acknowledged :: "u8 \<Rightarrow> ('kb, 'a) irq_scheme \<Rightarrow> ('kb, 'a) irq_scheme \<Rightarrow> bool" where
  "acknowledged v s s' \<longleftrightarrow>
     LAPIC s' = LAPIC s \<and>
     lapic_log s' = lapic_log s @ (if has_lapic s then [LapicEoi] else []) \<and>
     pic_log s' = pic_log s @ (if has_lapic s then [] else [PicEoi v])"

lemma end_of_interrupt_acknowledges:
  "\<exists>s'. end_of_interrupt v s = Inr s' \<and> acknowledged v s s' \<and> WRITER s' = WRITER s \<and>
     SHELL s' = SHELL s \<and> INITIALIZED s' = INITIALIZED s \<and> io_log s' = io_log s \<and>
     device s' = device s \<and> KEYBOARD s' = KEYBOARD s \<and> EVENT_HANDLERS s' = EVENT_HANDLERS s"
  by (auto simp: end_of_interrupt_def has_lapic_def acknowledged_def)

lemma call_kb_handler_eq:
  "call_kb_handler b d h ev s = (if has_shell s then key_event b d (key ev) s else Inr s)"
  by (cases h) simp

lemma dispatch_key_ok: "wf_console s \<Longrightarrow> ok s (dispatch_key kc k s)"
  unfolding dispatch_key_def call_keyboard_event_def
  by (rule ok_for_each) (simp_all add: call_kb_handler_eq key_event_ok ok_Inr)

text \<open>What a scancode decodes to, with the decoder's state after it.\<close>

definition decode :: "('kb, 'ev, 'k) kb_crate \<Rightarrow> u8 \<Rightarrow> 'kb \<Rightarrow> 'k decoded_key option \<times> 'kb" where
  "decode kc b kb =
     (case add_byte kc b kb of
        (Some (Some ev), kb) \<Rightarrow> process_keyevent kc ev kb
      | (_, kb) \<Rightarrow> (None, kb))"

lemma keyboard_interrupt_eq:
  assumes "decode kc (device s (io_log s) 0x60) (KEYBOARD s) = (k, kb)"
  shows "keyboard_interrupt_handler kc s =
    bind_res
      ((case k of Some k \<Rightarrow> dispatch_key kc k | None \<Rightarrow> Inr)
        (s\<lparr>io_log := io_log s @ [Inp 0x60 (device s (io_log s) 0x60)], KEYBOARD := kb\<rparr>))
      (end_of_interrupt (as_u8 Keyboard))"
  using assms
  by (auto simp: keyboard_interrupt_handler_def port_read_def decode_def Let_def
      split: prod.splits option.splits)

lemma keyboard_interrupt_ok:
  assumes "wf_console s" "decode kc (device s (io_log s) 0x60) (KEYBOARD s) = (k, kb)"
  shows "\<exists>s'. keyboard_interrupt_handler kc s = Inr s' \<and> acknowledged (as_u8 Keyboard) s s' \<and>
    wf_console s' \<and> io_log s' = io_log s @ [Inp 0x60 (device s (io_log s) 0x60)] \<and>
    device s' = device s \<and> KEYBOARD s' = kb \<and> EVENT_HANDLERS s' = EVENT_HANDLERS s \<and>
    INITIALIZED s' = INITIALIZED s \<and>
    (\<exists>t. (case k of Some k \<Rightarrow> dispatch_key kc k | None \<Rightarrow> Inr)
        (s\<lparr>io_log := io_log s @ [Inp 0x60 (device s (io_log s) 0x60)], KEYBOARD := kb\<rparr>) = Inr t \<and>
      WRITER s' = WRITER t \<and> SHELL s' = SHELL t)"
proof -
  let ?s = "s\<lparr>io_log := io_log s @ [Inp 0x60 (device s (io_log s) 0x60)], KEYBOARD := kb\<rparr>"
  have "ok ?s ((case k of Some k \<Rightarrow> dispatch_key kc k | None \<Rightarrow> Inr) ?s)"
    using assms(1) by (simp add: dispatch_key_ok ok_Inr split: option.split)
  then obtain t where t: "(case k of Some k \<Rightarrow> dispatch_key kc k | None \<Rightarrow> Inr) ?s = Inr t"
      "wf_console t" "settings t = settings ?s"
    by (auto simp: ok_def)
  have "console.more t = console.more ?s" "io_log t = io_log ?s" "device t = device s"
      "INITIALIZED t = INITIALIZED s"
    using t(3) by (simp_all add: settings_def)
  then show ?thesis
    using end_of_interrupt_acknowledges [of "as_u8 Keyboard" t] irq_of_console_more [of t ?s]
      keyboard_interrupt_eq [OF assms(2)] t(1,2)
    by (auto simp: acknowledged_def has_lapic_def)
qed

text \<open>
  C23: Every device interrupt is acknowledged exactly once, to the local APIC when
  there is one and otherwise to the interrupt controllers under its own vector:
  the timer's, and the keyboard's for every scancode, every decoder, every set of
  registered handlers and every state of the screen. No scancode makes the
  keyboard handler panic, and it reads the port exactly once.
\<close>

theorem interrupts_acknowledged_once:
  assumes "wf_console s"
  shows "(\<exists>s'. timer_interrupt_handler s = Inr s' \<and> acknowledged (as_u8 Timer) s s') \<and>
    (\<exists>s'. keyboard_interrupt_handler kc s = Inr s' \<and> acknowledged (as_u8 Keyboard) s s' \<and>
      io_log s' = io_log s @ [Inp 0x60 (device s (io_log s) 0x60)])"
proof -
  obtain k kb where "decode kc (device s (io_log s) 0x60) (KEYBOARD s) = (k, kb)" by fastforce
  then show ?thesis
    using keyboard_interrupt_ok [OF assms, of kc k kb] end_of_interrupt_acknowledges [of "as_u8 Timer" s]
    unfolding timer_interrupt_handler_def by blast
qed

definition example_kb :: "(unit, u8, unit) kb_crate" where
  "example_kb =
     \<lparr>add_byte = (\<lambda>b _. (Some (if b < 0x80 then Some b else None), ())),
      process_keyevent = (\<lambda>b _. (Some (Unicode (unat b)), ())),
      backspace_key = (), fmt_key = (\<lambda>_. [])\<rparr>"

theorem interrupts_acknowledged_once_witness:
  "\<exists>s'. keyboard_interrupt_handler example_kb (example_irq (\<lambda>_ _. 0x41)) = Inr s' \<and>
     pic_log s' = [PicEoi 36] \<and> lapic_log s' = []"
  using interrupts_acknowledged_once [of "example_irq (\<lambda>_ _. 0x41)" example_kb]
  by (auto simp: acknowledged_def has_lapic_def)

section \<open>From the keyboard to the line editor\<close>

definition kb_reads :: "io_event list \<Rightarrow> nat" where
  "kb_reads log = length (filter (\<lambda>e. case e of Inp p _ \<Rightarrow> p = 0x60 | _ \<Rightarrow> False) log)"

text \<open>The keyboard controller hands over the scancodes \<open>bs\<close> one per read of its port.\<close>

definition delivers :: "(io_event list \<Rightarrow> u16 \<Rightarrow> u8) \<Rightarrow> nat \<Rightarrow> bytes \<Rightarrow> bool" where
  "delivers dev n bs \<longleftrightarrow>
     (\<forall>log. n \<le> kb_reads log \<and> kb_reads log < n + length bs \<longrightarrow> dev log 0x60 = bs ! (kb_reads log - n))"

fun decode_all :: "('kb, 'ev, 'k) kb_crate \<Rightarrow> 'kb \<Rightarrow> bytes \<Rightarrow> 'k decoded_key list" where
  "decode_all kc kb [] = []"
| "decode_all kc kb (b # bs) =
     (case decode kc b kb of
        (None, kb) \<Rightarrow> decode_all kc kb bs
      | (Some k, kb) \<Rightarrow> k # decode_all kc kb bs)"

lemma delivers_Cons:
  assumes "delivers dev (kb_reads log) (b # bs)"
  shows "dev log 0x60 = b \<and> delivers dev (kb_reads (log @ [Inp 0x60 b])) bs"
proof
  show "dev log 0x60 = b"
    using assms by (simp add: delivers_def)
  have "dev l 0x60 = bs ! (kb_reads l - Suc (kb_reads log))"
    if "Suc (kb_reads log) \<le> kb_reads l" "kb_reads l < Suc (kb_reads log) + length bs" for l
  proof -
    have "dev l 0x60 = (b # bs) ! (kb_reads l - kb_reads log)"
      using assms that by (auto simp: delivers_def)
    moreover have "kb_reads l - kb_reads log = Suc (kb_reads l - Suc (kb_reads log))"
      using that by linarith
    ultimately show ?thesis by simp
  qed
  then show "delivers dev (kb_reads (log @ [Inp 0x60 b])) bs"
    by (simp add: delivers_def kb_reads_def)
qed

lemma editing_cong:
  "WRITER s' = WRITER s \<Longrightarrow> SHELL s' = SHELL s \<Longrightarrow> editing pre up t s' \<longleftrightarrow> editing pre up t s"
  by (simp add: editing_def)

lemma editing_dispatch:
  assumes "editing pre up t s" "EVENT_HANDLERS s = \<lparr>keyboard = [ShellKeyHandler]\<rparr>" "INITIALIZED s"
    and "edit_key k" "length pre + length t < 80"
  shows "\<exists>s'. dispatch_key kc (Unicode k) s = Inr s' \<and> editing pre up (edit k t) s'"
  using editing_keys [OF assms(1), of "[k]" "backspace_key kc" "fmt_key kc"] assms(2-)
  by (simp add: dispatch_key_def call_keyboard_event_def has_shell_def)

lemma keyboard_session:
  assumes "editing pre up t s" "EVENT_HANDLERS s = \<lparr>keyboard = [ShellKeyHandler]\<rparr>" "INITIALIZED s"
    and "delivers (device s) (kb_reads (io_log s)) bs"
    and "decode_all kc (KEYBOARD s) bs = map Unicode ks" "list_all edit_key ks"
    and "length pre + length t + length ks \<le> 80"
  shows "\<exists>s'. for_each (\<lambda>_. keyboard_interrupt_handler kc) bs s = Inr s' \<and>
    editing pre up (fold edit ks t) s' \<and> LAPIC s' = LAPIC s \<and>
    lapic_log s' = lapic_log s @ (if has_lapic s then replicate (length bs) LapicEoi else []) \<and>
    pic_log s' = pic_log s @ (if has_lapic s then [] else replicate (length bs) (PicEoi (as_u8 Keyboard)))"
  using assms
proof (induction bs arbitrary: t s ks)
  case Nil
  then show ?case by simp
next
  case (Cons b bs)
  obtain k kb where d: "decode kc b (KEYBOARD s) = (k, kb)" by fastforce
  have b: "device s (io_log s) 0x60 = b"
      and rest: "delivers (device s) (kb_reads (io_log s @ [Inp 0x60 b])) bs"
    using delivers_Cons [OF Cons.prems(4)] by simp_all
  let ?u = "s\<lparr>io_log := io_log s @ [Inp 0x60 b], KEYBOARD := kb\<rparr>"
  obtain s' v where s': "keyboard_interrupt_handler kc s = Inr s'"
      "acknowledged (as_u8 Keyboard) s s'" "io_log s' = io_log s @ [Inp 0x60 b]"
      "device s' = device s" "KEYBOARD s' = kb" "EVENT_HANDLERS s' = EVENT_HANDLERS s"
      "INITIALIZED s' = INITIALIZED s"
      "(case k of Some k \<Rightarrow> dispatch_key kc k | None \<Rightarrow> Inr) ?u = Inr v"
      "WRITER s' = WRITER v" "SHELL s' = SHELL v"
    using keyboard_interrupt_ok [of s kc k kb] Cons.prems(1) d b by (auto simp: editing_def)
  have log: "LAPIC s' = LAPIC s" "has_lapic s' = has_lapic s"
      "lapic_log s' = lapic_log s @ (if has_lapic s then [LapicEoi] else [])"
      "pic_log s' = pic_log s @ (if has_lapic s then [] else [PicEoi (as_u8 Keyboard)])"
    using s'(2) by (simp_all add: acknowledged_def has_lapic_def)
  have u: "editing pre up t ?u"
    using Cons.prems(1) by (simp add: editing_cong [of ?u s])
  have "\<exists>t' ks'. decode_all kc kb bs = map Unicode ks' \<and> list_all edit_key ks' \<and>
      fold edit ks t = fold edit ks' t' \<and> length pre + length t' + length ks' \<le> 80 \<and>
      editing pre up t' v"
  proof (cases k)
    case None
    then show ?thesis
      using Cons.prems d s'(8) u by auto
  next
    case (Some a)
    then obtain c ks' where ks: "ks = c # ks'" "a = Unicode c" "decode_all kc kb bs = map Unicode ks'"
      using Cons.prems(5) d by (cases ks) auto
    have "length (edit c t) \<le> Suc (length t)"
      by (simp add: edit_def) linarith
    moreover have "editing pre up (edit c t) v"
      using editing_dispatch [OF u, of c kc] Cons.prems s'(8) Some ks by auto
    ultimately show ?thesis
      using Cons.prems ks by (intro exI [of _ "edit c t"] exI [of _ ks']) auto
  qed
  then obtain t' ks' where "decode_all kc kb bs = map Unicode ks'" "list_all edit_key ks'"
      "fold edit ks t = fold edit ks' t'" "length pre + length t' + length ks' \<le> 80"
      "editing pre up t' s'"
    using s'(9,10) by (auto simp: editing_cong [of s' v])
  then show ?case
    using Cons.IH [of t' s' ks'] Cons.prems s' rest log by (cases "has_lapic s") auto
qed

text \<open>
  C11: Typing through the interrupt path refines the line editor: behind a prompt with the
  rest of the row blank, however the scancodes are decoded, if the decoded keys
  are printable ASCII or backspace and fit the row, then after one keyboard interrupt per
  scancode the bottom row shows the prompt untouched, followed by exactly the edited
  text and blanks, and each interrupt was acknowledged once: to the local APIC if there
  is one, otherwise to the interrupt controllers under the keyboard's vector.
\<close>

theorem typing_through_interrupts:
  assumes "wf_console s" "INITIALIZED s" "EVENT_HANDLERS s = \<lparr>keyboard = [ShellKeyHandler]\<rparr>"
    and "column_position (WRITER s) = of_nat n" "written_char_count (SHELL s) = 0"
    and "drop n (buffer (WRITER s) ! 24) = replicate (80 - n) (blank_cell (w_color (WRITER s)))"
    and "delivers (device s) (kb_reads (io_log s)) bs"
    and "decode_all kc (KEYBOARD s) bs = map Unicode ks" "list_all edit_key ks"
    and "n + length ks \<le> 80"
  shows "\<exists>s'. for_each (\<lambda>_. keyboard_interrupt_handler kc) bs s = Inr s' \<and>
    editing (take n (buffer (WRITER s) ! 24)) (take 24 (buffer (WRITER s))) (fold edit ks []) s' \<and>
    lapic_log s' = lapic_log s @ (if has_lapic s then replicate (length bs) LapicEoi else []) \<and>
    pic_log s' = pic_log s @ (if has_lapic s then [] else replicate (length bs) (PicEoi (as_u8 Keyboard)))"
  using keyboard_session [OF editing_prompt [of s n], of bs kc ks] assms by auto

theorem typing_through_interrupts_witness:
  "let bs = [0x48, 0xC8, 0x69, 0xE9, 8] :: bytes;
       s = init_kb_handler (example_irq (\<lambda>log _. bs ! kb_reads log))
   in \<exists>s'. for_each (\<lambda>_. keyboard_interrupt_handler example_kb) bs s = Inr s' \<and>
        editing [] (take 24 (buffer (WRITER s))) [0x48] s' \<and>
        lapic_log s' = [] \<and> pic_log s' = [PicEoi 36, PicEoi 36, PicEoi 36, PicEoi 36, PicEoi 36]"
proof -
  let ?bs = "[0x48, 0xC8, 0x69, 0xE9, 8] :: bytes"
  let ?s = "init_kb_handler (example_irq (\<lambda>log _. ?bs ! kb_reads log))"
  have "list_all edit_key [0x48, 0x69, 8]"
    by (simp add: edit_key_def)
  moreover have "decode_all example_kb () ?bs = map Unicode [0x48, 0x69, 8]"
    by (simp add: decode_def example_kb_def)
  moreover have "delivers (device ?s) (kb_reads (io_log ?s)) ?bs"
    by (simp add: delivers_def init_kb_handler_def kb_reads_def)
  ultimately show ?thesis
    using typing_through_interrupts [of ?s 0 ?bs example_kb "[0x48, 0x69, 8]"]
    by (simp add: init_kb_handler_def example_irq_def register_keyboard_handler_def
        event_handlers_new_def edit_def Let_def clear_bottom has_lapic_def)
qed

end
