(* ===== verification/Context_Props.thy ===== *)
theory Context_Props
  imports Context_Switch Interrupt_Props
begin

unbundle bit_operations_syntax

text \<open>
  Properties of the context switch: a preempted task resumes exactly where it
  was, a new task starts in its entry function, a tick never panics and keeps the
  scheduling invariant, and the task state segment is never updated.
\<close>

section \<open>Saving and resuming\<close>

lemma ucast_selector [simp]: "ucast (ucast (v :: u16) :: u64) = v"
  by (intro bit_word_eqI) (simp add: bit_simps)

lemma call_scratch_simps [simp]:
  "CPU (call_scratch f s) = CPU s" "SEGMENTS (call_scratch f s) = SEGMENTS s"
  "LAPIC (call_scratch f s) = LAPIC s" "lapic_log (call_scratch f s) = lapic_log s"
  "SCHED (call_scratch f s) = (SCHED s)\<lparr>smem := f (rsp (CPU s)) (memory s)\<rparr>"
  by (simp_all add: call_scratch_def set_memory_def)

lemma restart_apic_kernel:
  assumes "restart_apic s = Inr s'"
  shows "CPU s' = CPU s" "SCHED s' = SCHED s" "SEGMENTS s' = SEGMENTS s" "LAPIC s' = LAPIC s"
    "rflags s' = rflags s"
    "\<exists>c. lapic_log s' = lapic_log s @
       [LapicEoi, SetTimerDivide Div64, SetTimerMode OneShot, SetTimerInitial c]"
  using assms
  by (auto simp: restart_apic_def start_timer_one_shot_def on_lapic_def split: option.splits)

lemma timer_save_rsp:
  assumes "timer_save scratch al f s = Inr (p, s')" "boxes (SCHED s') p = Some st"
  shows "kernel_rsp st = rsp (CPU (save_registers s))"
proof -
  obtain t q sc where t: "restart_apic (save_registers s) = Inr t"
      "current_task_ptr al f (SCHED (call_scratch scratch t)) = Inr (q, sc)"
    using assms(1) by (auto simp: timer_save_def bind_res_eq_Inr Let_def)
  have "p = q" "SCHED s' = store_kernel_rsp q (rsp (CPU t)) (SCHED (call_scratch scratch
      ((call_scratch scratch t)\<lparr>SCHED := sc\<rparr>)))"
    using assms(1) t by (auto simp: timer_save_def Let_def)
  then show ?thesis
    using assms(2) restart_apic_kernel(1) [OF t(1)] by (auto simp: store_kernel_rsp_def)
qed

section \<open>Properties\<close>

lemma timer_resume_checked:
  assumes "timer_resume scratch p u = Inr u'"
  shows "\<exists>v. timer_restore scratch p u = Inr v \<and>
    iretq_checked fmt code h v =
      (if selectors_ok (reg_cs (CPU u')) (reg_ss (CPU u')) then Inr u'
       else exception_handler GeneralProtectionFault fmt code (interrupt_entry h v))"
  using assms by (auto simp: timer_resume_def bind_res_eq_Inr iretq_checked_def Let_def)

text \<open>
  C3: A preempted task resumes exactly where it was. For every processor state in
  which the timer interrupt arrives, if the handler saves through the pointer \<open>p\<close>
  and, at any later time, resumes the box at \<open>p\<close> with the box and the 160
  bytes of the saved frame as they were left, then every general purpose register,
  the instruction and stack pointers, the flags and the code and stack selectors
  are those of the interrupted task; the four data selectors ds, es, fs and gs are
  zeroed. The processor's check of the final \<^verbatim>\<open>iretq\<close> passes if the interrupted
  task's code and stack selectors are valid ones.
\<close>

theorem preempted_task_resumes:
  assumes "keeps_above scratch"
    and "timer_save scratch al f (interrupt_entry h s) = Inr (p, s')"
    and "boxes (SCHED s') p = Some st" "boxes (SCHED u) p = Some st"
    and "agree_frame (kernel_rsp st) (memory (save_registers (interrupt_entry h s))) (memory u)"
  shows "\<exists>u'. timer_resume scratch p u = Inr u' \<and>
    CPU u' = (CPU s)\<lparr>reg_ds := 0, reg_es := 0, reg_fs := 0, reg_gs := 0\<rparr> \<and> rflags u' = rflags s \<and>
    (selectors_ok (reg_cs (CPU s)) (reg_ss (CPU s)) \<longrightarrow>
      bind_res (timer_restore scratch p u) (iretq_checked fmt code fault) = Inr u')"
proof -
  let ?a = "entry_stack s"
  have rsp: "kernel_rsp st = slot ?a 20"
    using timer_save_rsp [OF assms(2,3)] saved_word(2) [of 0 h s] by simp
  have "read64 (memory u) (slot ?a k) = context_words (CPU s) (rflags s) ! (k - 1)"
    if "0 < k" "k \<le> 20" for k
    using agree_frame_read [OF assms(5) [unfolded rsp], of k] saved_word(1) [of "k - 1" h s] that by simp
  from this [of 1] this [of 2] this [of 3] this [of 4] this [of 5] this [of 6] this [of 7]
    this [of 8] this [of 9] this [of 10] this [of 11] this [of 12] this [of 13] this [of 14]
    this [of 15] this [of 16] this [of 17] this [of 18] this [of 19] this [of 20]
  have "\<exists>u'. timer_resume scratch p u = Inr u' \<and>
    CPU u' = (CPU s)\<lparr>reg_ds := 0, reg_es := 0, reg_fs := 0, reg_gs := 0\<rparr> \<and> rflags u' = rflags s"
    using timer_resume_frame [OF assms(1,4) rsp]
    by (cases "CPU s") (auto simp: context_words_def)
  then show ?thesis
    using timer_resume_checked [of scratch p u _ fmt code fault] by force
qed

definition example_cpu :: cpu where
  "example_cpu =
     \<lparr>rax = 1, rbx = 2, rcx = 3, rdx = 4, rsi = 5, rdi = 6, rbp = 7, rsp = 0x9000, r8 = 8, r9 = 9,
      r10 = 10, r11 = 11, r12 = 12, r13 = 13, r14 = 14, r15 = 15, rip = 0x1234, reg_cs = 8,
      reg_ss = 0, reg_ds = 0, reg_es = 0, reg_fs = 0, reg_gs = 0\<rparr>"

definition example_kernel :: "sched \<Rightarrow> unit kernel" where
  "example_kernel sc =
     \<lparr>rflags = 0x0202, io_log = [], device = (\<lambda>_ _. 0), WRITER = writer_init clear_screen,
      SHELL = shell_static, INITIALIZED = True, IDT = Map.empty, IDT_LOADED = True,
      LAPIC = Some (lapic_config 0 0), lapic_log = [], pic_log = [], APIC_TIMER_FREQUENCY = 1193182,
      TRIGGERED_ONCE = True, KEYBOARD = (), EVENT_HANDLERS = event_handlers_new,
      CPU = example_cpu, SCHED = sc,
      SEGMENTS = \<lparr>TSS = \<lparr>privilege_stack_table = [0x5000, 0, 0], interrupt_stack_table = [0x6000]\<rparr>,
        loaded_cs = Some 8, loaded_tr = Some 0x20\<rparr>\<rparr>"

lemma save_registers_keeps [simp]:
  "LAPIC (save_registers s) = LAPIC s" "lapic_log (save_registers s) = lapic_log s"
  "SEGMENTS (save_registers s) = SEGMENTS s"
  by (simp_all only: save_registers_def Let_def push_all_keeps)

lemma save_registers_SCHED: "\<exists>m. SCHED (save_registers s) = (SCHED s)\<lparr>smem := m\<rparr>"
  unfolding save_registers_def Let_def push_all_SCHED by blast

lemma current_task_ptr_total:
  "void_task s \<noteq> None \<Longrightarrow> \<exists>p s'. current_task_ptr al f s = Inr (p, s')"
  by (cases "current s"; cases "get_idle_task al f s")
    (auto simp: current_task_ptr_def Let_def)

lemma timer_save_total:
  assumes "reachable f (SCHED s)" "LAPIC s \<noteq> None" "alloc_box al \<notin> dom (boxes (SCHED s))"
  shows "\<exists>p s'. timer_save scratch al f s = Inr (p, s') \<and> reachable f (SCHED s') \<and>
    SEGMENTS s' = SEGMENTS s \<and> LAPIC s' = LAPIC s \<and>
    current (SCHED s') = current (SCHED s) \<and> scheduler (SCHED s') = scheduler (SCHED s) \<and>
    dom (boxes (SCHED s')) \<subseteq> insert (alloc_box al) (dom (boxes (SCHED s))) \<and>
    (\<exists>c. lapic_log s' = lapic_log s @
       [LapicEoi, SetTimerDivide Div64, SetTimerMode OneShot, SetTimerInitial c])"
proof -
  obtain l where "LAPIC s = Some l"
    using assms(2) by auto
  then obtain t where t: "restart_apic (save_registers s) = Inr t"
    by (simp add: restart_apic_def start_timer_one_shot_def)
  note k = restart_apic_kernel [OF t]
  obtain m where m: "SCHED (call_scratch scratch t) = (SCHED s)\<lparr>smem := m\<rparr>"
    using k(2) save_registers_SCHED [of s] by fastforce
  have same: "boxes (SCHED t) = boxes (SCHED s)" "current (SCHED t) = current (SCHED s)"
      "scheduler (SCHED t) = scheduler (SCHED s)"
    using k(2) save_registers_SCHED [of s] by auto
  have r: "reachable f (SCHED (call_scratch scratch t))"
    unfolding m using assms(1) by (rule reachable.run)
  then have "void_task (SCHED (call_scratch scratch t)) \<noteq> None"
    using reachable_inv unfolding boxes_ok_def by blast
  then obtain p sc where p: "current_task_ptr al f (SCHED (call_scratch scratch t)) = Inr (p, sc)"
    using current_task_ptr_total by blast
  let ?v = "(call_scratch scratch t)\<lparr>SCHED := sc\<rparr>"
  let ?s' = "(call_scratch scratch ?v)\<lparr>SCHED := store_kernel_rsp p (rsp (CPU t)) (SCHED (call_scratch scratch ?v))\<rparr>"
  have "timer_save scratch al f s = Inr (p, ?s')"
    using t p by (simp add: timer_save_def Let_def)
  moreover have "SCHED ?s' = (store_kernel_rsp p (rsp (CPU t)) sc)\<lparr>smem := scratch (rsp (CPU t)) (smem sc)\<rparr>"
    by (simp add: store_kernel_rsp_def)
  moreover have "reachable f (store_kernel_rsp p (rsp (CPU t)) sc)"
    using reachable.save [OF r _ p] assms(3) same by simp
  moreover have "scheduler sc = scheduler (SCHED s) \<and> current sc = current (SCHED s) \<and>
      dom (boxes sc) \<subseteq> insert (alloc_box al) (dom (boxes (SCHED s)))"
    using current_task_frame [OF p] same by (auto simp: builds_idle_def)
  ultimately show ?thesis
    using k by (auto simp: reachable.run)
qed

lemma timer_resume_total:
  assumes "boxes (SCHED s) p = Some st"
  shows "\<exists>s' m. timer_resume scratch p s = Inr s' \<and> SEGMENTS s' = SEGMENTS s \<and> LAPIC s' = LAPIC s \<and>
    lapic_log s' = lapic_log s \<and> SCHED s' = (SCHED s)\<lparr>smem := m\<rparr>"
  using assms
  by (simp add: timer_resume_def timer_restore_def Let_def pop_def iretq_def restore_registers_def tss_ptr_def
      store_rsp0_def push_all_SCHED) (rule exI, rule refl)

lemma timer_tick_ok:
  assumes "reachable f (SCHED s)" "LAPIC s \<noteq> None" "alloc_box al \<notin> dom (boxes (SCHED s))"
    and "alloc_box al' \<notin> dom (boxes (SCHED s))" "alloc_box al' \<noteq> alloc_box al"
  shows "\<exists>s'. apic_timer_handler scratch al al' f s = Inr s' \<and> reachable f (SCHED s') \<and>
    current (SCHED s') = current (tick al' f (SCHED s)) \<and>
    scheduler (SCHED s') = scheduler (tick al' f (SCHED s)) \<and>
    (\<exists>c. lapic_log s' = lapic_log s @
       [LapicEoi, SetTimerDivide Div64, SetTimerMode OneShot, SetTimerInitial c])"
proof -
  obtain p t where t: "timer_save scratch al f s = Inr (p, t)" "reachable f (SCHED t)"
      "LAPIC t = LAPIC s" "current (SCHED t) = current (SCHED s)"
      "scheduler (SCHED t) = scheduler (SCHED s)"
      "dom (boxes (SCHED t)) \<subseteq> insert (alloc_box al) (dom (boxes (SCHED s)))"
      "\<exists>c. lapic_log t = lapic_log s @
       [LapicEoi, SetTimerDivide Div64, SetTimerMode OneShot, SetTimerInitial c]"
    using timer_save_total [OF assms(1-3)] by blast
  have fresh: "alloc_box al' \<notin> dom (boxes (SCHED t))"
    using t(6) assms(4,5) by blast
  obtain q sc where q: "select_next_task al' f (SCHED t) = (q, sc)" by fastforce
  have r: "reachable f sc"
    using t(2) fresh q by (rule reachable.select)
  then have "set (box_addrs sc) \<subseteq> dom (boxes sc)"
    using reachable_inv by (auto simp: boxes_ok_def)
  moreover have "q \<in> set (box_addrs sc)"
    using q by (auto simp: select_next_task_def Let_def get_idle_task_simps box_addrs_def
        all_tasks_def split: prod.splits option.splits)
  ultimately obtain st where st: "boxes sc q = Some st" by blast
  let ?v = "call_scratch scratch (t\<lparr>SCHED := sc\<rparr>)"
  obtain s' m where s': "timer_resume scratch q ?v = Inr s'" "lapic_log s' = lapic_log ?v"
      "SCHED s' = (SCHED ?v)\<lparr>smem := m\<rparr>"
    using timer_resume_total [of ?v q st scratch] st by auto
  have "(current sc, scheduler sc) = rr.switch (current (SCHED s), scheduler (SCHED s))"
    using select_next_switch [of al' f "SCHED t"] q t(4,5) by simp
  then have "(current sc, scheduler sc) =
      (current (tick al' f (SCHED s)), scheduler (tick al' f (SCHED s)))"
    by (simp only: select_next_switch)
  then show ?thesis
    using t(1,7) q s' r by (auto simp: apic_timer_handler_def reachable.run)
qed

lemma example_tick:
  "alloc_box (example_alloc 0x30000) \<notin> dom (boxes (SCHED (example_kernel example_started)))"
  "alloc_box (example_alloc 0x40000) \<notin> dom (boxes (SCHED (example_kernel example_started)))"
  "alloc_box (example_alloc 0x40000) \<noteq> alloc_box (example_alloc 0x30000)"
  "LAPIC (example_kernel example_started) \<noteq> None"
  "reachable 0x400 (SCHED (example_kernel example_started))"
  using example_started_reachable
  by (simp_all add: example_kernel_def example_defs Let_def)

section \<open>The first run of a new task\<close>

lemma shifted_frame:
  "store_slots a ws = store_slots (a + 16) (map (\<lambda>(k, v). (k + 2, v)) ws)"
proof -
  have "slot (a + 16) (k + 2) = slot a k" for k
    by (simp add: slot_def algebra_simps)
  then show ?thesis
    by (simp add: store_slots_def fold_map comp_def case_prod_unfold)
qed

lemma new_task_word:
  assumes "process_state_new ks us k f m = (st, m')" "j \<le> 20"
  shows "read64 m' (slot (box_base ks + box_len ks + 16) j) =
    (case map_of (map (\<lambda>(k, v). (k + 2, v))
        (initial_frame (box_base ks + box_len ks) (box_base us) k f)) j of
       Some v \<Rightarrow> v | None \<Rightarrow> read64 m (slot (box_base ks + box_len ks + 16) j))"
proof -
  let ?top = "box_base ks + box_len ks"
  let ?ws = "map (\<lambda>(k, v). (k + 2, v)) (initial_frame ?top (box_base us) k f)"
  have "map fst ?ws = map (\<lambda>k. k + 2) [0..<19]"
    by (simp add: comp_def case_prod_unfold initial_frame_slots [of ?top "box_base us" k f, symmetric])
  then have "distinct (map fst ?ws)" "fst ` set ?ws = (\<lambda>k. k + 2) ` {0..<19}"
    by (simp_all only: set_map [symmetric] distinct_map) (auto simp: inj_on_def)
  then show ?thesis
    using read_store_slots [of ?ws j "?top + 16" m] assms(2)
      process_state_new_simps(5) [OF assms(1)] shifted_frame [of ?top] by simp
qed

lemma new_task_constants:
  "code_selector True = 8" "code_selector False = 0x13" "DEFAULT_FLAGS = 0x0202"
  by (simp_all add: code_selector_def DEFAULT_FLAGS_def KERNEL_CODE_SEGMENT_IDX_def
      USER_CODE_SEGMENT_IDX_def)

lemma new_task_frame:
  assumes "keeps_above scratch" "process_state_new ks us k f m = (st, m')"
    and "boxes (SCHED u) p = Some st" "agree_frame (kernel_rsp st) m' (memory u)"
  shows "\<exists>u'. timer_resume scratch p u = Inr u' \<and> rflags u' = 0x0202 \<and> CPU u' =
    \<lparr>rax = 0, rbx = 0, rcx = 0, rdx = 0, rsi = 0, rdi = 0, rbp = box_base ks + box_len ks,
     rsp = (if k then box_base ks + box_len ks else box_base us),
     r8 = 0, r9 = 0, r10 = 0, r11 = 0, r12 = 0, r13 = 0, r14 = 0, r15 = 0, rip = f,
     reg_cs = (if k then 8 else 0x13),
     reg_ss = ucast (read64 m (box_base ks + box_len ks + 8)),
     reg_ds = 0, reg_es = 0, reg_fs = 0, reg_gs = 0\<rparr>"
proof -
  let ?a = "box_base ks + box_len ks + 16"
  have rsp: "kernel_rsp st = slot ?a 20"
    using process_state_new_simps(1) [OF assms(2)] by (simp add: slot_def)
  have a: "slot ?a 1 = box_base ks + box_len ks + 8"
    by (simp add: slot_def)
  have "read64 (memory u) (slot ?a j) = (case map_of (map (\<lambda>(k, v). (k + 2, v))
        (initial_frame (box_base ks + box_len ks) (box_base us) k f)) j of
       Some v \<Rightarrow> v | None \<Rightarrow> read64 m (slot ?a j))" if "0 < j" "j \<le> 20" for j
    using agree_frame_read [OF assms(4) [unfolded rsp], of j] new_task_word [OF assms(2), of j] that
    by simp
  from this [of 1] this [of 2] this [of 3] this [of 4] this [of 5] this [of 6] this [of 7]
    this [of 8] this [of 9] this [of 10] this [of 11] this [of 12] this [of 13] this [of 14]
    this [of 15] this [of 16] this [of 17] this [of 18] this [of 19] this [of 20]
  show ?thesis
    using timer_resume_frame [OF assms(1,3) rsp] a new_task_constants
    by (cases k) (auto simp: initial_frame_def INTERRUPT_FRAME_OFFSET_def)
qed

text \<open>
  C17: The first time a new task is resumed it starts, if the processor lets it, at
  its entry function with all general purpose registers zero except the frame
  pointer, interrupts enabled, the kernel or user code selector with its privilege
  level, and a stack pointer at the end of the kernel stack or, for a user task, at
  the base (not the end) of the user stack. The stack selector is not part of the
  frame the kernel builds: it is whatever was in memory behind the allocation. Unless
  that happens to be 0 for a kernel task or 0x1B for a user task, the final \<^verbatim>\<open>iretq\<close>
  raises a general protection fault, and the kernel panics.
\<close>

theorem new_task_starts:
  assumes "keeps_above scratch" "process_state_new ks us k f m = (st, m')"
    and "boxes (SCHED u) p = Some st" "agree_frame (kernel_rsp st) m' (memory u)"
  shows "\<exists>v u'. timer_restore scratch p u = Inr v \<and>
    iretq_checked fmt code h v =
      (if ucast (read64 m (box_base ks + box_len ks + 8)) = (if k then 0 else 0x1B :: u16) then Inr u'
       else Inl (Panicked (''EXCEPTION: '' @ exception_text GeneralProtectionFault @ [CHR 0x0A] @ fmt @
         error_code_text GeneralProtectionFault code))) \<and>
    rflags u' = 0x0202 \<and> CPU u' =
    \<lparr>rax = 0, rbx = 0, rcx = 0, rdx = 0, rsi = 0, rdi = 0, rbp = box_base ks + box_len ks,
     rsp = (if k then box_base ks + box_len ks else box_base us),
     r8 = 0, r9 = 0, r10 = 0, r11 = 0, r12 = 0, r13 = 0, r14 = 0, r15 = 0, rip = f,
     reg_cs = (if k then 8 else 0x13),
     reg_ss = ucast (read64 m (box_base ks + box_len ks + 8)),
     reg_ds = 0, reg_es = 0, reg_fs = 0, reg_gs = 0\<rparr>"
proof -
  obtain u' where u': "timer_resume scratch p u = Inr u'" "rflags u' = 0x0202" "CPU u' =
    \<lparr>rax = 0, rbx = 0, rcx = 0, rdx = 0, rsi = 0, rdi = 0, rbp = box_base ks + box_len ks,
     rsp = (if k then box_base ks + box_len ks else box_base us),
     r8 = 0, r9 = 0, r10 = 0, r11 = 0, r12 = 0, r13 = 0, r14 = 0, r15 = 0, rip = f,
     reg_cs = (if k then 8 else 0x13),
     reg_ss = ucast (read64 m (box_base ks + box_len ks + 8)),
     reg_ds = 0, reg_es = 0, reg_fs = 0, reg_gs = 0\<rparr>"
    using new_task_frame [OF assms] by blast
  obtain v where "timer_restore scratch p u = Inr v"
      "iretq_checked fmt code h v = (if selectors_ok (reg_cs (CPU u')) (reg_ss (CPU u')) then Inr u'
        else exception_handler GeneralProtectionFault fmt code (interrupt_entry h v))"
    using timer_resume_checked [OF u'(1)] by blast
  then show ?thesis
    using u'(2,3) by (intro exI [of _ v] exI [of _ u']) (auto simp: selectors_ok_simps exception_handler_def)
qed

theorem new_task_starts_witness:
  "let ks = \<lparr>box_base = 0x1000, box_len = 0x1000\<rparr>; us = \<lparr>box_base = 0x3000, box_len = 0x1000\<rparr>;
       start = (\<lambda>k. let (st, m) = process_state_new ks us k 0x8000 (\<lambda>_. 0);
                        u = example_kernel ((sched_boot m)\<lparr>boxes := [0x500 \<mapsto> st]\<rparr>)
                    in bind_res (timer_restore (\<lambda>_ m. m) 0x500 u) (iretq_checked [] [] 0x700))
   in (\<exists>u'. start True = Inr u' \<and> rip (CPU u') = 0x8000 \<and> rsp (CPU u') = 0x2000 \<and> reg_cs (CPU u') = 8) \<and>
      (\<exists>e. start False = Inl e)"
proof -
  let ?ks = "\<lparr>box_base = 0x1000, box_len = 0x1000\<rparr>" and ?us = "\<lparr>box_base = 0x3000, box_len = 0x1000\<rparr>"
  obtain st m where new: "process_state_new ?ks ?us True 0x8000 (\<lambda>_. 0) = (st, m)" by fastforce
  obtain st' m' where new': "process_state_new ?ks ?us False 0x8000 (\<lambda>_. 0) = (st', m')" by fastforce
  let ?u = "\<lambda>m st. example_kernel ((sched_boot m)\<lparr>boxes := [0x500 \<mapsto> st]\<rparr>)"
  have k: "keeps_above (\<lambda>_ m. m)"
    by (simp add: keeps_above_def)
  have u: "boxes (SCHED (?u m st)) 0x500 = Some st" "agree_frame (kernel_rsp st) m (memory (?u m st))" for m st
    by (simp_all add: example_kernel_def agree_frame_def sched_boot_def)
  have "read64 (\<lambda>_. 0) x = 0" for x
    by (simp add: read64_def)
  then show ?thesis
    using new_task_starts [OF k new u, of "[]" "[]" "0x700"] new_task_starts [OF k new' u, of "[]" "[]" "0x700"]
      new new' by (auto simp: Let_def)
qed

theorem preempted_task_resumes_witness:
  "let s = example_kernel example_started
   in \<exists>s' u'. timer_save (\<lambda>_ m. m) (example_alloc 0x30000) 0x400 (interrupt_entry 0x700 s) =
        Inr (0x10000, s') \<and>
      timer_resume (\<lambda>_ m. m) 0x10000 s' = Inr u' \<and> CPU u' = example_cpu \<and> rflags u' = 0x0202 \<and>
      bind_res (timer_restore (\<lambda>_ m. m) 0x10000 s') (iretq_checked [] [] 0x700) = Inr u'"
proof -
  let ?s = "example_kernel example_started"
  let ?e = "save_registers (interrupt_entry 0x700 ?s)"
  obtain m where m: "SCHED ?e = example_started\<lparr>smem := m\<rparr>"
    using save_registers_SCHED [of "interrupt_entry 0x700 ?s"]
    by (auto simp: interrupt_entry_def push_all_SCHED example_kernel_def Let_def)
  have "LAPIC ?e = Some (lapic_config 0 0)"
    by (simp add: interrupt_entry_def example_kernel_def Let_def)
  then obtain t where t: "restart_apic ?e = Inr t"
    by (simp add: restart_apic_def start_timer_one_shot_def)
  note k = restart_apic_kernel(1,2) [OF t]
  have "current_task_ptr (example_alloc 0x30000) 0x400 (SCHED (call_scratch (\<lambda>_ m. m) t)) =
      Inr (0x10000, example_started\<lparr>smem := m, initialized := True\<rparr>)"
    using k m by (simp add: current_task_ptr_def example_defs Let_def)
  then obtain s' where save: "timer_save (\<lambda>_ m. m) (example_alloc 0x30000) 0x400 (interrupt_entry 0x700 ?s) =
        Inr (0x10000, s')"
      and sc: "SCHED s' = store_kernel_rsp 0x10000 (rsp (CPU t))
        (example_started\<lparr>smem := m, initialized := True\<rparr>)"
    using t by (simp add: timer_save_def Let_def)
  have "0x10000 \<in> dom (boxes example_started)"
    by (simp add: example_defs Let_def)
  then obtain st where st: "boxes (SCHED s') 0x10000 = Some st"
    by (auto simp: sc store_kernel_rsp_def)
  have "memory s' = memory ?e"
    using m by (simp add: sc store_kernel_rsp_def)
  then have "\<exists>u'. timer_resume (\<lambda>_ m. m) 0x10000 s' = Inr u' \<and>
      CPU u' = (CPU ?s)\<lparr>reg_ds := 0, reg_es := 0, reg_fs := 0, reg_gs := 0\<rparr> \<and> rflags u' = rflags ?s \<and>
      (selectors_ok (reg_cs (CPU ?s)) (reg_ss (CPU ?s)) \<longrightarrow>
        bind_res (timer_restore (\<lambda>_ m. m) 0x10000 s') (iretq_checked [] [] 0x700) = Inr u')"
    by (intro preempted_task_resumes [OF _ save st st]) (simp_all add: keeps_above_def agree_frame_def)
  then show ?thesis
    using save by (auto simp: example_kernel_def example_cpu_def selectors_ok_simps)
qed

section \<open>Deviations\<close>

text \<open>
  C35: \<^verbatim>\<open>ProcessState::new\<close> stores its first word behind the kernel stack: the eight
  bytes following the allocation are overwritten with the initial stack pointer,
  whatever they held, while all other stores stay inside the stack. The recorded
  top of the kernel stack lies a whole stack length above its end.
\<close>

theorem new_task_overruns_stack:
  assumes "process_state_new ks us k f m = (st, m')" "144 \<le> unat (box_len ks)"
  shows "read64 m' (box_base ks + box_len ks) = (if k then box_base ks + box_len ks else box_base us) \<and>
    (\<forall>x. unat (box_len ks) + 8 \<le> unat (x - box_base ks) \<longrightarrow> m' x = m x) \<and>
    kernel_top_rsp st = box_base ks + box_len ks + box_len ks"
proof (intro conjI allI impI)
  let ?top = "box_base ks + box_len ks"
  show "read64 m' ?top = (if k then ?top else box_base us)"
    using read_initial_frame [OF assms(1), of 0] by (simp add: initial_frame_def)
  show "kernel_top_rsp st = ?top + box_len ks"
    by (rule process_state_new_simps(2) [OF assms(1)])
  fix x
  assume x: "unat (box_len ks) + 8 \<le> unat (x - box_base ks)"
  have "8 \<le> unat (x - slot ?top j)" if "j < 19" for j
  proof -
    let ?e = "box_len ks - 8 * of_nat j"
    have j: "unat (8 * of_nat j :: u64) = 8 * j"
      using that by (simp add: unat_word_ariths unat_of_nat)
    then have e: "unat ?e = unat (box_len ks) - 8 * j"
      using that assms(2) by (subst unat_sub) (auto simp: word_le_nat_alt)
    have "x - slot ?top j = (x - box_base ks) - ?e"
      by (simp add: slot_def algebra_simps)
    moreover have "unat ((x - box_base ks) - ?e) = unat (x - box_base ks) - unat ?e"
      using x e by (intro unat_sub) (simp add: word_le_nat_alt)
    ultimately have "unat (x - slot ?top j) = unat (x - box_base ks) - (unat (box_len ks) - 8 * j)"
      using e by (simp only:)
    then show ?thesis
      using x by linarith
  qed
  then show "m' x = m x"
    unfolding process_state_new_simps(5) [OF assms(1)]
    by (intro store_slots_frame) (simp add: initial_frame_keys)
qed

theorem new_task_overruns_stack_witness:
  "\<exists>st m'. process_state_new \<lparr>box_base = 0x1000, box_len = 0x1000\<rparr> \<lparr>box_base = 0x3000, box_len = 0x1000\<rparr>
      True 0x8000 (\<lambda>_. 0) = (st, m') \<and> read64 m' 0x2000 = 0x2000 \<and> kernel_top_rsp st = 0x3000"
proof -
  let ?ks = "\<lparr>box_base = 0x1000, box_len = 0x1000\<rparr>" and ?us = "\<lparr>box_base = 0x3000, box_len = 0x1000\<rparr>"
  obtain st m where new: "process_state_new ?ks ?us True 0x8000 (\<lambda>_. 0) = (st, m)" by fastforce
  then show ?thesis
    using new_task_overruns_stack [OF new] by simp
qed

lemma timer_save_SEGMENTS:
  "timer_save scratch al f s = Inr (p, s') \<Longrightarrow> SEGMENTS s' = SEGMENTS s"
  by (auto simp: timer_save_def bind_res_eq_Inr Let_def restart_apic_kernel)

text \<open>
  C36: The task state segment is never updated: \<^verbatim>\<open>tss_ptr\<close> returns the address of a
  copy, so a tick leaves the privilege stack as it was before, and whatever task it
  resumes, that task's next interrupt out of user mode runs on the same stack as
  every other task's instead of on its own kernel stack.
\<close>

theorem privilege_stack_never_updated:
  assumes "apic_timer_handler scratch al al' f s = Inr s'"
  shows "SEGMENTS s' = SEGMENTS s \<and>
    (reg_cs (CPU s') AND 3 \<noteq> 0 \<longrightarrow>
      entry_stack s' = privilege_stack_table (TSS (SEGMENTS s)) ! 0 AND NOT 0xF)"
proof -
  obtain p t where save: "timer_save scratch al f s = Inr (p, t)"
    using assms by (auto simp: apic_timer_handler_def bind_res_eq_Inr)
  obtain q sc where "select_next_task al' f (SCHED t) = (q, sc)" by fastforce
  with assms save
  have t: "timer_resume scratch q (call_scratch scratch (t\<lparr>SCHED := sc\<rparr>)) = Inr s'"
    by (simp add: apic_timer_handler_def)
  obtain st where "boxes (SCHED (call_scratch scratch (t\<lparr>SCHED := sc\<rparr>))) q = Some st"
    using t by (cases "boxes sc q") (simp_all add: timer_resume_def timer_restore_def)
  from timer_resume_total [OF this, of scratch] have "SEGMENTS s' = SEGMENTS t"
    using t by auto
  then show ?thesis
    using timer_save_SEGMENTS [OF save] by (simp add: entry_stack_def)
qed

theorem privilege_stack_never_updated_witness:
  "\<exists>s'. apic_timer_handler (\<lambda>_ m. m) (example_alloc 0x30000) (example_alloc 0x40000) 0x400
      (example_kernel example_started) = Inr s' \<and>
    privilege_stack_table (TSS (SEGMENTS s')) ! 0 = 0x5000"
proof -
  obtain s' where "apic_timer_handler (\<lambda>_ m. m) (example_alloc 0x30000) (example_alloc 0x40000) 0x400
      (example_kernel example_started) = Inr s'"
    using timer_tick_ok [OF example_tick(5,4,1,2,3), of "\<lambda>_ m. m"] by blast
  then show ?thesis
    using privilege_stack_never_updated by (fastforce simp: example_kernel_def)
qed

end
