(* ===== verification/Syscall_Props.thy ===== *)
theory Syscall_Props
  imports Syscall Context_Props
begin

unbundle bit_operations_syntax

text \<open>
  Properties of system calls: the path from the caller's registers through the
  argument block on the stack to the screen and back.
\<close>

section \<open>Printing depends on the console only\<close>

definition same_console :: "'a console_scheme \<Rightarrow> 'b console_scheme \<Rightarrow> bool" where
  "same_console s u \<longleftrightarrow> WRITER s = WRITER u \<and> SHELL s = SHELL u \<and> INITIALIZED s = INITIALIZED u"

abbreviation same_result :: "'a console_scheme res \<Rightarrow> 'b console_scheme res \<Rightarrow> bool" where
  "same_result \<equiv> rel_sum (=) same_console"

lemma same_bind:
  "same_result r q \<Longrightarrow> (\<And>s u. same_console s u \<Longrightarrow> same_result (f s) (g u)) \<Longrightarrow>
   same_result (bind_res r f) (bind_res q g)"
  by (cases r; cases q) auto

lemma same_for_each:
  assumes "\<And>i s u. same_console s u \<Longrightarrow> same_result (f i s) (g i u)"
  shows "same_console s u \<Longrightarrow> same_result (for_each f is s) (for_each g is u)"
  by (induction "is" arbitrary: s u) (simp_all add: assms same_bind)

lemma same_on_writer: "same_console s u \<Longrightarrow> same_result (on_writer f s) (on_writer f u)"
  by (cases "f (WRITER u)") (auto simp: on_writer_def same_console_def)

lemma same_set_count: "same_console s u \<Longrightarrow> same_console (set_count n s) (set_count n u)"
  by (simp add: same_console_def set_count_def)

lemma same_newline: "same_console s u \<Longrightarrow> same_result (newline s) (newline u)"
  unfolding newline_def print_prompt_def
  by (intro same_bind same_on_writer)
    (auto simp: same_console_def intro!: same_bind same_on_writer same_set_count)

lemma same_shell_write: "same_console s u \<Longrightarrow> same_result (shell_write t s) (shell_write t u)"
  unfolding shell_write_def
  by (erule same_for_each [rotated]) (simp add: same_newline same_on_writer)

lemma same_irq: "same_console s u \<Longrightarrow> same_console (irq_off s) (irq_off u)"
  "same_console s u \<Longrightarrow> same_console (irq_restore a s) (irq_restore b u)"
  by (simp_all add: same_console_def)

lemma println_same:
  assumes "same_console s u" "println t s = Inr ((), s')"
  shows "\<exists>u'. println t u = Inr ((), u') \<and> same_console s' u'"
proof -
  let ?t = "t @ [0x0A]"
  let ?f = "\<lambda>s. if has_shell s then shell_write ?t s else on_writer (write_string ?t) s"
  have "same_result (?f (irq_off s)) (if has_shell (irq_off u) then shell_write ?t (irq_off u)
      else on_writer (write_string ?t) (irq_off u))"
    using same_irq(1) [OF assms(1)]
    by (auto simp: has_shell_def same_shell_write same_on_writer) (auto simp: same_console_def)
  then show ?thesis
    using assms(2)
    by (auto simp: println_def print_bytes_def without_interrupts_eq bind_res_eq_Inr rel_sum.simps
        same_irq(2))
qed

section \<open>The argument block\<close>

text \<open>The words on the stack when \<^verbatim>\<open>handle_syscall\<close> is called.\<close>

definition syscall_words :: "cpu \<Rightarrow> u64 \<Rightarrow> u64 list" where
  "syscall_words c fl =
     [ucast (reg_ss c), rsp c, fl, ucast (reg_cs c), rip c, 0, r9 c, r8 c, rcx c, rdx c, rsi c,
      rdi c, rax c]"

definition args_of :: "cpu \<Rightarrow> syscall_args" where
  "args_of c =
     \<lparr>syscall_id = rax c, arg0 = rdi c, arg1 = rsi c, arg2 = rdx c, arg3 = rcx c, arg4 = r8 c,
      arg5 = r9 c, sys_error = 0\<rparr>"

lemma kernel_of_console_more:
  "console.more s = console.more t \<Longrightarrow> CPU s = CPU t \<and> SCHED s = SCHED t \<and> SEGMENTS s = SEGMENTS t"
  by (cases s; cases t) simp

lemma disable_interrupts_kernel [simp]:
  "CPU (disable_interrupts s) = CPU s" "SCHED (disable_interrupts s) = SCHED s"
  "SEGMENTS (disable_interrupts s) = SEGMENTS s" "CPU (enable_interrupts s) = CPU s"
  "SCHED (enable_interrupts s) = SCHED s" "SEGMENTS (enable_interrupts s) = SEGMENTS s"
  by (simp_all add: disable_interrupts_def enable_interrupts_def)

text \<open>The state in which \<^verbatim>\<open>handle_syscall\<close> is called.\<close>

definition syscall_entry :: "u64 \<Rightarrow> ('kb, 'a) kernel_scheme \<Rightarrow> ('kb, 'a) kernel_scheme" where
  "syscall_entry h s =
     (let s = disable_interrupts (interrupt_entry h s); c = CPU s
      in push_all [0, r9 c, r8 c, rcx c, rdx c, rsi c, rdi c, rax c] s)"

lemma interrupt_entry_CPU:
  "CPU (interrupt_entry h s) = (CPU s)\<lparr>rsp := slot (entry_stack s) 5, rip := h, reg_cs := 8,
     reg_ss := (if reg_cs (CPU s) AND 3 = 0 then reg_ss (CPU s) else 0)\<rparr>"
proof (rule cpu.equality)
  have "length (take 5 (context_words (CPU s) (rflags s))) = 5"
    by (simp add: context_words_def)
  then have "rsp (CPU (interrupt_entry h s)) = slot (entry_stack s) 5"
    using interrupt_entry_frame [of h s]
      fold_push [of "take 5 (context_words (CPU s) (rflags s))" "memory s" "entry_stack s" 0] by simp
  then show "rsp (CPU (interrupt_entry h s)) = rsp ((CPU s)\<lparr>rsp := slot (entry_stack s) 5, rip := h,
      reg_cs := 8, reg_ss := (if reg_cs (CPU s) AND 3 = 0 then reg_ss (CPU s) else 0)\<rparr>)"
    by simp
qed (simp_all add: interrupt_entry_def push_all_CPU Let_def del: fold.simps)

lemma syscall_entry_frame:
  "(memory (syscall_entry h s), rsp (CPU (syscall_entry h s))) =
     fold push (syscall_words (CPU s) (rflags s)) (memory s, slot (entry_stack s) 0)"
proof -
  have "syscall_words (CPU s) (rflags s) = take 5 (context_words (CPU s) (rflags s)) @
      [0, r9 (CPU s), r8 (CPU s), rcx (CPU s), rdx (CPU s), rsi (CPU s), rdi (CPU s), rax (CPU s)]"
    by (simp add: syscall_words_def context_words_def)
  then show ?thesis
    by (simp only: fold_append comp_apply interrupt_entry_frame [of h s, symmetric])
      (simp add: syscall_entry_def push_all_SCHED push_all_CPU interrupt_entry_CPU Let_def del: fold.simps)
qed

lemma length_syscall_words [simp]: "length (syscall_words c fl) = 13"
  by (simp add: syscall_words_def)

lemma syscall_entry_memory:
  "memory (syscall_entry h s) = store_slots (entry_stack s)
     (zip [Suc 0..<14] (syscall_words (CPU s) (rflags s))) (memory s)"
  "rsp (CPU (syscall_entry h s)) = slot (entry_stack s) 13"
  using syscall_entry_frame [of h s]
    fold_push [of "syscall_words (CPU s) (rflags s)" "memory s" "entry_stack s" 0]
  by simp_all

lemma syscall_word:
  assumes "0 < k" "k \<le> 13"
  shows "read64 (memory (syscall_entry h s)) (slot (entry_stack s) k) =
    syscall_words (CPU s) (rflags s) ! (k - 1)"
proof -
  let ?ws = "syscall_words (CPU s) (rflags s)" and ?a = "entry_stack s"
  have "map_of (zip [Suc 0..<14] ?ws) k = Some (?ws ! (k - 1))"
    using map_of_zip_nth [of "[Suc 0..<14]" ?ws "k - 1"] assms by simp
  moreover have "set (zip [Suc 0..<14] ?ws) \<subseteq> {Suc 0..<14} \<times> UNIV"
    by (auto dest: set_zip_leftD simp del: upt_Suc)
  ultimately show ?thesis
    using assms read_store_slots [of "zip [Suc 0..<14] ?ws" k ?a "memory s"]
    by (fastforce simp: syscall_entry_memory simp del: upt_Suc)
qed

lemma read_args_entry:
  "read_args (memory (syscall_entry h s)) (rsp (CPU (syscall_entry h s))) = args_of (CPU s)"
proof -
  let ?a = "entry_stack s"
  have "slot ?a 13 + 8 = slot ?a 12" "slot ?a 13 + 16 = slot ?a 11" "slot ?a 13 + 24 = slot ?a 10"
      "slot ?a 13 + 32 = slot ?a 9" "slot ?a 13 + 40 = slot ?a 8" "slot ?a 13 + 48 = slot ?a 7"
      "slot ?a 13 + 56 = slot ?a 6"
    by (simp_all add: slot_def)
  then show ?thesis
    by (simp add: read_args_def args_of_def syscall_entry_memory(2) syscall_word syscall_words_def)
qed

section \<open>Through the handler and back\<close>

lemma syscall_entry_CPU:
  "CPU (syscall_entry h s) = (CPU (interrupt_entry h s))\<lparr>rsp := slot (entry_stack s) 13\<rparr>"
  using syscall_entry_memory(2) [of h s]
  by (simp add: syscall_entry_def push_all_CPU Let_def del: fold.simps)

lemma syscall_entry_SEGMENTS: "SEGMENTS (syscall_entry h s) = SEGMENTS s"
  by (simp add: syscall_entry_def interrupt_entry_def Let_def)

lemma syscall_entry_boxes: "boxes (SCHED (syscall_entry h s)) = boxes (SCHED s)"
  by (simp add: syscall_entry_def interrupt_entry_def push_all_SCHED Let_def del: fold.simps)

lemma syscall_body_eq:
  "syscall_body se (interrupt_entry h s) =
     bind_res (handle_syscall (string_room se) (args_of (CPU s)) (syscall_entry h s)) (\<lambda>(args, t).
       Inr (pop_args (call_clobber (clobber se) (call_scratch (callee_stack se)
         (set_memory (write64 (slot (entry_stack s) 6) (sys_error args) (memory t)) t)))))"
proof -
  have "slot (entry_stack s) 13 + 56 = slot (entry_stack s) 6"
    by (simp add: slot_def)
  then show ?thesis
    unfolding syscall_body_def syscall_entry_def [of h s, symmetric, unfolded Let_def] Let_def read_args_entry
    by (simp only: syscall_entry_memory(2))
qed

text \<open>The words on the stack when the handler pops its registers again.\<close>

lemma pop_words:
  assumes "keeps_above scratch" "0 < k" "k \<le> 13"
  shows "read64 (scratch (slot (entry_stack s) 13)
      (write64 (slot (entry_stack s) 6) v (memory (syscall_entry h s)))) (slot (entry_stack s) k) =
    (if k = 6 then v else syscall_words (CPU s) (rflags s) ! (k - 1))"
  using assms slot_apart [of 6 k "entry_stack s"]
  by (simp add: keeps_above_read read64_write64_apart syscall_word)

lemma call_clobber_simps [simp]:
  "rsp (CPU (call_clobber cl s)) = rsp (CPU s)" "SCHED (call_clobber cl s) = SCHED s"
  "SEGMENTS (call_clobber cl s) = SEGMENTS s" "same_console (call_clobber cl s) u = same_console s u"
  "rflags (call_clobber cl s) = rflags s"
  by (simp_all add: call_clobber_def same_console_def Let_def)

lemma pop_args_CPU:
  assumes "keeps_above scratch" "CPU t = CPU (syscall_entry h s)" "memory t = memory (syscall_entry h s)"
  shows "CPU (pop_args (call_clobber cl (call_scratch scratch (set_memory
      (write64 (slot (entry_stack s) 6) v (memory t)) t)))) =
    (CPU (interrupt_entry h s))\<lparr>rax := v, r10 := r10 (cl (CPU t)), r11 := r11 (cl (CPU t))\<rparr>"
proof -
  let ?a = "entry_stack s"
  have "slot ?a 13 + 8 = slot ?a 12"
    by (simp add: slot_def)
  then show ?thesis
    using pop_words [OF assms(1), of _ s v h] assms(2,3)
    by (simp add: pop_args_def pop_numeral syscall_entry_CPU syscall_words_def interrupt_entry_CPU
        call_clobber_def Let_def)
qed

lemma pop_args_keeps:
  "WRITER (pop_args s) = WRITER s" "SHELL (pop_args s) = SHELL s" "INITIALIZED (pop_args s) = INITIALIZED s"
  "SEGMENTS (pop_args s) = SEGMENTS s" "SCHED (pop_args s) = SCHED s"
  by (simp_all add: pop_args_def pop_def Let_def)

lemma enable_interrupts_console [simp]:
  "WRITER (enable_interrupts s) = WRITER s" "SHELL (enable_interrupts s) = SHELL s"
  by (simp_all add: enable_interrupts_def)

lemma end_of_interrupt_kernel:
  "\<exists>s'. end_of_interrupt v s = Inr s' \<and> CPU s' = CPU s \<and> SCHED s' = SCHED s \<and>
     same_console s' s \<and> SEGMENTS s' = SEGMENTS s \<and> acknowledged v s s'"
  by (auto simp: end_of_interrupt_def has_lapic_def acknowledged_def same_console_def)

lemma iretq_entry:
  assumes "rsp (CPU s) = slot a 5"
  shows "CPU (iretq s) = (CPU s)\<lparr>rip := read64 (memory s) (slot a 5),
      reg_cs := ucast (read64 (memory s) (slot a 4)), rsp := read64 (memory s) (slot a 2),
      reg_ss := ucast (read64 (memory s) (slot a 1))\<rparr>"
    and "rflags (iretq s) = read64 (memory s) (slot a 3)"
    and "same_console (iretq s) s" and "SEGMENTS (iretq s) = SEGMENTS s" and "SCHED (iretq s) = SCHED s"
  using assms by (simp_all add: iretq_def pop_numeral same_console_def)

text \<open>What the compiler guarantees of an \<^verbatim>\<open>x86-interrupt\<close> function and of the functions it calls.\<close>

definition conventions :: "'p syscall_env_scheme \<Rightarrow> bool" where
  "conventions se \<longleftrightarrow> keeps_above (callee_stack se) \<and> (\<forall>c d. epilogue se c d = c)"

text \<open>The error word ends up in \<^verbatim>\<open>rax\<close> when the assembly of the handler is done.\<close>

lemma syscall_body_run:
  assumes "conventions se"
    and "handle_syscall (string_room se) (args_of (CPU s)) (syscall_entry h s) = Inr (args, t)"
    and "CPU t = CPU (syscall_entry h s)" "memory t = memory (syscall_entry h s)"
  shows "\<exists>u. syscall_body se (interrupt_entry h s) = Inr u \<and> rax (CPU u) = sys_error args \<and>
    rsp (CPU u) = slot (entry_stack s) 5 \<and> same_console u t \<and> SEGMENTS u = SEGMENTS t \<and>
    SCHED u = (SCHED t)\<lparr>smem := callee_stack se (slot (entry_stack s) 13)
      (write64 (slot (entry_stack s) 6) (sys_error args) (memory (syscall_entry h s)))\<rparr>"
proof -
  let ?c = "call_clobber (clobber se) (call_scratch (callee_stack se)
    (set_memory (write64 (slot (entry_stack s) 6) (sys_error args) (memory t)) t))"
  have "same_console ?c t" "SEGMENTS ?c = SEGMENTS t"
      "SCHED ?c = (SCHED t)\<lparr>smem := callee_stack se (slot (entry_stack s) 13)
        (write64 (slot (entry_stack s) 6) (sys_error args) (memory (syscall_entry h s)))\<rparr>"
    using assms(3,4)
    by (simp_all add: syscall_entry_memory(2), simp add: call_scratch_def set_memory_def same_console_def)
  moreover have "keeps_above (callee_stack se)"
    using assms(1) by (simp add: conventions_def)
  from pop_args_CPU [OF this assms(3,4)]
  have "rax (CPU (pop_args ?c)) = sys_error args" "rsp (CPU (pop_args ?c)) = slot (entry_stack s) 5"
    by (simp_all add: interrupt_entry_CPU)
  ultimately show ?thesis
    using assms(2) by (auto simp: syscall_body_eq same_console_def pop_args_keeps)
qed

lemma int_0x80_run:
  assumes "conventions se"
    and "handle_syscall (string_room se) (args_of (CPU s)) (syscall_entry h s) = Inr (args, t)"
    and "CPU t = CPU (syscall_entry h s)" "memory t = memory (syscall_entry h s)"
  shows "\<exists>s'. int_0x80 se h s = Inr s' \<and> CPU s' = CPU s \<and> rflags s' = rflags s \<and> same_console s' t \<and>
    SEGMENTS s' = SEGMENTS t \<and>
    SCHED s' = (SCHED t)\<lparr>smem := callee_stack se (slot (entry_stack s) 5) (callee_stack se (slot (entry_stack s) 13)
      (write64 (slot (entry_stack s) 6) (sys_error args) (memory (syscall_entry h s))))\<rparr>"
proof -
  let ?a = "entry_stack s" and ?sc = "callee_stack se"
  define m where "m = ?sc (slot ?a 13) (write64 (slot ?a 6) (sys_error args) (memory (syscall_entry h s)))"
  have conv: "keeps_above ?sc" "\<And>c d. epilogue se c d = c"
    using assms(1) by (simp_all add: conventions_def)
  obtain u where u: "syscall_body se (interrupt_entry h s) = Inr u" "rsp (CPU u) = slot ?a 5" "same_console u t"
      "SEGMENTS u = SEGMENTS t" "SCHED u = (SCHED t)\<lparr>smem := m\<rparr>"
    using syscall_body_run [OF assms] unfolding m_def by blast
  obtain e where e: "end_of_interrupt (as_u8 Syscall) u = Inr e" "CPU e = CPU u" "SCHED e = SCHED u"
      "same_console e u" "SEGMENTS e = SEGMENTS u"
    using end_of_interrupt_kernel by blast
  define g where "g = (call_clobber (clobber se) (enable_interrupts (call_clobber (clobber se) (call_scratch ?sc e))))
    \<lparr>CPU := CPU (interrupt_entry h s)\<rparr>"
  have run: "int_0x80 se h s = Inr (iretq g)"
    using u(1) e(1) conv(2) by (simp add: int_0x80_def syscall_handler_def g_def Let_def)
  have g: "rsp (CPU g) = slot ?a 5" "SCHED g = (SCHED t)\<lparr>smem := ?sc (slot ?a 5) m\<rparr>" "SEGMENTS g = SEGMENTS t"
      "same_console g t"
    using u e by (simp_all add: g_def interrupt_entry_CPU same_console_def call_clobber_def call_scratch_def
        set_memory_def enable_interrupts_def Let_def)
  have w: "read64 (memory g) (slot ?a k) = syscall_words (CPU s) (rflags s) ! (k - 1)" if "0 < k" "k \<le> 5" for k
    using keeps_above_read [OF conv(1), of k 5 ?a m] pop_words [OF conv(1), of k s "sys_error args" h] that
    by (simp add: g(2) m_def)
  have c: "CPU g = CPU (interrupt_entry h s)"
    by (simp add: g_def)
  show ?thesis
    using run iretq_entry [OF g(1)] g(2-4) c w [of 1] w [of 2] w [of 3] w [of 4] w [of 5]
    by (simp add: syscall_words_def interrupt_entry_CPU m_def same_console_def)
qed

lemma same_console_entry: "same_console (syscall_entry h s) s"
  by (simp add: same_console_def syscall_entry_def interrupt_entry_def push_all_def set_memory_def
      Let_def split: prod.splits)

text \<open>A buffer that keeps clear of the stack area a system call writes.\<close>

definition clear_of_stack :: "u64 \<Rightarrow> u64 \<Rightarrow> nat \<Rightarrow> bool" where
  "clear_of_stack a p n \<longleftrightarrow> (\<forall>i<n. 104 \<le> unat (p + of_nat i - slot a 13))"

lemma clear_slot:
  assumes "104 \<le> unat (x - slot a 13)" "0 < k" "k < 14"
  shows "8 \<le> unat (x - slot a k)"
proof -
  let ?e = "of_nat (8 * (13 - k)) :: u64"
  have "x - slot a k = (x - slot a 13) - ?e"
    using slot_offset [of k 13 a] assms(3) by (simp add: algebra_simps)
  moreover have e: "unat ?e = 8 * (13 - k)"
    using assms(3) by (simp only: unat_of_nat) simp
  moreover have "unat ((x - slot a 13) - ?e) = unat (x - slot a 13) - unat ?e"
    using assms e by (intro unat_sub) (simp add: word_le_nat_alt)
  ultimately have "unat (x - slot a k) = unat (x - slot a 13) - 8 * (13 - k)"
    by (simp only:)
  then show ?thesis
    using assms by linarith
qed

lemma entry_keeps_bytes:
  assumes "104 \<le> unat (x - slot (entry_stack s) 13)"
  shows "memory (syscall_entry h s) x = memory s x"
proof -
  let ?a = "entry_stack s"
  have "\<forall>k \<in> fst ` set (zip [Suc 0..<14] (syscall_words (CPU s) (rflags s))). 8 \<le> unat (x - slot ?a k)"
    using clear_slot [OF assms] by (auto dest!: set_zip_leftD simp del: upt_Suc)
  then show ?thesis
    unfolding syscall_entry_memory(1) by (rule store_slots_frame)
qed

text \<open>The heap has room for a string of this length.\<close>

definition string_fits :: "(u64 set \<Rightarrow> usize \<Rightarrow> bool) \<Rightarrow> u64 set \<Rightarrow> usize \<Rightarrow> bool" where
  "string_fits room bs n \<longleftrightarrow> unat n < 2 ^ 63 \<and> (n = 0 \<or> room bs n)"

lemma string_from_cases:
  "string_from room p n s =
     (if string_fits room (dom (boxes (SCHED s))) n then Inr (read_bytes (memory s) p (unat n))
      else if unat n < 2 ^ 63 then Inl (AllocError n 1) else Inl (Panicked ''capacity overflow''))"
  by (simp add: string_from_def string_fits_def alloc_error_handler_def)

lemma handle_write_ok:
  assumes "wf_console s" "clear_of_stack (entry_stack s) p (unat n)" "string_fits room (dom (boxes (SCHED s))) n"
  shows "\<exists>t u. handle_write_fd room STDOUT_FD p n (syscall_entry h s) = Inr (0, t) \<and>
    CPU t = CPU (syscall_entry h s) \<and> SCHED t = SCHED (syscall_entry h s) \<and> SEGMENTS t = SEGMENTS s \<and>
    println (read_bytes (memory s) p (unat n)) s = Inr ((), u) \<and> same_console t u"
proof -
  let ?e = "syscall_entry h s"
  have bytes: "string_from room p n ?e = Inr (read_bytes (memory s) p (unat n))" (is "_ = Inr ?b")
    using assms(2,3) entry_keeps_bytes [of _ s h]
    by (simp add: string_from_cases syscall_entry_boxes read_bytes_def clear_of_stack_def)
  obtain t where t: "println ?b ?e = Inr ((), t)" "settings t = settings ?e"
    using print_bytes_ok [of ?e "?b @ [0x0A]"] same_console_entry [of h s] assms(1)
    by (auto simp: same_console_def println_def)
  then have "console.more t = console.more ?e"
    by (simp add: settings_def)
  from kernel_of_console_more [OF this] show ?thesis
    using syscall_entry_SEGMENTS [of h s] t(1) println_same [OF same_console_entry t(1)] bytes
    by (auto simp: handle_write_fd_def irq_println_def)
qed

section \<open>Properties\<close>

lemma handle_syscall_write:
  assumes "wf_console s" "clear_of_stack (entry_stack s) (rsi (CPU s)) (unat (rdx (CPU s)))"
    and "string_fits room (dom (boxes (SCHED s))) (rdx (CPU s))"
    and "rax (CPU s) = SYS_WRITE" "rdi (CPU s) = STDOUT_FD"
  shows "\<exists>t u. handle_syscall room (args_of (CPU s)) (syscall_entry h s) = Inr (args_of (CPU s), t) \<and>
    CPU t = CPU (syscall_entry h s) \<and> SCHED t = SCHED (syscall_entry h s) \<and> SEGMENTS t = SEGMENTS s \<and>
    println (read_bytes (memory s) (rsi (CPU s)) (unat (rdx (CPU s)))) s = Inr ((), u) \<and> same_console t u"
  using handle_write_ok [OF assms(1-3), of h] assms(4,5)
  by (auto simp: handle_syscall_def handle_write_def args_of_def SYS_WRITE_def)

lemma handle_syscall_bad_fd:
  assumes "rax (CPU s) = SYS_WRITE" "rdi (CPU s) \<noteq> STDOUT_FD"
  shows "handle_syscall room (args_of (CPU s)) (syscall_entry h s) =
    Inr ((args_of (CPU s))\<lparr>sys_error := error_usize EIO\<rparr>, syscall_entry h s)"
  using assms by (simp add: handle_syscall_def handle_write_def handle_write_fd_def args_of_def SYS_WRITE_def)

text \<open>The state in which \<^verbatim>\<open>do_syscall_3\<close> executes \<^verbatim>\<open>int 0x80\<close>.\<close>

definition with_args :: "usize \<Rightarrow> usize \<Rightarrow> usize \<Rightarrow> usize \<Rightarrow> ('kb, 'a) kernel_scheme \<Rightarrow> ('kb, 'a) kernel_scheme" where
  "with_args n a0 a1 a2 s = s\<lparr>CPU := (CPU s)\<lparr>rax := n, rdi := a0, rsi := a1, rdx := a2\<rparr>\<rparr>"

lemma with_args_simps [simp]:
  "entry_stack (with_args n a0 a1 a2 s) = entry_stack s" "memory (with_args n a0 a1 a2 s) = memory s"
  "rflags (with_args n a0 a1 a2 s) = rflags s" "WRITER (with_args n a0 a1 a2 s) = WRITER s"
  "CPU (with_args n a0 a1 a2 s) = (CPU s)\<lparr>rax := n, rdi := a0, rsi := a1, rdx := a2\<rparr>"
  "same_console (with_args n a0 a1 a2 s) s"
  by (simp_all add: with_args_def entry_stack_def same_console_def)

lemma do_syscall_3_eq:
  "do_syscall_3 se h n a0 a1 a2 s = syscall_result (int_0x80 se h (with_args n a0 a1 a2 s))"
  by (simp add: do_syscall_3_def with_args_def)

lemma with_args_SCHED [simp]: "SCHED (with_args n a0 a1 a2 s) = SCHED s"
  by (simp add: with_args_def)

text \<open>
  C10: A write system call reaches the screen. When a program calls \<^verbatim>\<open>do_syscall_3\<close> with
  \<^verbatim>\<open>WRITE\<close>, \<^verbatim>\<open>STDOUT_FD\<close>, a pointer and a length for which the heap has room, the argument
  block the handler builds on the stack hands exactly these to the kernel; the
  screen and the shell end as if the kernel had printed the bytes at that address as a
  line; the assembly of the handler leaves the result 0 in \<^verbatim>\<open>rax\<close>; and the caller
  continues with all its registers and flags as they were. So it does not see the
  result: by the \<^verbatim>\<open>x86-interrupt\<close> convention \<^verbatim>\<open>rax\<close> is restored to the number of the
  call, which \<^verbatim>\<open>do_syscall_3\<close> returns.
\<close>

theorem write_syscall_prints:
  assumes "conventions se" "wf_console s" "clear_of_stack (entry_stack s) p (unat n)"
    and "string_fits (string_room se) (dom (boxes (SCHED s))) n"
  shows "\<exists>b s' u. syscall_body se (interrupt_entry h (with_args SYS_WRITE STDOUT_FD p n s)) = Inr b \<and>
    rax (CPU b) = 0 \<and>
    do_syscall_3 se h SYS_WRITE STDOUT_FD p n s = Inr (SYS_WRITE, s') \<and>
    println (read_bytes (memory s) p (unat n)) s = Inr ((), u) \<and>
    WRITER s' = WRITER u \<and> SHELL s' = SHELL u \<and>
    CPU s' = (CPU s)\<lparr>rax := SYS_WRITE, rdi := STDOUT_FD, rsi := p, rdx := n\<rparr> \<and> rflags s' = rflags s"
proof -
  let ?s = "with_args SYS_WRITE STDOUT_FD p n s"
  obtain t u where t: "handle_syscall (string_room se) (args_of (CPU ?s)) (syscall_entry h ?s) = Inr (args_of (CPU ?s), t)"
      "CPU t = CPU (syscall_entry h ?s)" "memory t = memory (syscall_entry h ?s)"
      "println (read_bytes (memory s) p (unat n)) ?s = Inr ((), u)" "same_console t u"
    using handle_syscall_write [of ?s "string_room se" h] assms(2-4) by auto
  obtain v where v: "println (read_bytes (memory s) p (unat n)) s = Inr ((), v)" "same_console u v"
    using println_same [OF _ t(4), of s] by auto
  have "\<exists>b. syscall_body se (interrupt_entry h ?s) = Inr b \<and> rax (CPU b) = 0"
    using syscall_body_run [OF assms(1) t(1-3)] by (auto simp: args_of_def)
  moreover obtain s' where "int_0x80 se h ?s = Inr s'" "same_console s' t" "rflags s' = rflags s" "CPU s' = CPU ?s"
    using int_0x80_run [OF assms(1) t(1-3)] by auto
  ultimately show ?thesis
    using v t(5) by (auto simp: do_syscall_3_eq syscall_result_def same_console_def)
qed

text \<open>An environment that follows the conventions and clobbers registers, with room for short strings.\<close>

definition example_syscall_env :: syscall_env where
  "example_syscall_env =
     \<lparr>epilogue = (\<lambda>c _. c), clobber = (\<lambda>c. c\<lparr>rax := 77, r10 := 77, r11 := 77\<rparr>), callee_stack = (\<lambda>_ m. m),
      string_room = (\<lambda>_ n. n \<le> 2048)\<rparr>"

lemma example_conventions: "conventions example_syscall_env"
  by (simp add: conventions_def example_syscall_env_def keeps_above_def)

theorem write_syscall_prints_witness:
  "let s = example_kernel example_boot
   in \<exists>s'. do_syscall_3 example_syscall_env 0x700 SYS_WRITE STDOUT_FD 0xA000 8 s = Inr (SYS_WRITE, s') \<and>
        rip (CPU s') = 0x1234 \<and> rflags s' = 0x0202"
proof -
  let ?s = "example_kernel example_boot"
  have "slot (entry_stack ?s) 13 = 0x8F98"
    by (simp add: entry_stack_def example_kernel_def example_cpu_def slot_def)
  moreover have "104 \<le> unat (0xA000 + of_nat i - 0x8F98 :: u64)" if "i < 8" for i
  proof -
    have "0xA000 + of_nat i - 0x8F98 = (of_nat (0x1068 + i) :: u64)"
      by simp
    then show ?thesis
      using that by (simp only: unat_of_nat) simp
  qed
  ultimately have "clear_of_stack (entry_stack ?s) 0xA000 (unat (8 :: u64))"
    by (simp add: clear_of_stack_def)
  moreover have "wf_console ?s"
    using example_console_simps(1) by (simp add: example_kernel_def example_console_def)
  moreover have "string_fits (string_room example_syscall_env) (dom (boxes (SCHED ?s))) 8"
    by (simp add: string_fits_def example_syscall_env_def)
  ultimately show ?thesis
    using write_syscall_prints [OF example_conventions, of ?s "0xA000" 8 "0x700"]
    by (auto simp: example_kernel_def example_cpu_def)
qed

text \<open>
  C33: Errors of the system call path. A write to any other descriptor leaves the
  screen alone; the assembly of the handler leaves EIO (5) in \<^verbatim>\<open>rax\<close>, but the caller
  gets its registers back and so sees the number of the call, as if it had succeeded. Any
  system call other than 1 panics the kernel instead of reporting ENOSYS, and a
  message for which the heap has no room panics it in \<^verbatim>\<open>alloc_error_handler\<close>.
\<close>

theorem syscall_errors:
  assumes "conventions se"
  shows "(fd \<noteq> STDOUT_FD \<longrightarrow>
      (\<exists>b s'. syscall_body se (interrupt_entry h (with_args SYS_WRITE fd p n s)) = Inr b \<and> rax (CPU b) = 5 \<and>
        do_syscall_3 se h SYS_WRITE fd p n s = Inr (SYS_WRITE, s') \<and>
        WRITER s' = WRITER s \<and> SHELL s' = SHELL s \<and> rflags s' = rflags s \<and>
        CPU s' = (CPU s)\<lparr>rax := SYS_WRITE, rdi := fd, rsi := p, rdx := n\<rparr>)) \<and>
    (i \<noteq> 1 \<longrightarrow> do_syscall_3 se h i fd p n s = Inl Unimplemented) \<and>
    (n \<noteq> 0 \<and> unat n < 2 ^ 63 \<and> \<not> string_room se (dom (boxes (SCHED s))) n \<longrightarrow>
      do_syscall_3 se h SYS_WRITE STDOUT_FD p n s = Inl (AllocError n 1))"
proof (intro conjI impI)
  let ?s = "with_args SYS_WRITE fd p n s"
  assume "fd \<noteq> STDOUT_FD"
  then have r: "handle_syscall (string_room se) (args_of (CPU ?s)) (syscall_entry h ?s) =
      Inr ((args_of (CPU ?s))\<lparr>sys_error := error_usize EIO\<rparr>, syscall_entry h ?s)"
    by (intro handle_syscall_bad_fd) simp_all
  have "\<exists>b. syscall_body se (interrupt_entry h ?s) = Inr b \<and> rax (CPU b) = 5"
    using syscall_body_run [OF assms r] by auto
  moreover obtain s' where "int_0x80 se h ?s = Inr s'" "same_console s' (syscall_entry h ?s)"
      "rflags s' = rflags s" "CPU s' = CPU ?s"
    using int_0x80_run [OF assms r] by auto
  ultimately show "\<exists>b s'. syscall_body se (interrupt_entry h (with_args SYS_WRITE fd p n s)) = Inr b \<and> rax (CPU b) = 5 \<and>
      do_syscall_3 se h SYS_WRITE fd p n s = Inr (SYS_WRITE, s') \<and>
      WRITER s' = WRITER s \<and> SHELL s' = SHELL s \<and> rflags s' = rflags s \<and>
      CPU s' = (CPU s)\<lparr>rax := SYS_WRITE, rdi := fd, rsi := p, rdx := n\<rparr>"
    using same_console_entry [of h ?s] with_args_simps(6) [of SYS_WRITE fd p n s]
    by (auto simp: do_syscall_3_eq syscall_result_def same_console_def)
next
  assume "i \<noteq> 1"
  then show "do_syscall_3 se h i fd p n s = Inl Unimplemented"
    by (simp add: do_syscall_3_eq syscall_result_def int_0x80_def syscall_handler_def syscall_body_eq Let_def
        handle_syscall_def args_of_def)
next
  assume "n \<noteq> 0 \<and> unat n < 2 ^ 63 \<and> \<not> string_room se (dom (boxes (SCHED s))) n"
  then show "do_syscall_3 se h SYS_WRITE STDOUT_FD p n s = Inl (AllocError n 1)"
    by (simp add: do_syscall_3_eq syscall_result_def int_0x80_def syscall_handler_def syscall_body_eq Let_def
        handle_syscall_def handle_write_def handle_write_fd_def args_of_def SYS_WRITE_def string_from_cases
        string_fits_def syscall_entry_boxes)
qed

theorem syscall_errors_witness:
  "let s = example_kernel example_boot
   in (\<exists>s'. do_syscall_3 example_syscall_env 0x700 SYS_WRITE 2 0 0 s = Inr (SYS_WRITE, s')) \<and>
      do_syscall_3 example_syscall_env 0x700 60 0 0 0 s = Inl Unimplemented \<and>
      do_syscall_3 example_syscall_env 0x700 SYS_WRITE STDOUT_FD 0 2000000 s = Inl (AllocError 2000000 1)"
  using syscall_errors [OF example_conventions, of 2 "0x700" 0 0 "example_kernel example_boot" 60]
    syscall_errors [OF example_conventions, of 0 "0x700" 0 0 "example_kernel example_boot" 60]
    syscall_errors [OF example_conventions, of 0 "0x700" 0 2000000 "example_kernel example_boot" 60]
  by (auto simp: STDOUT_FD_def example_syscall_env_def)

end
