(* ===== verification/Fixed_Size_Block.thy ===== *)
theory Fixed_Size_Block
  imports Memory_Model "HOL-Library.Multiset"
begin

text \<open>
  The fixed-size block allocator of src/src/allocators/fixed_size_block.rs: ten
  intrusive free lists whose nodes live in the free blocks themselves, over an
  explicit memory. The fallback allocator is the \<^verbatim>\<open>linked_list_allocator\<close> crate's:
  its two functions are parameters.
\<close>

section \<open>Layouts and size classes\<close>

record layout =
  l_size :: usize
  l_align :: usize

definition BLOCK_SIZES :: "usize list" where
  "BLOCK_SIZES = [8, 16, 32, 64, 128, 256, 512, 1024, 2048, 4096]"

text \<open>\<^verbatim>\<open>Iterator::position\<close>.\<close>

fun position :: "('a \<Rightarrow> bool) \<Rightarrow> 'a list \<Rightarrow> nat option" where
  "position P [] = None"
| "position P (x # xs) = (if P x then Some 0 else map_option Suc (position P xs))"

definition list_index :: "layout \<Rightarrow> nat option" where
  "list_index l =
     (let required_block_size = max (l_size l) (l_align l)
      in position (\<lambda>s. required_block_size \<le> s) BLOCK_SIZES)"

text \<open>\<^verbatim>\<open>Layout::from_size_align\<close>: the alignment is a power of two and the rounded size fits.\<close>

definition is_power_of_two :: "usize \<Rightarrow> bool" where
  "is_power_of_two a \<longleftrightarrow> (\<exists>k<64. unat a = 2 ^ k)"

definition from_size_align :: "usize \<Rightarrow> usize \<Rightarrow> layout option" where
  "from_size_align s a =
     (if is_power_of_two a \<and> unat s + (unat a - 1) < 2 ^ 63
      then Some \<lparr>l_size = s, l_align = a\<rparr> else None)"

section \<open>The allocator\<close>

record 'f fsb =
  list_heads :: "u64 option list"
  fallback :: 'f
  fmem :: mem

text \<open>\<^verbatim>\<open>Option<&mut ListNode>\<close> in memory: the null pointer is \<^verbatim>\<open>None\<close>.\<close>

definition ptr_of :: "u64 option \<Rightarrow> u64" where
  "ptr_of x = (case x of None \<Rightarrow> 0 | Some a \<Rightarrow> a)"

definition opt_ptr :: "u64 \<Rightarrow> u64 option" where
  "opt_ptr a = (if a = 0 then None else Some a)"

definition fsb_new :: "'f \<Rightarrow> mem \<Rightarrow> 'f fsb" where
  "fsb_new heap_empty m = \<lparr>list_heads = replicate (length BLOCK_SIZES) None, fallback = heap_empty, fmem = m\<rparr>"

text \<open>The fallback heap keeps its holes in the memory it manages: its functions change both.\<close>

definition fsb_init :: "(usize \<Rightarrow> usize \<Rightarrow> 'f \<times> mem \<Rightarrow> 'f \<times> mem) \<Rightarrow> usize \<Rightarrow> usize \<Rightarrow> 'f fsb \<Rightarrow> 'f fsb" where
  "fsb_init heap_init heap_start heap_size s =
     (case heap_init heap_start heap_size (fallback s, fmem s) of
        (f, m) \<Rightarrow> s\<lparr>fallback := f, fmem := m\<rparr>)"

definition fallback_alloc ::
    "(layout \<Rightarrow> 'f \<times> mem \<Rightarrow> u64 option \<times> 'f \<times> mem) \<Rightarrow> layout \<Rightarrow> 'f fsb \<Rightarrow> u64 \<times> 'f fsb" where
  "fallback_alloc first_fit l s =
     (case first_fit l (fallback s, fmem s) of
        (Some p, f, m) \<Rightarrow> (p, s\<lparr>fallback := f, fmem := m\<rparr>)
      | (None, f, m) \<Rightarrow> (0, s\<lparr>fallback := f, fmem := m\<rparr>))"

definition alloc ::
    "(layout \<Rightarrow> 'f \<times> mem \<Rightarrow> u64 option \<times> 'f \<times> mem) \<Rightarrow> layout \<Rightarrow> 'f fsb \<Rightarrow> (u64 \<times> 'f fsb) res" where
  "alloc first_fit l s =
     (case list_index l of
        Some index \<Rightarrow>
          (case list_heads s ! index of
             Some node \<Rightarrow>
               Inr (node, s\<lparr>list_heads := (list_heads s)[index := opt_ptr (read64 (fmem s) node)],
                            fmem := write64 node (ptr_of None) (fmem s)\<rparr>)
           | None \<Rightarrow>
               (let block_size = BLOCK_SIZES ! index
                in case from_size_align block_size block_size of
                     None \<Rightarrow> Inl UnwrapNone
                   | Some l \<Rightarrow> Inr (fallback_alloc first_fit l s)))
      | None \<Rightarrow> Inr (fallback_alloc first_fit l s))"

definition SIZE_OF_LISTNODE :: usize where "SIZE_OF_LISTNODE = 8"
definition ALIGN_OF_LISTNODE :: usize where "ALIGN_OF_LISTNODE = 8"

definition dealloc ::
    "(u64 \<Rightarrow> layout \<Rightarrow> 'f \<times> mem \<Rightarrow> 'f \<times> mem) \<Rightarrow> u64 \<Rightarrow> layout \<Rightarrow> 'f fsb \<Rightarrow> 'f fsb res" where
  "dealloc fallback_dealloc p l s =
     (case list_index l of
        Some index \<Rightarrow>
          (let new_node = list_heads s ! index
           in if SIZE_OF_LISTNODE \<le> BLOCK_SIZES ! index \<and> ALIGN_OF_LISTNODE \<le> BLOCK_SIZES ! index
              then Inr (s\<lparr>fmem := write64 p (ptr_of new_node) (fmem s),
                          list_heads := (list_heads s)[index := Some p]\<rparr>)
              else Inl AssertFailed)
      | None \<Rightarrow>
          if p = 0 then Inl UnwrapNone
          else (case fallback_dealloc p l (fallback s, fmem s) of
                  (f, m) \<Rightarrow> Inr (s\<lparr>fallback := f, fmem := m\<rparr>)))"

section \<open>The lock around it\<close>

text \<open>
  \<^verbatim>\<open>Locked\<close> of src/src/allocators/mod.rs: a value behind a spin mutex. An operation takes the
  lock for its duration; on a lock that is held it spins for ever, which is \<open>None\<close>.
\<close>

record 'a locked_cell =
  inner :: 'a
  is_locked :: bool

definition locked_new :: "'a \<Rightarrow> 'a locked_cell" where
  "locked_new a = \<lparr>inner = a, is_locked = False\<rparr>"

definition lock_cell :: "'a locked_cell \<Rightarrow> 'a locked_cell option" where
  "lock_cell c = (if is_locked c then None else Some (c\<lparr>is_locked := True\<rparr>))"

definition with_lock :: "('a \<Rightarrow> ('r \<times> 'a) res) \<Rightarrow> 'a locked_cell \<Rightarrow> ('r \<times> 'a locked_cell) res option" where
  "with_lock f c =
     map_option (\<lambda>c. bind_res (f (inner c)) (\<lambda>(r, a). Inr (r, c\<lparr>inner := a, is_locked := False\<rparr>))) (lock_cell c)"

definition global_alloc ::
    "(layout \<Rightarrow> 'f \<times> mem \<Rightarrow> u64 option \<times> 'f \<times> mem) \<Rightarrow> layout \<Rightarrow> 'f fsb locked_cell \<Rightarrow>
     (u64 \<times> 'f fsb locked_cell) res option" where
  "global_alloc first_fit l = with_lock (alloc first_fit l)"

definition global_dealloc ::
    "(u64 \<Rightarrow> layout \<Rightarrow> 'f \<times> mem \<Rightarrow> 'f \<times> mem) \<Rightarrow> u64 \<Rightarrow> layout \<Rightarrow> 'f fsb locked_cell \<Rightarrow>
     (unit \<times> 'f fsb locked_cell) res option" where
  "global_dealloc fallback_dealloc p l =
     with_lock (\<lambda>s. bind_res (dealloc fallback_dealloc p l s) (\<lambda>s. Inr ((), s)))"

text \<open>Between operations the lock is free, so none of them spins; nested use would.\<close>

lemma with_lock_free:
  "\<not> is_locked c \<Longrightarrow> with_lock f c = Some (bind_res (f (inner c)) (\<lambda>(r, a). Inr (r, locked_new a)))"
  by (cases c) (simp add: with_lock_def lock_cell_def locked_new_def)

lemma with_lock_held: "is_locked c \<Longrightarrow> with_lock f c = None"
  by (simp add: with_lock_def lock_cell_def)

section \<open>Size classes\<close>

lemma position_Some:
  "position P xs = Some i \<longleftrightarrow> i < length xs \<and> P (xs ! i) \<and> (\<forall>j<i. \<not> P (xs ! j))"
proof (induction xs arbitrary: i)
  case (Cons x xs)
  then show ?case
    by (cases i) (auto simp: nth_Cons less_Suc_eq_0_disj split: nat.splits)
qed simp

lemma position_None: "position P xs = None \<longleftrightarrow> (\<forall>x \<in> set xs. \<not> P x)"
  by (induction xs) auto

lemma length_BLOCK_SIZES [simp]: "length BLOCK_SIZES = 10"
  by (simp add: BLOCK_SIZES_def)

lemma unat_BLOCK_SIZES:
  assumes "i < 10"
  shows "unat (BLOCK_SIZES ! i) = 2 ^ (i + 3)"
proof -
  have "i = 0 \<or> i = 1 \<or> i = 2 \<or> i = 3 \<or> i = 4 \<or> i = 5 \<or> i = 6 \<or> i = 7 \<or> i = 8 \<or> i = 9"
    using assms by presburger
  then show ?thesis
    by (elim disjE) (simp_all add: BLOCK_SIZES_def)
qed

lemma list_index_less: "list_index l = Some i \<Longrightarrow> i < 10"
  by (simp add: list_index_def position_Some)

lemma block_size_ge: "i < 10 \<Longrightarrow> 8 \<le> unat (BLOCK_SIZES ! i)"
  by (auto simp: unat_BLOCK_SIZES power_add)

lemma asserts_hold: "i < 10 \<Longrightarrow> SIZE_OF_LISTNODE \<le> BLOCK_SIZES ! i \<and> ALIGN_OF_LISTNODE \<le> BLOCK_SIZES ! i"
  using block_size_ge [of i] by (simp add: SIZE_OF_LISTNODE_def ALIGN_OF_LISTNODE_def word_le_nat_alt)

lemma from_block_size:
  assumes "i < 10"
  shows "from_size_align (BLOCK_SIZES ! i) (BLOCK_SIZES ! i) =
    Some \<lparr>l_size = BLOCK_SIZES ! i, l_align = BLOCK_SIZES ! i\<rparr>"
proof -
  have "(2 :: nat) ^ (i + 3) \<le> 2 ^ 12"
    using assms by (intro power_increasing) simp_all
  moreover have "is_power_of_two (BLOCK_SIZES ! i)"
    using assms by (auto simp: is_power_of_two_def unat_BLOCK_SIZES intro!: exI [of _ "i + 3"])
  ultimately show ?thesis
    using assms by (simp add: from_size_align_def unat_BLOCK_SIZES)
qed

end
