(* ===== verification/Block_Heap.thy ===== *)
theory Block_Heap
  imports Fixed_Size_Block
begin

text \<open>
  The heap built on the fixed-size block allocator as a state machine: programs
  allocate, free what they allocated and write into their blocks. The invariant
  relates the intrusive lists in memory to ten abstract stacks of free blocks and
  keeps free and live blocks disjoint.
\<close>

section \<open>Disjoint blocks\<close>

type_synonym block = "u64 \<times> nat"

definition disjoint_blocks :: "block \<Rightarrow> block \<Rightarrow> bool" where
  "disjoint_blocks b c \<longleftrightarrow> unat (fst b) + snd b \<le> unat (fst c) \<or> unat (fst c) + snd c \<le> unat (fst b)"

lemma disj_sym: "disjoint_blocks b c \<longleftrightarrow> disjoint_blocks c b"
  by (auto simp: disjoint_blocks_def)

lemma disj_shrink: "disjoint_blocks (a, n) (b, m) \<Longrightarrow> n' \<le> n \<Longrightarrow> m' \<le> m \<Longrightarrow> disjoint_blocks (a, n') (b, m')"
  by (auto simp: disjoint_blocks_def)

definition separated :: "block multiset \<Rightarrow> bool" where
  "separated M \<longleftrightarrow> (\<forall>b \<in># M. \<forall>c \<in># M - {#b#}. disjoint_blocks b c)"

lemma separated_empty [simp]: "separated {#}"
  by (simp add: separated_def)

lemma separated_add: "separated (add_mset x M) \<longleftrightarrow> (\<forall>c \<in># M. disjoint_blocks x c) \<and> separated M"
proof
  assume sep: "separated (add_mset x M)"
  have "disjoint_blocks b c" if "b \<in># M" "c \<in># M - {#b#}" for b c
  proof -
    have "c \<in># add_mset x M - {#b#}"
      using that by (cases "x = b") (auto dest: in_diffD)
    then show ?thesis
      using sep that(1) by (auto simp: separated_def)
  qed
  then show "(\<forall>c \<in># M. disjoint_blocks x c) \<and> separated M"
    using sep by (auto simp: separated_def)
next
  assume "(\<forall>c \<in># M. disjoint_blocks x c) \<and> separated M"
  then show "separated (add_mset x M)"
    by (auto simp: separated_def disj_sym split: if_splits)
qed

lemma separated_image:
  assumes "separated (image_mset f M)" "\<And>x y. x \<in># M \<Longrightarrow> y \<in># M \<Longrightarrow> disjoint_blocks (f x) (f y) \<Longrightarrow> disjoint_blocks (g x) (g y)"
  shows "separated (image_mset g M)"
  using assms by (induction M) (auto simp: separated_add)

text \<open>The bytes of a block.\<close>

definition block_bytes :: "block \<Rightarrow> u64 set" where
  "block_bytes b = {x. unat (fst b) \<le> unat x \<and> unat x < unat (fst b) + snd b}"

lemma disj_cells: "disjoint_blocks b c \<Longrightarrow> x \<in> block_bytes b \<Longrightarrow> x \<notin> block_bytes c"
  by (auto simp: disjoint_blocks_def block_bytes_def)

lemma cells_mono: "n \<le> m \<Longrightarrow> block_bytes (a, n) \<subseteq> block_bytes (a, m)"
  by (auto simp: block_bytes_def)

lemma offset_in_cells:
  assumes "k < n" "unat a + n \<le> 2 ^ 64"
  shows "a + of_nat k \<in> block_bytes (a, n)"
proof -
  have "unat (a + of_nat k) = unat a + k"
    using assms by (simp add: unat_word_ariths unat_of_nat)
  then show ?thesis
    using assms by (simp add: block_bytes_def)
qed

lemma write64_outside:
  assumes "unat a + 8 \<le> 2 ^ 64" "x \<notin> block_bytes (a, 8)"
  shows "write64 a v m x = m x"
proof -
  have "x = a + of_nat (unat (x - a))"
    by simp
  then have "\<not> unat (x - a) < 8"
    using offset_in_cells [of "unat (x - a)" 8 a] assms by metis
  then show ?thesis
    by (simp add: write64_def)
qed

lemma read64_cells:
  assumes "unat a + 8 \<le> 2 ^ 64" "\<And>x. x \<in> block_bytes (a, 8) \<Longrightarrow> m' x = m x"
  shows "read64 m' a = read64 m a"
  by (rule read64_cong, rule assms(2), rule offset_in_cells) (use assms(1) in simp_all)

section \<open>Free lists in memory\<close>

fun chain :: "mem \<Rightarrow> u64 option \<Rightarrow> u64 list \<Rightarrow> bool" where
  "chain m None xs \<longleftrightarrow> xs = []"
| "chain m (Some a) [] \<longleftrightarrow> False"
| "chain m (Some a) (x # xs) \<longleftrightarrow> a = x \<and> a \<noteq> 0 \<and> chain m (opt_ptr (read64 m a)) xs"

lemma chain_Nil: "chain m h [] \<longleftrightarrow> h = None"
  by (cases h) simp_all

lemma chain_Cons:
  "chain m h (x # xs) \<longleftrightarrow> h = Some x \<and> x \<noteq> 0 \<and> chain m (opt_ptr (read64 m x)) xs"
  by (cases h) auto

lemma chain_cong:
  "(\<And>a. a \<in> set xs \<Longrightarrow> read64 m' a = read64 m a) \<Longrightarrow> chain m h xs \<Longrightarrow> chain m' h xs"
  by (induction xs arbitrary: h) (auto simp: chain_Nil chain_Cons)

lemma chain_head: "chain m h xs \<Longrightarrow> opt_ptr (ptr_of h) = h"
  by (cases xs) (auto simp: chain_Nil chain_Cons opt_ptr_def ptr_of_def)

text \<open>The free blocks of the ten stacks, with the sizes of their classes.\<close>

definition class_size :: "nat \<Rightarrow> nat" where
  "class_size i = unat (BLOCK_SIZES ! i)"

definition free_blocks :: "u64 list list \<Rightarrow> block multiset" where
  "free_blocks ls = (\<Sum>i<10. image_mset (\<lambda>a. (a, class_size i)) (mset (ls ! i)))"

lemma free_blocks_push:
  assumes "i < 10" "length ls = 10"
  shows "free_blocks (ls[i := x # ls ! i]) = add_mset (x, class_size i) (free_blocks ls)"
proof -
  have "free_blocks ls' = image_mset (\<lambda>a. (a, class_size i)) (mset (ls' ! i)) +
      (\<Sum>j \<in> {..<10} - {i}. image_mset (\<lambda>a. (a, class_size j)) (mset (ls' ! j)))" for ls'
    unfolding free_blocks_def using assms(1) by (intro sum.remove) simp_all
  from this [of "ls[i := x # ls ! i]"] this [of ls] show ?thesis
    using assms by simp
qed

lemma free_blocks_pop:
  assumes "i < 10" "length ls = 10" "ls ! i = x # xs"
  shows "free_blocks ls = add_mset (x, class_size i) (free_blocks (ls[i := xs]))"
proof -
  have "ls = (ls[i := xs])[i := x # ls[i := xs] ! i]"
    using assms list_update_id [of ls i] by simp
  then show ?thesis
    using free_blocks_push [of i "ls[i := xs]" x] assms by simp
qed

lemma free_blocks_member:
  assumes "i < 10" "a \<in> set (ls ! i)"
  shows "(a, class_size i) \<in># free_blocks ls"
  using assms by (auto simp: free_blocks_def set_mset_sum)

section \<open>The fallback allocator's contract\<close>

definition wf_layout :: "layout \<Rightarrow> bool" where
  "wf_layout l \<longleftrightarrow> is_power_of_two (l_align l) \<and> 0 < l_size l"

text \<open>
  Documented behaviour of the fallback heap, over the set of blocks it has handed
  out. It keeps its own data in the memory it has not handed out, in an order of its own
  that initialization establishes, that its operations keep and that writes
  into blocks handed out do not disturb. In that order, a new block is not null, fits the
  address space, has the requested alignment and overlaps no block handed out before;
  deallocation of a block handed out gives it back; and neither changes a byte of the blocks
  that stay handed out.
\<close>

definition same_on :: "block set \<Rightarrow> mem \<Rightarrow> mem \<Rightarrow> bool" where
  "same_on B m m' \<longleftrightarrow> (\<forall>b \<in> B. \<forall>x \<in> block_bytes b. m' x = m x)"

definition only_on :: "block set \<Rightarrow> mem \<Rightarrow> mem \<Rightarrow> bool" where
  "only_on B m m' \<longleftrightarrow> (\<forall>x. (\<forall>b \<in> B. x \<notin> block_bytes b) \<longrightarrow> m' x = m x)"

definition fallback_laws ::
    "('f \<times> mem \<Rightarrow> bool) \<Rightarrow> (usize \<Rightarrow> usize \<Rightarrow> 'f \<times> mem \<Rightarrow> 'f \<times> mem) \<Rightarrow>
     (layout \<Rightarrow> 'f \<times> mem \<Rightarrow> u64 option \<times> 'f \<times> mem) \<Rightarrow> (u64 \<Rightarrow> layout \<Rightarrow> 'f \<times> mem \<Rightarrow> 'f \<times> mem) \<Rightarrow>
     ('f \<Rightarrow> block set) \<Rightarrow> bool" where
  "fallback_laws ok heap_init first_fit release owned \<longleftrightarrow>
     (\<forall>a n f m. owned (fst (heap_init a n (f, m))) = {} \<longrightarrow> ok (heap_init a n (f, m))) \<and>
     (\<forall>f m m'. ok (f, m) \<and> only_on (owned f) m m' \<longrightarrow> ok (f, m')) \<and>
     (\<forall>l f m p f' m'. ok (f, m) \<and> wf_layout l \<and> first_fit l (f, m) = (Some p, f', m') \<longrightarrow>
        p \<noteq> 0 \<and> unat (l_align l) dvd unat p \<and> unat p + unat (l_size l) \<le> 2 ^ 64 \<and>
        (\<forall>b \<in> owned f. disjoint_blocks (p, unat (l_size l)) b) \<and>
        owned f' = insert (p, unat (l_size l)) (owned f) \<and> same_on (owned f) m m' \<and> ok (f', m')) \<and>
     (\<forall>l f m f' m'. ok (f, m) \<and> wf_layout l \<and> first_fit l (f, m) = (None, f', m') \<longrightarrow>
        owned f' = owned f \<and> same_on (owned f) m m' \<and> ok (f', m')) \<and>
     (\<forall>p l f m f' m'. ok (f, m) \<and> wf_layout l \<and> (p, unat (l_size l)) \<in> owned f \<and> release p l (f, m) = (f', m') \<longrightarrow>
        owned f' = owned f - {(p, unat (l_size l))} \<and> same_on (owned f') m m' \<and> ok (f', m'))"

definition fallback_contract where
  "fallback_contract heap_init first_fit release owned \<longleftrightarrow>
     (\<exists>ok. fallback_laws ok heap_init first_fit release owned)"

lemma contract_Some:
  assumes "fallback_laws ok hi fa fr owned" "ok (f, m)" "wf_layout l" "fa l (f, m) = (Some p, f', m')"
  shows "p \<noteq> 0" "unat (l_align l) dvd unat p" "unat p + unat (l_size l) \<le> 2 ^ 64"
    "\<forall>b \<in> owned f. disjoint_blocks (p, unat (l_size l)) b"
    "owned f' = insert (p, unat (l_size l)) (owned f)" "same_on (owned f) m m'" "ok (f', m')"
  using assms(1) [unfolded fallback_laws_def, THEN conjunct2, THEN conjunct2, THEN conjunct1, rule_format,
      OF conjI [OF assms(2) conjI [OF assms(3,4)]]]
  by simp_all

lemma contract_None:
  assumes "fallback_laws ok hi fa fr owned" "ok (f, m)" "wf_layout l" "fa l (f, m) = (None, f', m')"
  shows "owned f' = owned f" "same_on (owned f) m m'" "ok (f', m')"
  using assms(1) [unfolded fallback_laws_def, THEN conjunct2, THEN conjunct2, THEN conjunct2, THEN conjunct1,
      rule_format, OF conjI [OF assms(2) conjI [OF assms(3,4)]]]
  by simp_all

lemma contract_release:
  assumes "fallback_laws ok hi fa fr owned" "ok (f, m)" "wf_layout l" "(p, unat (l_size l)) \<in> owned f"
    "fr p l (f, m) = (f', m')"
  shows "owned f' = owned f - {(p, unat (l_size l))}" "same_on (owned f') m m'" "ok (f', m')"
  using assms(1) [unfolded fallback_laws_def, THEN conjunct2, THEN conjunct2, THEN conjunct2, THEN conjunct2,
      rule_format, OF conjI [OF assms(2) conjI [OF assms(3) conjI [OF assms(4,5)]]]]
  by blast+

lemma contract_write:
  assumes "fallback_laws ok hi fa fr owned" "ok (f, m)" "b \<in> owned f" "\<And>x. x \<notin> block_bytes b \<Longrightarrow> m' x = m x"
  shows "ok (f, m')"
proof -
  have "only_on (owned f) m m'"
    using assms(3,4) by (auto simp: only_on_def)
  then show ?thesis
    using assms(1,2) unfolding fallback_laws_def by blast
qed

section \<open>The invariant\<close>

definition block_size_of :: "layout \<Rightarrow> nat" where
  "block_size_of l = (case list_index l of Some i \<Rightarrow> class_size i | None \<Rightarrow> unat (l_size l))"

definition block_align_of :: "layout \<Rightarrow> nat" where
  "block_align_of l = (case list_index l of Some i \<Rightarrow> class_size i | None \<Rightarrow> unat (l_align l))"

definition live_blocks :: "(u64 \<times> layout) multiset \<Rightarrow> block multiset" where
  "live_blocks L = image_mset (\<lambda>(p, l). (p, block_size_of l)) L"

definition valid_block :: "block \<Rightarrow> bool" where
  "valid_block b \<longleftrightarrow> fst b \<noteq> 0 \<and> 0 < snd b \<and> unat (fst b) + snd b \<le> 2 ^ 64"

lemma valid_not_disj: "valid_block b \<Longrightarrow> \<not> disjoint_blocks b b"
  by (auto simp: valid_block_def disjoint_blocks_def)

definition lists_ok :: "'f fsb \<Rightarrow> u64 list list \<Rightarrow> bool" where
  "lists_ok s ls \<longleftrightarrow>
     length (list_heads s) = 10 \<and> length ls = 10 \<and>
     (\<forall>i<10. chain (fmem s) (list_heads s ! i) (ls ! i) \<and> (\<forall>a \<in> set (ls ! i). class_size i dvd unat a))"

definition blocks_ok :: "block set \<Rightarrow> block multiset \<Rightarrow> bool" where
  "blocks_ok own B \<longleftrightarrow> (\<forall>b \<in># B. valid_block b) \<and> separated B \<and> set_mset B \<subseteq> own"

definition live_ok :: "(u64 \<times> layout) multiset \<Rightarrow> bool" where
  "live_ok L \<longleftrightarrow> (\<forall>(p, l) \<in># L. wf_layout l \<and> block_align_of l dvd unat p)"

definition heap_ok :: "('f \<Rightarrow> block set) \<Rightarrow> 'f fsb \<Rightarrow> (u64 \<times> layout) multiset \<Rightarrow> u64 list list \<Rightarrow> bool" where
  "heap_ok owned s L ls \<longleftrightarrow>
     lists_ok s ls \<and> blocks_ok (owned (fallback s)) (free_blocks ls + live_blocks L) \<and> live_ok L"

lemma block_size_Some: "list_index l = Some i \<Longrightarrow> block_size_of l = class_size i"
  by (simp add: block_size_of_def)

lemma class_size_eq: "i < 10 \<Longrightarrow> class_size i = 2 ^ (i + 3)"
  by (simp add: class_size_def unat_BLOCK_SIZES)

lemma class_size_ge: "i < 10 \<Longrightarrow> 8 \<le> class_size i"
  by (simp add: class_size_def block_size_ge)

text \<open>A power of two that is not larger than a class size divides it.\<close>

lemma align_dvd:
  assumes "list_index l = Some i" "is_power_of_two (l_align l)"
  shows "unat (l_align l) dvd class_size i"
proof -
  have i: "i < 10" "max (l_size l) (l_align l) \<le> BLOCK_SIZES ! i"
    using assms(1) by (auto simp: list_index_def position_Some Let_def)
  obtain k where k: "unat (l_align l) = 2 ^ k"
    using assms(2) by (auto simp: is_power_of_two_def)
  have "l_align l \<le> BLOCK_SIZES ! i"
    using i(2) by simp
  then have "unat (l_align l) \<le> class_size i"
    by (simp add: class_size_def word_le_nat_alt)
  then have "k \<le> i + 3"
    using k i(1) by (simp add: class_size_eq)
  then show ?thesis
    using k i(1) by (simp add: class_size_eq le_imp_power_dvd)
qed

lemma align_dvd_block: "wf_layout l \<Longrightarrow> unat (l_align l) dvd block_align_of l"
  by (auto simp: block_align_of_def wf_layout_def align_dvd split: option.split)

lemma size_le_block: "unat (l_size l) \<le> block_size_of l"
proof (cases "list_index l")
  case (Some i)
  then have "l_size l \<le> BLOCK_SIZES ! i"
    by (auto simp: list_index_def position_Some Let_def)
  then show ?thesis
    using Some by (simp add: block_size_of_def class_size_def word_le_nat_alt)
qed (simp add: block_size_of_def)

lemma blocks_ok_add:
  "blocks_ok own (add_mset b B) \<longleftrightarrow>
     valid_block b \<and> b \<in> own \<and> (\<forall>c \<in># B. disjoint_blocks b c) \<and> blocks_ok own B"
  by (auto simp: blocks_ok_def separated_add)

text \<open>The lists only depend on the bytes of the free blocks.\<close>

lemma free_node_cells:
  assumes "i < 10" "a \<in> set (ls ! i)" "blocks_ok own (free_blocks ls + B)"
  shows "unat a + 8 \<le> 2 ^ 64" "x \<in> block_bytes (a, 8) \<Longrightarrow> x \<in> block_bytes (a, class_size i)"
    "(a, class_size i) \<in># free_blocks ls"
proof -
  show mem: "(a, class_size i) \<in># free_blocks ls"
    using assms(1,2) by (rule free_blocks_member)
  then have "valid_block (a, class_size i)"
    using assms(3) by (auto simp: blocks_ok_def)
  then show "unat a + 8 \<le> 2 ^ 64"
    using class_size_ge [OF assms(1)] by (simp add: valid_block_def)
  show "x \<in> block_bytes (a, 8) \<Longrightarrow> x \<in> block_bytes (a, class_size i)"
    using cells_mono class_size_ge [OF assms(1)] by blast
qed

lemma lists_ok_frame:
  assumes "lists_ok s ls" "blocks_ok own (free_blocks ls + B)" "same_on (set_mset (free_blocks ls)) (fmem s) m"
    "list_heads s' = list_heads s" "fmem s' = m"
  shows "lists_ok s' ls"
proof -
  have "read64 m a = read64 (fmem s) a" if "i < 10" "a \<in> set (ls ! i)" for i a
    using free_node_cells [OF that assms(2)] assms(3) by (intro read64_cells) (auto simp: same_on_def)
  then show ?thesis
    using assms(1,4,5) by (auto simp: lists_ok_def intro: chain_cong)
qed

section \<open>Every operation keeps the invariant\<close>

definition add_live :: "u64 \<Rightarrow> layout \<Rightarrow> (u64 \<times> layout) multiset \<Rightarrow> (u64 \<times> layout) multiset" where
  "add_live p l L = (if p = 0 then L else add_mset (p, l) L)"

lemma live_blocks_add: "live_blocks (add_mset (p, l) L) = add_mset (p, block_size_of l) (live_blocks L)"
  by (simp add: live_blocks_def)

lemma live_blocks_remove:
  "(p, l) \<in># L \<Longrightarrow> live_blocks L = add_mset (p, block_size_of l) (live_blocks (L - {#(p, l)#}))"
  by (metis insert_DiffM live_blocks_add)

lemma live_ok_add:
  "live_ok (add_mset (p, l) L) \<longleftrightarrow> wf_layout l \<and> block_align_of l dvd unat p \<and> live_ok L"
  by (auto simp: live_ok_def)

lemma live_ok_remove: "live_ok L \<Longrightarrow> live_ok (L - {#x#})"
  by (auto simp: live_ok_def dest: in_diffD)

lemma blocks_ok_own: "blocks_ok own B \<Longrightarrow> own \<subseteq> own' \<Longrightarrow> blocks_ok own' B"
  by (auto simp: blocks_ok_def)

lemma same_on_mono: "same_on B m m' \<Longrightarrow> A \<subseteq> B \<Longrightarrow> same_on A m m'"
  by (auto simp: same_on_def)

lemma fallback_alloc_ok:
  assumes "fallback_laws ok hi fa fr owned" "ok (fallback s, fmem s)" "heap_ok owned s L ls" "wf_layout l"
    "wf_layout l'" "unat (l_size l') = block_size_of l" "unat (l_align l') = block_align_of l"
    "fallback_alloc fa l' s = (p, s')"
  shows "heap_ok owned s' (add_live p l L) ls \<and> same_on (set_mset (live_blocks L)) (fmem s) (fmem s') \<and>
    ok (fallback s', fmem s')"
proof -
  obtain r f m where fit: "fa l' (fallback s, fmem s) = (r, f, m)"
    by (cases "fa l' (fallback s, fmem s)")
  let ?B = "free_blocks ls + live_blocks L"
  have s': "s' = s\<lparr>fallback := f, fmem := m\<rparr>" and p: "p = ptr_of r"
    using assms(8) fit by (auto simp: fallback_alloc_def ptr_of_def split: option.splits)
  have old: "lists_ok s ls" "blocks_ok (owned (fallback s)) ?B" "live_ok L"
    using assms(3) by (simp_all add: heap_ok_def)
  have "same_on (owned (fallback s)) (fmem s) m \<and> owned (fallback s) \<subseteq> owned f \<and> ok (f, m)"
  proof (cases r)
    case None
    then show ?thesis using contract_None [OF assms(1,2,5)] fit by blast
  next
    case (Some q)
    then show ?thesis using contract_Some(5-7) [OF assms(1,2,5)] fit by blast
  qed
  then have same: "same_on (owned (fallback s)) (fmem s) m" and sub: "owned (fallback s) \<subseteq> owned f" and ok: "ok (f, m)"
    by simp_all
  have new: "p \<noteq> 0 \<Longrightarrow> unat (l_align l') dvd unat p \<and> valid_block (p, block_size_of l) \<and>
      (p, block_size_of l) \<in> owned f \<and> (\<forall>b \<in> owned (fallback s). disjoint_blocks (p, block_size_of l) b)"
  proof -
    assume "p \<noteq> 0"
    then have "fa l' (fallback s, fmem s) = (Some p, f, m)"
      using fit p by (cases r) (simp_all add: ptr_of_def)
    note some = contract_Some [OF assms(1,2,5) this]
    moreover have "0 < unat (l_size l')"
      using assms(5) by (simp add: wf_layout_def word_less_nat_alt)
    ultimately show ?thesis
      using assms(6) by (simp add: valid_block_def)
  qed
  have own: "set_mset ?B \<subseteq> owned (fallback s)"
    using old(2) by (simp add: blocks_ok_def)
  have "lists_ok s' ls"
    using old(1,2) by (rule lists_ok_frame) (use own same s' in \<open>auto intro: same_on_mono\<close>)
  moreover have "blocks_ok (owned f) ?B"
    using old(2) sub by (rule blocks_ok_own)
  moreover have "p \<noteq> 0 \<Longrightarrow> \<forall>b \<in># ?B. disjoint_blocks (p, block_size_of l) b"
    using new own by blast
  moreover have "p \<noteq> 0 \<Longrightarrow> block_align_of l dvd unat p"
    using new assms(7) by simp
  ultimately have "heap_ok owned s' (add_live p l L) ls"
    using old(3) new s' assms(4)
    by (cases "p = 0") (simp_all add: heap_ok_def add_live_def live_blocks_add blocks_ok_add live_ok_add)
  then show ?thesis
    using same own s' ok by (auto intro: same_on_mono)
qed

lemma class_layout:
  assumes "list_index l = Some i" "wf_layout l"
  shows "wf_layout \<lparr>l_size = BLOCK_SIZES ! i, l_align = BLOCK_SIZES ! i\<rparr>"
    "unat (BLOCK_SIZES ! i) = block_size_of l" "unat (BLOCK_SIZES ! i) = block_align_of l"
proof -
  have i: "i < 10" using assms(1) by (rule list_index_less)
  show "wf_layout \<lparr>l_size = BLOCK_SIZES ! i, l_align = BLOCK_SIZES ! i\<rparr>"
    using from_block_size [OF i] block_size_ge [OF i]
    by (auto simp: wf_layout_def from_size_align_def word_less_nat_alt split: if_splits)
  show "unat (BLOCK_SIZES ! i) = block_size_of l" "unat (BLOCK_SIZES ! i) = block_align_of l"
    using assms(1) by (simp_all add: block_size_of_def block_align_of_def class_size_def)
qed

lemma write_node_same:
  assumes "blocks_ok own (add_mset (p, n) B)" "8 \<le> n"
  shows "same_on (set_mset B) m (write64 p v m)"
proof -
  have p: "unat p + 8 \<le> 2 ^ 64" and d: "\<forall>b \<in># B. disjoint_blocks (p, n) b"
    using assms by (auto simp: blocks_ok_add valid_block_def)
  have "write64 p v m x = m x" if "b \<in># B" "x \<in> block_bytes b" for b x
    using disj_cells [of "(p, n)" b x] d that cells_mono [OF assms(2), of p] p
    by (intro write64_outside) auto
  then show ?thesis
    by (auto simp: same_on_def)
qed

lemma write_node_inside:
  assumes "blocks_ok own (add_mset (p, n) B)" "8 \<le> n"
  shows "\<exists>b \<in> own. \<forall>x. x \<notin> block_bytes b \<longrightarrow> write64 p v m x = m x"
proof -
  have p: "unat p + 8 \<le> 2 ^ 64" "(p, n) \<in> own"
    using assms by (auto simp: blocks_ok_add valid_block_def)
  have "write64 p v m x = m x" if "x \<notin> block_bytes (p, n)" for x
    using that cells_mono [OF assms(2), of p] p(1) by (intro write64_outside) auto
  then show ?thesis
    using p(2) by blast
qed

lemma pop_ok:
  assumes "heap_ok owned s L ls" "wf_layout l" "list_index l = Some i" "list_heads s ! i = Some node"
  defines "s' \<equiv> s\<lparr>list_heads := (list_heads s)[i := opt_ptr (read64 (fmem s) node)],
      fmem := write64 node (ptr_of None) (fmem s)\<rparr>"
  shows "\<exists>ls'. heap_ok owned s' (add_live node l L) ls'" "same_on (set_mset (live_blocks L)) (fmem s) (fmem s')"
    "\<exists>b \<in> owned (fallback s). \<forall>x. x \<notin> block_bytes b \<longrightarrow> fmem s' x = fmem s x"
proof -
  have old: "lists_ok s ls" "blocks_ok (owned (fallback s)) (free_blocks ls + live_blocks L)" "live_ok L"
    using assms(1) by (simp_all add: heap_ok_def)
  have i: "i < 10" using assms(3) by (rule list_index_less)
  obtain xs where xs: "ls ! i = node # xs" "node \<noteq> 0" "chain (fmem s) (opt_ptr (read64 (fmem s) node)) xs"
    using old(1) i assms(4) by (cases "ls ! i") (auto simp: lists_ok_def chain_Nil chain_Cons)
  define ls' where "ls' = ls[i := xs]"
  have free: "free_blocks ls = add_mset (node, class_size i) (free_blocks ls')"
    unfolding ls'_def by (rule free_blocks_pop) (use old(1) i xs in \<open>simp_all add: lists_ok_def\<close>)
  then have split: "blocks_ok (owned (fallback s))
      (add_mset (node, class_size i) (free_blocks ls' + live_blocks L))"
    using old(2) by simp
  have same: "same_on (set_mset (free_blocks ls' + live_blocks L)) (fmem s) (fmem s')"
    using write_node_same [OF split class_size_ge [OF i]] by (simp add: s'_def)
  have "lists_ok (s\<lparr>list_heads := (list_heads s)[i := opt_ptr (read64 (fmem s) node)]\<rparr>) ls'"
    using old(1) xs i by (auto simp: lists_ok_def ls'_def nth_list_update)
  then have "lists_ok s' ls'"
    by (rule lists_ok_frame [where own = "owned (fallback s)" and B = "live_blocks L"])
      (use split same in \<open>auto simp: s'_def blocks_ok_add intro: same_on_mono\<close>)
  moreover have "class_size i dvd unat node"
    using old(1) i xs(1) by (auto simp: lists_ok_def)
  ultimately have "heap_ok owned s' (add_live node l L) ls'"
    using old(3) split xs(2) assms(2,3)
    by (simp add: heap_ok_def add_live_def live_blocks_add live_ok_add block_size_of_def block_align_of_def
        s'_def)
  then show "\<exists>ls'. heap_ok owned s' (add_live node l L) ls'" ..
  show "same_on (set_mset (live_blocks L)) (fmem s) (fmem s')"
    using same by (rule same_on_mono) simp
  show "\<exists>b \<in> owned (fallback s). \<forall>x. x \<notin> block_bytes b \<longrightarrow> fmem s' x = fmem s x"
    using write_node_inside [OF split class_size_ge [OF i]] by (simp add: s'_def)
qed

lemma alloc_ok:
  assumes "fallback_laws ok hi fa fr owned" "ok (fallback s, fmem s)" "heap_ok owned s L ls" "wf_layout l"
  obtains p s' ls' where "alloc fa l s = Inr (p, s')" "heap_ok owned s' (add_live p l L) ls'"
    "same_on (set_mset (live_blocks L)) (fmem s) (fmem s')" "ok (fallback s', fmem s')"
proof (cases "list_index l")
  case None
  obtain p s' where fb: "fallback_alloc fa l s = (p, s')"
    by (cases "fallback_alloc fa l s")
  then show ?thesis
    using fallback_alloc_ok [OF assms assms(4) _ _ fb] None that [of p s' ls]
    by (simp add: alloc_def block_size_of_def block_align_of_def)
next
  case (Some i)
  let ?l = "\<lparr>l_size = BLOCK_SIZES ! i, l_align = BLOCK_SIZES ! i\<rparr>"
  show ?thesis
  proof (cases "list_heads s ! i")
    case None
    obtain p s' where fb: "fallback_alloc fa ?l s = (p, s')"
      by (cases "fallback_alloc fa ?l s")
    then show ?thesis
      using fallback_alloc_ok [OF assms class_layout(1) [OF Some assms(4)] _ _ fb]
        class_layout(2,3) [OF Some assms(4)] None Some from_block_size [OF list_index_less [OF Some]] that [of p s' ls]
      by (simp add: alloc_def)
  next
    case (Some node)
    note pop = pop_ok [OF assms(3,4) \<open>list_index l = Some i\<close> Some]
    obtain c where "c \<in> owned (fallback s)"
        "\<And>x. x \<notin> block_bytes c \<Longrightarrow> write64 node (ptr_of None) (fmem s) x = fmem s x"
      using pop(3) by auto
    then have "ok (fallback s, write64 node (ptr_of None) (fmem s))"
      by (rule contract_write [OF assms(1,2)])
    then show ?thesis
      using pop(1,2) that \<open>list_index l = Some i\<close> Some by (auto simp: alloc_def)
  qed
qed

lemma push_ok:
  assumes "heap_ok owned s L ls" "(p, l) \<in># L" "list_index l = Some i"
  defines "s' \<equiv> s\<lparr>fmem := write64 p (ptr_of (list_heads s ! i)) (fmem s),
      list_heads := (list_heads s)[i := Some p]\<rparr>"
  shows "\<exists>ls'. heap_ok owned s' (L - {#(p, l)#}) ls'"
    "same_on (set_mset (live_blocks (L - {#(p, l)#}))) (fmem s) (fmem s')"
    "\<exists>b \<in> owned (fallback s). \<forall>x. x \<notin> block_bytes b \<longrightarrow> fmem s' x = fmem s x"
proof -
  let ?L = "L - {#(p, l)#}"
  have old: "lists_ok s ls" "blocks_ok (owned (fallback s)) (free_blocks ls + live_blocks L)" "live_ok L"
    using assms(1) by (simp_all add: heap_ok_def)
  have i: "i < 10" using assms(3) by (rule list_index_less)
  have split: "blocks_ok (owned (fallback s)) (add_mset (p, class_size i) (free_blocks ls + live_blocks ?L))"
    using old(2) live_blocks_remove [OF assms(2)] assms(3) by (simp add: block_size_of_def)
  have same: "same_on (set_mset (free_blocks ls + live_blocks ?L)) (fmem s) (fmem s')"
    using write_node_same [OF split class_size_ge [OF i]] by (simp add: s'_def)
  have frame: "lists_ok (s\<lparr>fmem := fmem s'\<rparr>) ls"
    using old(1)
    by (rule lists_ok_frame [where own = "owned (fallback s)" and B = "live_blocks ?L"])
      (use split same in \<open>auto simp: blocks_ok_add intro: same_on_mono\<close>)
  define ls' where "ls' = ls[i := p # ls ! i]"
  have "chain (fmem s') (list_heads s ! i) (ls ! i)"
    using frame i by (auto simp: lists_ok_def)
  then have "chain (fmem s') (Some p) (p # ls ! i)"
    using split chain_head by (simp add: s'_def blocks_ok_add valid_block_def)
  moreover have dvd: "class_size i dvd unat p"
    using old(3) assms(2,3) by (auto simp: live_ok_def block_align_of_def)
  ultimately have "lists_ok s' ls'"
    using frame i by (auto simp: lists_ok_def ls'_def s'_def nth_list_update)
  moreover have "free_blocks ls' = add_mset (p, class_size i) (free_blocks ls)"
    unfolding ls'_def by (rule free_blocks_push) (use i old(1) in \<open>simp_all add: lists_ok_def\<close>)
  ultimately have "heap_ok owned s' ?L ls'"
    using split old(3) by (simp add: heap_ok_def s'_def live_ok_remove)
  then show "\<exists>ls'. heap_ok owned s' ?L ls'" ..
  show "same_on (set_mset (live_blocks ?L)) (fmem s) (fmem s')"
    using same by (rule same_on_mono) simp
  show "\<exists>b \<in> owned (fallback s). \<forall>x. x \<notin> block_bytes b \<longrightarrow> fmem s' x = fmem s x"
    using write_node_inside [OF split class_size_ge [OF i]] by (simp add: s'_def)
qed

lemma release_ok:
  assumes "fallback_laws ok hi fa fr owned" "ok (fallback s, fmem s)" "heap_ok owned s L ls" "(p, l) \<in># L"
    "list_index l = None" "fr p l (fallback s, fmem s) = (f, m)"
  shows "heap_ok owned (s\<lparr>fallback := f, fmem := m\<rparr>) (L - {#(p, l)#}) ls"
    "same_on (set_mset (live_blocks (L - {#(p, l)#}))) (fmem s) m" "ok (f, m)"
proof -
  let ?L = "L - {#(p, l)#}"
  let ?B = "free_blocks ls + live_blocks ?L"
  have old: "lists_ok s ls" "blocks_ok (owned (fallback s)) (free_blocks ls + live_blocks L)" "live_ok L"
    using assms(3) by (simp_all add: heap_ok_def)
  have "wf_layout l"
    using old(3) assms(4) by (auto simp: live_ok_def)
  have split: "blocks_ok (owned (fallback s)) (add_mset (p, unat (l_size l)) ?B)"
    using old(2) live_blocks_remove [OF assms(4)] assms(5) by (simp add: block_size_of_def)
  then have "(p, unat (l_size l)) \<in> owned (fallback s)"
    by (simp add: blocks_ok_add)
  note rel = contract_release [OF assms(1,2) \<open>wf_layout l\<close> this assms(6)]
  show "ok (f, m)" by (rule rel(3))
  have "\<not> (p, unat (l_size l)) \<in># ?B"
    using split valid_not_disj unfolding blocks_ok_add by blast
  then have own: "set_mset ?B \<subseteq> owned f"
    using split rel(1) by (auto simp: blocks_ok_add blocks_ok_def)
  then have B: "blocks_ok (owned f) ?B"
    using split by (simp add: blocks_ok_add) (simp add: blocks_ok_def)
  have "lists_ok (s\<lparr>fallback := f, fmem := m\<rparr>) ls"
    using old(1) B by (rule lists_ok_frame) (use own rel(2) in \<open>auto intro: same_on_mono\<close>)
  then show "heap_ok owned (s\<lparr>fallback := f, fmem := m\<rparr>) ?L ls"
    using B old(3) by (simp add: heap_ok_def live_ok_remove)
  show "same_on (set_mset (live_blocks ?L)) (fmem s) m"
    using rel(2) by (rule same_on_mono) (use own in simp)
qed

lemma dealloc_ok:
  assumes "fallback_laws ok hi fa fr owned" "ok (fallback s, fmem s)" "heap_ok owned s L ls" "(p, l) \<in># L"
  obtains s' ls' where "dealloc fr p l s = Inr s'" "heap_ok owned s' (L - {#(p, l)#}) ls'"
    "same_on (set_mset (live_blocks (L - {#(p, l)#}))) (fmem s) (fmem s')" "ok (fallback s', fmem s')"
proof (cases "list_index l")
  case None
  obtain f m where rel: "fr p l (fallback s, fmem s) = (f, m)"
    by (cases "fr p l (fallback s, fmem s)")
  have "p \<noteq> 0"
    using assms(3) live_blocks_remove [OF assms(4)] by (auto simp: heap_ok_def blocks_ok_def valid_block_def)
  then show ?thesis
    using release_ok [OF assms None rel] that None rel by (simp add: dealloc_def)
next
  case (Some i)
  let ?m = "write64 p (ptr_of (list_heads s ! i)) (fmem s)"
  note push = push_ok [OF assms(3,4) Some]
  obtain c where "c \<in> owned (fallback s)" "\<And>x. x \<notin> block_bytes c \<Longrightarrow> ?m x = fmem s x"
    using push(3) by auto
  then have "ok (fallback s, ?m)"
    by (rule contract_write [OF assms(1,2)])
  then show ?thesis
    using push(1,2) that asserts_hold [OF list_index_less [OF Some]] Some
    by (auto simp: dealloc_def Let_def)
qed

lemma store_ok:
  assumes "heap_ok owned s L ls" "(p, l) \<in># L" "k < unat (l_size l)"
  shows "heap_ok owned (s\<lparr>fmem := (fmem s)(p + of_nat k := v)\<rparr>) L ls"
    "\<exists>b \<in> owned (fallback s). p + of_nat k \<in> block_bytes b"
proof -
  have old: "lists_ok s ls" "blocks_ok (owned (fallback s)) (free_blocks ls + live_blocks L)" "live_ok L"
    using assms(1) by (simp_all add: heap_ok_def)
  have "blocks_ok (owned (fallback s)) (add_mset (p, block_size_of l) (free_blocks ls + live_blocks (L - {#(p, l)#})))"
    using old(2) live_blocks_remove [OF assms(2)] by simp
  then have p: "valid_block (p, block_size_of l)" "\<forall>b \<in># free_blocks ls. disjoint_blocks (p, block_size_of l) b"
      "(p, block_size_of l) \<in> owned (fallback s)"
    by (simp_all add: blocks_ok_add)
  have cell: "p + of_nat k \<in> block_bytes (p, block_size_of l)"
    using p(1) assms(3) size_le_block [of l] by (intro offset_in_cells) (auto simp: valid_block_def)
  then show "\<exists>b \<in> owned (fallback s). p + of_nat k \<in> block_bytes b"
    using p(3) by blast
  have "same_on (set_mset (free_blocks ls)) (fmem s) ((fmem s)(p + of_nat k := v))"
    using cell p(2) disj_cells by (fastforce simp: same_on_def)
  then have "lists_ok (s\<lparr>fmem := (fmem s)(p + of_nat k := v)\<rparr>) ls"
    by (intro lists_ok_frame [OF old(1,2)]) simp_all
  then show "heap_ok owned (s\<lparr>fmem := (fmem s)(p + of_nat k := v)\<rparr>) L ls"
    using old by (simp add: heap_ok_def)
qed

lemma fresh_ok:
  assumes "owned f = {}"
  shows "heap_ok owned \<lparr>list_heads = replicate (length BLOCK_SIZES) None, fallback = f, fmem = m\<rparr> {#} (replicate 10 [])"
  by (simp add: heap_ok_def lists_ok_def blocks_ok_def live_ok_def live_blocks_def free_blocks_def chain_Nil)

section \<open>Programs using the heap\<close>

text \<open>
  The states a program can bring the allocator into: it initializes the heap on
  unused memory, allocates, gives back blocks it holds, and writes into its
  blocks. The second component is what it holds. A null result of \<^verbatim>\<open>alloc\<close> is a
  failed allocation.
\<close>

inductive heap_run ::
    "(usize \<Rightarrow> usize \<Rightarrow> 'f \<times> mem \<Rightarrow> 'f \<times> mem) \<Rightarrow>
     (layout \<Rightarrow> 'f \<times> mem \<Rightarrow> u64 option \<times> 'f \<times> mem) \<Rightarrow> (u64 \<Rightarrow> layout \<Rightarrow> 'f \<times> mem \<Rightarrow> 'f \<times> mem) \<Rightarrow>
     ('f \<Rightarrow> block set) \<Rightarrow> 'f fsb \<Rightarrow> (u64 \<times> layout) multiset \<Rightarrow> bool"
  for hi fa fr owned where
  start: "owned (fst (hi heap_start heap_size (f, m))) = {} \<Longrightarrow>
    heap_run hi fa fr owned (fsb_init hi heap_start heap_size (fsb_new f m)) {#}"
| alloc: "heap_run hi fa fr owned s L \<Longrightarrow> wf_layout l \<Longrightarrow> alloc fa l s = Inr (p, s') \<Longrightarrow>
    heap_run hi fa fr owned s' (add_live p l L)"
| dealloc: "heap_run hi fa fr owned s L \<Longrightarrow> (p, l) \<in># L \<Longrightarrow> dealloc fr p l s = Inr s' \<Longrightarrow>
    heap_run hi fa fr owned s' (L - {#(p, l)#})"
| store: "heap_run hi fa fr owned s L \<Longrightarrow> (p, l) \<in># L \<Longrightarrow> k < unat (l_size l) \<Longrightarrow>
    heap_run hi fa fr owned (s\<lparr>fmem := (fmem s)(p + of_nat k := v)\<rparr>) L"

lemma heap_run_ok:
  assumes "heap_run hi fa fr owned s L" "fallback_laws ok hi fa fr owned"
  shows "ok (fallback s, fmem s) \<and> (\<exists>ls. heap_ok owned s L ls)"
  using assms(1)
proof induction
  case (start heap_start heap_size f m)
  then have "ok (hi heap_start heap_size (f, m))"
    by (rule assms(2) [unfolded fallback_laws_def, THEN conjunct1, rule_format])
  then show ?case
    using start fresh_ok [of owned] by (cases "hi heap_start heap_size (f, m)") (auto simp: fsb_init_def fsb_new_def)
next
  case (alloc s L l p s')
  then show ?case
    using alloc_ok [OF assms(2)] by (metis Inr_inject prod.inject)
next
  case (dealloc s L p l s')
  then show ?case
    using dealloc_ok [OF assms(2)] by (metis Inr_inject)
next
  case (store s L p l k v)
  then obtain ls where ls: "heap_ok owned s L ls" "ok (fallback s, fmem s)" by blast
  obtain c where "c \<in> owned (fallback s)" "p + of_nat k \<in> block_bytes c"
    using store_ok(2) [OF ls(1) store.hyps(2,3)] by blast
  then have "ok (fallback s, (fmem s)(p + of_nat k := v))"
    by (intro contract_write [OF assms(2) ls(2)]) auto
  then show ?case
    using store_ok(1) [OF ls(1) store.hyps(2,3)] by (auto simp: fun_upd_def)
qed

lemma live_block_facts:
  assumes "heap_ok owned s L ls" "(p, l) \<in># L"
  shows "p \<noteq> 0" "unat (l_align l) dvd unat p" "unat p + unat (l_size l) \<le> 2 ^ 64"
    "(q, l') \<in># L - {#(p, l)#} \<Longrightarrow> disjoint_blocks (p, unat (l_size l)) (q, unat (l_size l'))"
proof -
  have blocks: "blocks_ok (owned (fallback s))
      (add_mset (p, block_size_of l) (free_blocks ls + live_blocks (L - {#(p, l)#})))"
    using assms(1) live_blocks_remove [OF assms(2)] by (simp add: heap_ok_def)
  then have "valid_block (p, block_size_of l)"
    by (simp add: blocks_ok_add)
  then show "p \<noteq> 0" "unat p + unat (l_size l) \<le> 2 ^ 64"
    using size_le_block [of l] by (auto simp: valid_block_def)
  have "wf_layout l \<and> block_align_of l dvd unat p"
    using assms by (auto simp: heap_ok_def live_ok_def)
  then show "unat (l_align l) dvd unat p"
    using align_dvd_block dvd_trans by blast
  assume "(q, l') \<in># L - {#(p, l)#}"
  then have "(q, block_size_of l') \<in># live_blocks (L - {#(p, l)#})"
    by (force simp: live_blocks_def)
  then have "disjoint_blocks (p, block_size_of l) (q, block_size_of l')"
    using blocks by (simp add: blocks_ok_add)
  then show "disjoint_blocks (p, unat (l_size l)) (q, unat (l_size l'))"
    by (rule disj_shrink) (rule size_le_block)+
qed

section \<open>A concrete fallback heap\<close>

text \<open>
  A fallback heap that meets the contract: it hands out the first aligned
  addresses above everything handed out so far.
\<close>

definition bump_top :: "block list \<Rightarrow> nat" where
  "bump_top f = fold max (map (\<lambda>(a, n). unat a + n) f) 8"

definition bump_fit :: "layout \<Rightarrow> block list \<times> mem \<Rightarrow> u64 option \<times> block list \<times> mem" where
  "bump_fit l fm =
     (case fm of (f, m) \<Rightarrow>
        let a = unat (l_align l); p = (bump_top f + a - 1) div a * a
        in if p + unat (l_size l) \<le> 2 ^ 64 \<and> p < 2 ^ 64
           then (Some (of_nat p), (of_nat p, unat (l_size l)) # f, m) else (None, f, m))"

definition bump_release :: "u64 \<Rightarrow> layout \<Rightarrow> block list \<times> mem \<Rightarrow> block list \<times> mem" where
  "bump_release p l fm = (case fm of (f, m) \<Rightarrow> (removeAll (p, unat (l_size l)) f, m))"

definition bump_init :: "usize \<Rightarrow> usize \<Rightarrow> block list \<times> mem \<Rightarrow> block list \<times> mem" where
  "bump_init heap_start heap_size fm = ([], snd fm)"

lemma fold_max_start: "b \<le> fold max xs (b :: nat)"
  by (induction xs arbitrary: b) (auto intro: order_trans [OF max.cobounded2])

lemma fold_max_ge: "x \<in> set xs \<Longrightarrow> x \<le> fold max xs (b :: nat)"
proof (induction xs arbitrary: b)
  case (Cons y ys)
  then show ?case using fold_max_start [of "max y b" ys] by auto
qed simp

lemma bump_top_ge: "8 \<le> bump_top f" "(a, n) \<in> set f \<Longrightarrow> unat a + n \<le> bump_top f"
  unfolding bump_top_def by (rule fold_max_start, force intro: fold_max_ge)

lemma round_up_ge:
  assumes "0 < (a :: nat)"
  shows "e \<le> (e + a - 1) div a * a"
proof -
  have "e + a - 1 < (e + a - 1) div a * a + a"
    using assms by (metis add.commute dividend_less_div_times)
  then show ?thesis using assms by linarith
qed

lemma bump_fit_Some:
  assumes "wf_layout l" "bump_fit l (f, m) = (Some p, f', m')"
  shows "p \<noteq> 0 \<and> unat (l_align l) dvd unat p \<and> unat p + unat (l_size l) \<le> 2 ^ 64 \<and>
    (\<forall>b \<in> set f. disjoint_blocks (p, unat (l_size l)) b) \<and>
    set f' = insert (p, unat (l_size l)) (set f) \<and> same_on (set f) m m'"
proof -
  let ?n = "(bump_top f + unat (l_align l) - 1) div unat (l_align l) * unat (l_align l)"
  have eqs: "p = of_nat ?n" "?n + unat (l_size l) \<le> 2 ^ 64" "?n < 2 ^ 64" "f' = (p, unat (l_size l)) # f" "m' = m"
    using assms(2) by (auto simp: bump_fit_def Let_def split: if_splits)
  have "0 < unat (l_align l)"
    using assms(1) by (auto simp: wf_layout_def is_power_of_two_def)
  then have ge: "bump_top f \<le> ?n" by (rule round_up_ge)
  have up: "unat p = ?n"
    using eqs(3) unfolding eqs(1) by (simp only: unat_of_nat) simp
  then have "p \<noteq> 0"
    using ge bump_top_ge(1) [of f] by auto
  moreover have "unat (l_align l) dvd unat p"
    unfolding up by simp
  moreover have "\<forall>b \<in> set f. disjoint_blocks (p, unat (l_size l)) b"
    using bump_top_ge(2) [of _ _ f] ge up by (fastforce simp: disjoint_blocks_def)
  ultimately show ?thesis
    using eqs up by (simp add: same_on_def)
qed

lemma bump_contract: "fallback_contract bump_init bump_fit bump_release set"
proof -
  have none: "set f' = set f \<and> same_on (set f) m m'" if "bump_fit l (f, m) = (None, f', m')" for l f m f' m'
    using that by (auto simp: bump_fit_def same_on_def Let_def split: if_splits)
  have free: "set f' = set f - {(p, unat (l_size l))} \<and> same_on (set f') m m'"
    if "bump_release p l (f, m) = (f', m')" for p l f m f' m'
    using that by (auto simp: bump_release_def same_on_def)
  have "fallback_laws (\<lambda>_. True) bump_init bump_fit bump_release set"
    unfolding fallback_laws_def using bump_fit_Some none free by (intro conjI allI impI) fast+
  then show ?thesis
    by (auto simp: fallback_contract_def)
qed

section \<open>Properties\<close>

text \<open>
  C7: in every state a program can reach, the blocks it holds are not null, have
  the alignment it asked for, do not wrap and do not overlap each other; every
  further allocation request and the release of any block it holds return
  without a panic.
\<close>

theorem block_heap_safe:
  assumes "fallback_contract hi fa fr owned" "heap_run hi fa fr owned s L"
  shows "(\<forall>(p, l) \<in># L. p \<noteq> 0 \<and> unat (l_align l) dvd unat p \<and> unat p + unat (l_size l) \<le> 2 ^ 64) \<and>
    (\<forall>(p, l) \<in># L. \<forall>(q, l') \<in># L - {#(p, l)#}. disjoint_blocks (p, unat (l_size l)) (q, unat (l_size l'))) \<and>
    (\<forall>l. wf_layout l \<longrightarrow> (\<exists>p s'. alloc fa l s = Inr (p, s'))) \<and>
    (\<forall>(p, l) \<in># L. \<exists>s'. dealloc fr p l s = Inr s')"
proof -
  obtain inv where laws: "fallback_laws inv hi fa fr owned"
    using assms(1) unfolding fallback_contract_def ..
  then obtain ls where ok: "inv (fallback s, fmem s)" "heap_ok owned s L ls"
    using heap_run_ok [OF assms(2)] by blast
  have "\<exists>p s'. alloc fa l s = Inr (p, s')" if "wf_layout l" for l
    using alloc_ok [OF laws ok that] by metis
  moreover have "\<exists>s'. dealloc fr p l s = Inr s'" if "(p, l) \<in># L" for p l
    using dealloc_ok [OF laws ok that] by metis
  ultimately show ?thesis
    using live_block_facts [OF ok(2)] by (intro conjI) (fast+)
qed

definition l24 :: layout where "l24 = \<lparr>l_size = 24, l_align = 8\<rparr>"

definition example_heap :: "block list fsb" where
  "example_heap = \<lparr>list_heads = replicate 10 None, fallback = [(64, 32), (32, 32)], fmem = (\<lambda>_. 0)\<rparr>"

lemma wf_l24: "wf_layout l24"
  by (auto simp: wf_layout_def l24_def is_power_of_two_def intro!: exI [of _ 3])

lemma index_l24: "list_index l24 = Some 2"
  by (simp add: list_index_def l24_def BLOCK_SIZES_def)

lemma example_run:
  "heap_run bump_init bump_fit bump_release set example_heap {#(64, l24), (32, l24)#}"
proof -
  let ?s = "\<lambda>f. \<lparr>list_heads = replicate 10 None, fallback = f, fmem = (\<lambda>_. 0 :: u8)\<rparr>"
  have nth: "replicate 10 None ! 2 = (None :: u64 option)" by simp
  have size: "from_size_align (BLOCK_SIZES ! 2) (BLOCK_SIZES ! 2) = Some \<lparr>l_size = 32, l_align = 32\<rparr>"
    using from_block_size [of 2] by (simp add: BLOCK_SIZES_def)
  have "heap_run bump_init bump_fit bump_release set (?s []) {#}"
    using heap_run.start [of set bump_init 0 0 "[]" "\<lambda>_. 0"]
    by (simp add: fsb_init_def fsb_new_def bump_init_def)
  moreover have "alloc bump_fit l24 (?s []) = Inr (32, ?s [(32, 32)])"
    using size nth
    by (simp add: alloc_def index_l24 fallback_alloc_def bump_fit_def bump_top_def Let_def)
  ultimately have "heap_run bump_init bump_fit bump_release set (?s [(32, 32)]) {#(32, l24)#}"
    using heap_run.alloc [OF _ wf_l24] by (fastforce simp: add_live_def)
  moreover have "alloc bump_fit l24 (?s [(32, 32)]) = Inr (64, ?s [(64, 32), (32, 32)])"
    using size nth
    by (simp add: alloc_def index_l24 fallback_alloc_def bump_fit_def bump_top_def Let_def)
  ultimately show ?thesis
    using heap_run.alloc [OF _ wf_l24] by (fastforce simp: add_live_def example_heap_def)
qed

theorem block_heap_safe_witness:
  "fallback_contract bump_init bump_fit bump_release set \<and>
   heap_run bump_init bump_fit bump_release set example_heap {#(64, l24), (32, l24)#} \<and>
   disjoint_blocks (64, 24) (32, 24) \<and> (\<exists>s'. dealloc bump_release 64 l24 example_heap = Inr s')"
  using block_heap_safe [OF bump_contract example_run] bump_contract example_run
  by (simp add: l24_def)

text \<open>
  C21: allocating and freeing leave the bytes of all other blocks a program holds
  as they were.
\<close>

theorem block_heap_keeps_contents:
  assumes "fallback_contract hi fa fr owned" "heap_run hi fa fr owned s L" "(p, l) \<in># L" "k < unat (l_size l)"
    "(\<exists>l' q. wf_layout l' \<and> alloc fa l' s = Inr (q, s')) \<or>
     (\<exists>q l'. (q, l') \<in># L \<and> (p, l) \<in># L - {#(q, l')#} \<and> dealloc fr q l' s = Inr s')"
  shows "fmem s' (p + of_nat k) = fmem s (p + of_nat k)"
proof -
  obtain inv where laws: "fallback_laws inv hi fa fr owned"
    using assms(1) unfolding fallback_contract_def ..
  then obtain ls where ok: "inv (fallback s, fmem s)" "heap_ok owned s L ls"
    using heap_run_ok [OF assms(2)] by blast
  have "valid_block (p, block_size_of l)"
    using ok(2) live_blocks_remove [OF assms(3)] by (auto simp: heap_ok_def blocks_ok_def)
  then have cell: "p + of_nat k \<in> block_bytes (p, block_size_of l)"
    using size_le_block [of l] assms(4) by (intro offset_in_cells) (auto simp: valid_block_def)
  from assms(5) obtain M where "(p, l) \<in># M" "same_on (set_mset (live_blocks M)) (fmem s) (fmem s')"
  proof (elim disjE exE conjE)
    fix l' q
    assume "wf_layout l'" "alloc fa l' s = Inr (q, s')"
    then show ?thesis
      using alloc_ok [OF laws ok, of l'] that [of L] assms(3) by (metis Inr_inject prod.inject)
  next
    fix q l'
    assume "(q, l') \<in># L" "(p, l) \<in># L - {#(q, l')#}" "dealloc fr q l' s = Inr s'"
    then show ?thesis
      using dealloc_ok [OF laws ok, of q l'] that [of "L - {#(q, l')#}"] by (metis Inr_inject)
  qed
  then show ?thesis
    using cell live_blocks_remove [of p l M] by (auto simp: same_on_def)
qed

theorem block_heap_keeps_contents_witness:
  "\<exists>s'. dealloc bump_release 64 l24 example_heap = Inr s' \<and> fmem s' (32 + of_nat 5) = fmem example_heap (32 + of_nat 5)"
proof -
  have d: "dealloc bump_release 64 l24 example_heap = Inr (example_heap\<lparr>
      fmem := write64 64 0 (\<lambda>_. 0), list_heads := (replicate 10 None)[2 := Some 64]\<rparr>)"
    using asserts_hold [of 2] by (simp add: dealloc_def index_l24 example_heap_def ptr_of_def)
  moreover have "(32, l24) \<in># {#(64, l24), (32, l24)#} - {#(64, l24)#}" "5 < unat (l_size l24)"
    by (simp_all add: l24_def)
  ultimately show ?thesis
    using block_heap_keeps_contents [OF bump_contract example_run, of 32 l24 5]
    by (metis insertI1 insertI2 set_mset_add_mset_insert)
qed

text \<open>
  a block given back is the one the next allocation of its size class gets,
  and the two operations together restore every free list and do not involve the
  fallback heap.
\<close>

lemma freed_block_reused:
  assumes "fallback_contract hi fa fr owned" "heap_run hi fa fr owned s L" "(p, l) \<in># L"
    "list_index l = Some i" "list_index l' = Some i" "dealloc fr p l s = Inr s'"
  shows "\<exists>s''. alloc fa l' s' = Inr (p, s'') \<and> list_heads s'' = list_heads s \<and> fallback s'' = fallback s"
proof -
  obtain inv where laws: "fallback_laws inv hi fa fr owned"
    using assms(1) unfolding fallback_contract_def ..
  then obtain ls where ok: "inv (fallback s, fmem s)" "heap_ok owned s L ls"
    using heap_run_ok [OF assms(2)] by blast
  have i: "i < 10" "i < length (list_heads s)"
    using list_index_less [OF assms(4)] ok(2) by (auto simp: heap_ok_def lists_ok_def)
  then have "opt_ptr (ptr_of (list_heads s ! i)) = list_heads s ! i"
    using ok(2) chain_head unfolding heap_ok_def lists_ok_def by blast
  then show ?thesis
    using assms(4,5,6) i asserts_hold [OF i(1)] by (auto simp: dealloc_def alloc_def Let_def)
qed

end
