(* ===== verification/Frames.thy ===== *)
theory Frames
  imports Leaf_Prelude "HOL-Library.Sublist"
begin

text \<open>
  Physical frames and the kernel heap's pages: src/src/memory.rs and
  src/src/allocators/mod.rs. The address types and the page table mapper are the
  x86_64 crate's; what the code uses of them is the record \<^verbatim>\<open>paging\<close> and the
  parameter \<^verbatim>\<open>map_to\<close>.
\<close>

section \<open>The address types of the x86_64 crate\<close>

record paging =
  phys_new :: "u64 \<Rightarrow> u64 res"
  frame_containing :: "u64 \<Rightarrow> u64"
  virt_new :: "u64 \<Rightarrow> u64 res"
  virt_add :: "u64 \<Rightarrow> u64 \<Rightarrow> u64 res"
  virt_sub :: "u64 \<Rightarrow> u64 \<Rightarrow> u64 res"
  page_containing :: "u64 \<Rightarrow> u64"
  range_inclusive :: "u64 \<Rightarrow> u64 \<Rightarrow> u64 list"

text \<open>
  Documented behaviour: physical addresses have 52 bits, the lower half of the
  virtual addresses is canonical, pages and frames have 4096 bytes and are named by
  their first address, and an inclusive range has the pages from its first to its last.
\<close>

definition paging_ok :: "paging \<Rightarrow> bool" where
  "paging_ok c \<longleftrightarrow>
     (\<forall>a. unat a < 2 ^ 52 \<longrightarrow> phys_new c a = Inr a) \<and>
     (\<forall>a. unat (frame_containing c a) = unat a div 4096 * 4096) \<and>
     (\<forall>a. unat a < 2 ^ 47 \<longrightarrow> virt_new c a = Inr a) \<and>
     (\<forall>a b. unat a + unat b < 2 ^ 47 \<longrightarrow> virt_add c a b = Inr (a + b)) \<and>
     (\<forall>a b. unat b \<le> unat a \<and> unat a < 2 ^ 47 \<longrightarrow> virt_sub c a b = Inr (a - b)) \<and>
     (\<forall>a. unat (page_containing c a) = unat a div 4096 * 4096) \<and>
     (\<forall>p n. 4096 dvd unat p \<and> unat p + 4096 * n < 2 ^ 64 \<longrightarrow>
        range_inclusive c p (p + 4096 * of_nat n) = map (\<lambda>k. p + 4096 * of_nat k) [0..<Suc n])"

section \<open>Frame allocators\<close>

text \<open>The map of the bootloader crate; only the kind \<^verbatim>\<open>Usable\<close> is told apart from the others.\<close>

datatype region_type = Usable | OtherRegion

record memory_region =
  start_addr :: u64
  end_addr :: u64
  region_type :: region_type

record boot_info_frame_allocator =
  memory_map :: "memory_region list"
  next_frame :: usize

definition boot_frames_init :: "memory_region list \<Rightarrow> boot_info_frame_allocator" where
  "boot_frames_init rs = \<lparr>memory_map = rs, next_frame = 0\<rparr>"

text \<open>\<^verbatim>\<open>(start..end).step_by(4096)\<close>: the addresses stay below the end, so they do not wrap.\<close>

function step_by :: "nat \<Rightarrow> nat \<Rightarrow> nat list" where
  "step_by a b = (if a < b then a # step_by (a + 4096) b else [])"
  by pat_completeness auto
termination by (relation "measure (\<lambda>(a, b). b - a)") auto

declare step_by.simps [simp del]

definition frame_addresses :: "boot_info_frame_allocator \<Rightarrow> u64 list" where
  "frame_addresses s =
     concat (map (\<lambda>r. map of_nat (step_by (unat (start_addr r)) (unat (end_addr r))))
       (filter (\<lambda>r. region_type r = Usable) (memory_map s)))"

text \<open>
  \<^verbatim>\<open>usable_frames().nth(n)\<close>: the iterator is lazy, so the addresses up to the
  \<open>n\<close>-th are converted, and a conversion that panics does so only when it is reached.
\<close>

fun nth_frame :: "paging \<Rightarrow> u64 list \<Rightarrow> nat \<Rightarrow> u64 option res" where
  "nth_frame c [] n = Inr None"
| "nth_frame c (a # as) n =
     bind_res (phys_new c a) (\<lambda>p.
       case n of 0 \<Rightarrow> Inr (Some (frame_containing c p)) | Suc n' \<Rightarrow> nth_frame c as n')"

definition boot_allocate_frame ::
    "paging \<Rightarrow> boot_info_frame_allocator \<Rightarrow> (u64 option \<times> boot_info_frame_allocator) res" where
  "boot_allocate_frame c s =
     bind_res (nth_frame c (frame_addresses s) (unat (next_frame s))) (\<lambda>frame.
       Inr (frame, s\<lparr>next_frame := next_frame s + 1\<rparr>))"

definition empty_allocate_frame :: "unit \<Rightarrow> (u64 option \<times> unit) res" where
  "empty_allocate_frame s = Inr (None, s)"

section \<open>Mapping the heap\<close>

datatype map_to_error = FrameAllocationFailed | ParentEntryHugePage | PageAlreadyMapped

definition HEAP_START :: usize where "HEAP_START = 0x444444440000"
definition HEAP_SIZE :: usize where "HEAP_SIZE = 1000 * 1024"

definition PRESENT :: u64 where "PRESENT = 1"
definition WRITABLE :: u64 where "WRITABLE = 2"

definition heap_pages :: "paging \<Rightarrow> u64 list res" where
  "heap_pages c =
     bind_res (virt_new c HEAP_START) (\<lambda>heap_start.
     bind_res (bind_res (virt_add c heap_start HEAP_SIZE) (\<lambda>e. virt_sub c e 1)) (\<lambda>heap_end.
       Inr (range_inclusive c (page_containing c heap_start) (page_containing c heap_end))))"

text \<open>
  The loop of \<^verbatim>\<open>init_heap\<close> over the state of the mapper and the frame allocator.
  The first component of the result is the error the function returns early with.
\<close>

type_synonym ('m, 's) map_to = "u64 \<Rightarrow> u64 \<Rightarrow> u64 \<Rightarrow> 'm \<times> 's \<Rightarrow> (map_to_error option \<times> 'm \<times> 's) res"

fun map_pages :: "('s \<Rightarrow> (u64 option \<times> 's) res) \<Rightarrow> ('m, 's) map_to \<Rightarrow> u64 list \<Rightarrow> 'm \<times> 's \<Rightarrow>
    (map_to_error option \<times> 'm \<times> 's) res" where
  "map_pages allocate map_to [] st = Inr (None, st)"
| "map_pages allocate map_to (page # pages) (m, s) =
     bind_res (allocate s) (\<lambda>(frame, s).
       case frame of
         None \<Rightarrow> Inr (Some FrameAllocationFailed, m, s)
       | Some frame \<Rightarrow>
           bind_res (map_to page frame (PRESENT OR WRITABLE) (m, s)) (\<lambda>(e, st).
             case e of Some e \<Rightarrow> Inr (Some e, st) | None \<Rightarrow> map_pages allocate map_to pages st))"

definition init_heap :: "paging \<Rightarrow> ('s \<Rightarrow> (u64 option \<times> 's) res) \<Rightarrow> ('m, 's) map_to \<Rightarrow>
    (usize \<Rightarrow> usize \<Rightarrow> 'h \<Rightarrow> 'h) \<Rightarrow> 'm \<times> 's \<times> 'h \<Rightarrow> (map_to_error option \<times> 'm \<times> 's \<times> 'h) res" where
  "init_heap c allocate map_to heap_init st =
     (case st of (m, s, h) \<Rightarrow>
        bind_res (heap_pages c) (\<lambda>page_range.
        bind_res (map_pages allocate map_to page_range (m, s)) (\<lambda>(e, m, s).
          case e of
            Some e \<Rightarrow> Inr (Some e, m, s, h)
          | None \<Rightarrow> Inr (None, m, s, heap_init HEAP_START HEAP_SIZE h))))"

text \<open>
  \<^verbatim>\<open>active_level_4_table\<close> and \<^verbatim>\<open>memory::init\<close>: the frame in CR3, seen through the
  offset at which the bootloader mapped all physical memory.
\<close>

definition active_level_4_table :: "paging \<Rightarrow> u64 \<Rightarrow> u64 \<Rightarrow> u64 res" where
  "active_level_4_table c cr3_frame physical_memory_offset = virt_add c physical_memory_offset cr3_frame"

definition memory_init :: "paging \<Rightarrow> (u64 \<Rightarrow> u64 \<Rightarrow> 'm) \<Rightarrow> u64 \<Rightarrow> u64 \<Rightarrow> 'm res" where
  "memory_init c offset_page_table cr3_frame physical_memory_offset =
     bind_res (active_level_4_table c cr3_frame physical_memory_offset) (\<lambda>level_4_table.
       Inr (offset_page_table level_4_table physical_memory_offset))"

definition memory_setup :: "paging \<Rightarrow> (u64 \<Rightarrow> u64 \<Rightarrow> 'm) \<Rightarrow> u64 \<Rightarrow> ('m, boot_info_frame_allocator) map_to \<Rightarrow>
    (usize \<Rightarrow> usize \<Rightarrow> 'h \<Rightarrow> 'h) \<Rightarrow> memory_region list \<Rightarrow> u64 \<Rightarrow> 'h \<Rightarrow>
    ('m \<times> boot_info_frame_allocator \<times> 'h) res" where
  "memory_setup c offset_page_table cr3_frame map_to heap_init rs physical_memory_offset h =
     bind_res (virt_new c physical_memory_offset) (\<lambda>phys_mem_offset.
     bind_res (memory_init c offset_page_table cr3_frame phys_mem_offset) (\<lambda>mapper.
     bind_res (init_heap c (boot_allocate_frame c) map_to heap_init (mapper, boot_frames_init rs, h))
       (\<lambda>(e, st). case e of Some _ \<Rightarrow> Inl (Panicked ''heap initialization failed'') | None \<Rightarrow> Inr st)))"


section \<open>The frame allocator interface\<close>

text \<open>
  What the clients of an allocator rely on: while calls are left in its budget it
  does not panic and hands out the frames of a list one after another, then \<^verbatim>\<open>None\<close>.
\<close>

fun allocations :: "('s \<Rightarrow> (u64 option \<times> 's) res) \<Rightarrow> nat \<Rightarrow> 's \<Rightarrow> (u64 option list \<times> 's) res" where
  "allocations allocate 0 s = Inr ([], s)"
| "allocations allocate (Suc n) s =
     bind_res (allocate s) (\<lambda>(f, s). bind_res (allocations allocate n s) (\<lambda>(fs, s). Inr (f # fs, s)))"

text \<open>
  Documented behaviour of the mapper: on a vacant page \<^verbatim>\<open>map_to\<close> takes at most three
  frames for page tables, succeeds if there are three, and then translates the
  page to the frame, and all other pages as before.
\<close>

definition map_to_ok :: "(nat \<Rightarrow> 's \<Rightarrow> bool) \<Rightarrow> ('s \<Rightarrow> u64 list) \<Rightarrow> ('m \<Rightarrow> u64 \<rightharpoonup> u64 \<times> u64) \<Rightarrow>
    ('m \<Rightarrow> u64 \<Rightarrow> bool) \<Rightarrow> ('m, 's) map_to \<Rightarrow> bool" where
  "map_to_ok budget remaining translate vacant map_to \<longleftrightarrow>
     (\<forall>page frame flags m s n. budget (n + 3) s \<and> vacant m page \<and> 3 \<le> length (remaining s) \<longrightarrow>
        (\<exists>m' s' k. map_to page frame flags (m, s) = Inr (None, m', s') \<and> k \<le> 3 \<and> budget n s' \<and>
           remaining s' = drop k (remaining s) \<and> translate m' = (translate m)(page \<mapsto> (frame, flags)) \<and>
           (\<forall>q. q \<noteq> page \<and> vacant m q \<longrightarrow> vacant m' q)))"

lemma subseq_members: "subseq xs ys \<Longrightarrow> set xs \<subseteq> set ys \<and> (distinct ys \<longrightarrow> distinct xs)"
  by (induction rule: list_emb.induct) auto

lemma map_of_zip_notin: "length xs = length ys \<Longrightarrow> x \<notin> set xs \<Longrightarrow> x \<notin> dom (map_of (zip xs ys))"
  by simp

locale frame_allocator =
  fixes allocate :: "'s \<Rightarrow> (u64 option \<times> 's) res"
    and budget :: "nat \<Rightarrow> 's \<Rightarrow> bool"
    and remaining :: "'s \<Rightarrow> u64 list"
  assumes allocate_law: "budget (Suc n) s \<Longrightarrow>
    \<exists>s'. allocate s = Inr (if remaining s = [] then None else Some (hd (remaining s)), s') \<and>
      budget n s' \<and> remaining s' = tl (remaining s)"
begin

lemma allocations_law:
  "budget n s \<Longrightarrow>
    \<exists>s'. allocations allocate n s =
      Inr (map Some (take n (remaining s)) @ replicate (n - length (remaining s)) None, s') \<and>
      remaining s' = drop n (remaining s)"
proof (induction n arbitrary: s)
  case (Suc n)
  obtain s1 where s1: "allocate s = Inr (if remaining s = [] then None else Some (hd (remaining s)), s1)"
      "budget n s1" "remaining s1 = tl (remaining s)"
    using allocate_law [OF Suc.prems] by blast
  obtain s2 where s2: "allocations allocate n s1 =
      Inr (map Some (take n (remaining s1)) @ replicate (n - length (remaining s1)) None, s2)"
      "remaining s2 = drop n (remaining s1)"
    using Suc.IH [OF s1(2)] by blast
  show ?case
    using s1 s2 by (cases "remaining s") simp_all
qed simp

lemma map_pages_law:
  "map_to_ok budget remaining translate vacant map_to \<Longrightarrow> distinct pages \<Longrightarrow>
   \<forall>p \<in> set pages. vacant m p \<Longrightarrow> budget (4 * length pages) s \<Longrightarrow>
   4 * length pages \<le> length (remaining s) \<Longrightarrow>
   \<exists>m' s' frames. map_pages allocate map_to pages (m, s) = Inr (None, m', s') \<and>
     length frames = length pages \<and> subseq frames (remaining s) \<and>
     translate m' = translate m ++ map_of (zip pages (map (\<lambda>f. (f, PRESENT OR WRITABLE)) frames))"
proof (induction pages arbitrary: m s)
  case Nil
  then show ?case by simp
next
  case (Cons p ps)
  have "budget (Suc (4 * length ps + 3)) s"
    using Cons.prems(4) by (simp add: add.commute)
  then obtain s1 where s1: "allocate s = Inr (if remaining s = [] then None else Some (hd (remaining s)), s1)"
      "budget (4 * length ps + 3) s1" "remaining s1 = tl (remaining s)"
    using allocate_law by blast
  obtain f r where r: "remaining s = f # r" "4 * length ps + 3 \<le> length r"
    using Cons.prems(5) by (cases "remaining s") auto
  obtain m2 s2 k where s2: "map_to p f (PRESENT OR WRITABLE) (m, s1) = Inr (None, m2, s2)" "k \<le> 3"
      "budget (4 * length ps) s2" "remaining s2 = drop k r"
      "translate m2 = (translate m)(p \<mapsto> (f, PRESENT OR WRITABLE))"
      "\<forall>q. q \<noteq> p \<and> vacant m q \<longrightarrow> vacant m2 q"
    using Cons.prems(1) [unfolded map_to_ok_def, rule_format, of "4 * length ps" s1 m p f "PRESENT OR WRITABLE"]
      Cons.prems(3) s1(2,3) r by auto
  have vac: "\<forall>q \<in> set ps. vacant m2 q"
    using s2(6) Cons.prems(2,3) by auto
  have len: "4 * length ps \<le> length (remaining s2)"
    using s2(2,4) r(2) by simp
  have "distinct ps" using Cons.prems(2) by simp
  then obtain m' s' frames where rest: "map_pages allocate map_to ps (m2, s2) = Inr (None, m', s')"
      "length frames = length ps" "subseq frames (remaining s2)"
      "translate m' = translate m2 ++ map_of (zip ps (map (\<lambda>f. (f, PRESENT OR WRITABLE)) frames))"
    using Cons.IH [OF Cons.prems(1) _ vac s2(3) len] by blast
  have "subseq (f # frames) (remaining s)"
    using rest(3) s2(4) r(1) subseq_order.trans [OF _ suffix_imp_subseq [OF suffix_drop]] by simp
  moreover have "translate m' = translate m ++
      map_of (zip (p # ps) (map (\<lambda>f. (f, PRESENT OR WRITABLE)) (f # frames)))"
    using rest(4) s2(5) Cons.prems(2) rest(2)
    by (simp add: map_add_upd_left map_of_zip_notin)
  moreover have "map_pages allocate map_to (p # ps) (m, s) = Inr (None, m', s')"
    using s1 s2(1) r(1) rest(1) by simp
  moreover have "length (f # frames) = length (p # ps)"
    using rest(2) by simp
  ultimately show ?case by blast
qed

lemma map_pages_exhausted:
  assumes "budget 1 s" "remaining s = []" "pages \<noteq> []"
  shows "\<exists>s'. map_pages allocate map_to pages (m, s) = Inr (Some FrameAllocationFailed, m, s')"
  using assms allocate_law [of 0 s] by (cases pages) auto

end

interpretation no_frames: frame_allocator empty_allocate_frame "\<lambda>n s. True" "\<lambda>s. []"
  by unfold_locales (simp add: empty_allocate_frame_def)

section \<open>The boot allocator\<close>

text \<open>A usable region starts on a frame boundary and ends within the 52-bit physical space.\<close>

definition regions_ok :: "memory_region list \<Rightarrow> bool" where
  "regions_ok rs \<longleftrightarrow> (\<forall>r \<in> set rs. region_type r = Usable \<longrightarrow>
     4096 dvd unat (start_addr r) \<and> unat (end_addr r) \<le> 2 ^ 52)"

definition regions_disjoint :: "memory_region list \<Rightarrow> bool" where
  "regions_disjoint rs \<longleftrightarrow> sorted_wrt (\<lambda>r q. unat (end_addr r) \<le> unat (start_addr q) \<or>
     unat (end_addr q) \<le> unat (start_addr r)) (filter (\<lambda>r. region_type r = Usable) rs)"

definition boot_budget :: "paging \<Rightarrow> nat \<Rightarrow> boot_info_frame_allocator \<Rightarrow> bool" where
  "boot_budget c n s \<longleftrightarrow> paging_ok c \<and> regions_ok (memory_map s) \<and> unat (next_frame s) + n < 2 ^ 64"

definition boot_remaining :: "boot_info_frame_allocator \<Rightarrow> u64 list" where
  "boot_remaining s = drop (unat (next_frame s)) (frame_addresses s)"

lemma step_by_members: "x \<in> set (step_by a b) \<Longrightarrow> a \<le> x \<and> x < b \<and> 4096 dvd x - a"
proof (induction a b rule: step_by.induct)
  case (1 a b)
  show ?case
  proof (cases "x = a \<or> \<not> a < b")
    case False
    then have "a + 4096 \<le> x \<and> x < b \<and> 4096 dvd x - (a + 4096)"
      using 1 by (subst (asm) (2) step_by.simps) auto
    then show ?thesis
      using dvd_add [of 4096 "x - (a + 4096)" 4096] by (auto simp: algebra_simps)
  qed (use 1(2) in \<open>auto simp: step_by.simps [of a b] split: if_splits\<close>)
qed

lemma step_by_distinct: "distinct (step_by a b)"
proof (induction a b rule: step_by.induct)
  case (1 a b)
  then show ?case
    using step_by_members [of a "a + 4096" b] by (subst step_by.simps) auto
qed

lemma frame_address_ok:
  assumes "regions_ok (memory_map s)" "a \<in> set (frame_addresses s)"
  obtains r where "r \<in> set (memory_map s)" "region_type r = Usable"
    "start_addr r \<le> a" "a < end_addr r" "unat a < 2 ^ 52" "4096 dvd unat a"
proof -
  obtain r x where r: "r \<in> set (memory_map s)" "region_type r = Usable" "a = of_nat x"
      "x \<in> set (step_by (unat (start_addr r)) (unat (end_addr r)))"
    using assms(2) by (auto simp: frame_addresses_def)
  note x = step_by_members [OF r(4)]
  have reg: "4096 dvd unat (start_addr r)" "unat (end_addr r) \<le> 2 ^ 52"
    using assms(1) r(1,2) by (auto simp: regions_ok_def)
  have "x < 2 ^ 52"
    using x reg(2) by linarith
  then have ua: "unat a = x"
    using r(3) by (simp add: unat_of_nat)
  moreover have "4096 dvd x"
    using x reg(1) by (metis dvd_add le_add_diff_inverse)
  ultimately show ?thesis
    using that [OF r(1,2)] x \<open>x < 2 ^ 52\<close> by (simp add: word_le_nat_alt word_less_nat_alt)
qed

lemma nth_frame_eq:
  assumes "paging_ok c" "\<And>a. a \<in> set as \<Longrightarrow> unat a < 2 ^ 52 \<and> 4096 dvd unat a"
  shows "nth_frame c as n = Inr (if n < length as then Some (as ! n) else None)"
  using assms(2)
proof (induction as arbitrary: n)
  case (Cons a as)
  have "phys_new c a = Inr a"
    using assms(1) Cons.prems [of a] by (simp add: paging_ok_def)
  moreover have "unat (frame_containing c a) = unat a"
    using assms(1) Cons.prems [of a] by (simp add: paging_ok_def)
  ultimately show ?case
    using Cons by (cases n) (simp_all add: word_unat_eq_iff)
qed simp

lemma boot_allocate_law:
  assumes "boot_budget c (Suc n) s"
  shows "\<exists>s'. boot_allocate_frame c s =
      Inr (if boot_remaining s = [] then None else Some (hd (boot_remaining s)), s') \<and>
    boot_budget c n s' \<and> boot_remaining s' = tl (boot_remaining s)"
proof -
  let ?s = "s\<lparr>next_frame := next_frame s + 1\<rparr>"
  have ok: "paging_ok c" "regions_ok (memory_map s)" "unat (next_frame s) + Suc n < 2 ^ 64"
    using assms by (simp_all add: boot_budget_def)
  have "nth_frame c (frame_addresses s) (unat (next_frame s)) =
      Inr (if unat (next_frame s) < length (frame_addresses s)
        then Some (frame_addresses s ! unat (next_frame s)) else None)"
    by (rule nth_frame_eq [OF ok(1)]) (erule frame_address_ok [OF ok(2)], simp)
  moreover have up: "unat (next_frame s + 1) = Suc (unat (next_frame s))"
    using ok(3) by (simp add: unat_word_ariths)
  moreover have "frame_addresses ?s = frame_addresses s"
    by (simp add: frame_addresses_def)
  ultimately show ?thesis
    using ok
    by (auto simp: boot_allocate_frame_def boot_remaining_def boot_budget_def hd_drop_conv_nth drop_Suc
        tl_drop intro!: exI [of _ ?s])
qed

interpretation boot_frames: frame_allocator "boot_allocate_frame c" "boot_budget c" boot_remaining for c
  by unfold_locales (rule boot_allocate_law)

lemma region_frames_distinct:
  fixes a b :: u64
  shows "distinct (map of_nat (step_by (unat a) (unat b)) :: u64 list)"
  "x \<in> set (map of_nat (step_by (unat a) (unat b)) :: u64 list) \<Longrightarrow> unat a \<le> unat x \<and> unat x < unat b"
proof -
  have "unat b < 2 ^ 64"
    by (rule order.strict_trans2 [OF unsigned_less]) simp
  then have small: "unat (of_nat x :: u64) = x" if "x \<in> set (step_by (unat a) (unat b))" for x
    using step_by_members [OF that] by (simp add: unat_of_nat)
  then show "distinct (map of_nat (step_by (unat a) (unat b)) :: u64 list)"
    by (auto simp: distinct_map step_by_distinct intro!: inj_onI) (metis small)
  show "unat a \<le> unat x \<and> unat x < unat b" if "x \<in> set (map of_nat (step_by (unat a) (unat b)))"
    using that small step_by_members by fastforce
qed

lemma frame_addresses_distinct:
  assumes "regions_disjoint (memory_map s)"
  shows "distinct (frame_addresses s)"
proof -
  have "distinct (concat (map (\<lambda>r. map of_nat (step_by (unat (start_addr r)) (unat (end_addr r))) :: u64 list) rs))"
    if "sorted_wrt (\<lambda>r q. unat (end_addr r) \<le> unat (start_addr q) \<or>
      unat (end_addr q) \<le> unat (start_addr r)) rs" for rs :: "memory_region list"
    using that
  proof (induction rs)
    case (Cons r rs)
    let ?f = "\<lambda>r. set (map of_nat (step_by (unat (start_addr r)) (unat (end_addr r))) :: u64 list)"
    have "?f r \<inter> ?f q = {}" if "q \<in> set rs" for q
    proof -
      have "unat (end_addr r) \<le> unat (start_addr q) \<or> unat (end_addr q) \<le> unat (start_addr r)"
        using Cons.prems that by auto
      then show ?thesis
        using region_frames_distinct(2) [of _ "start_addr r" "end_addr r"]
          region_frames_distinct(2) [of _ "start_addr q" "end_addr q"] by fastforce
    qed
    then show ?case
      using region_frames_distinct(1) [of "start_addr r" "end_addr r"] Cons by fastforce
  qed simp
  then show ?thesis
    using assms by (simp add: frame_addresses_def regions_disjoint_def)
qed

text \<open>The pages of the range are exactly those with a byte of the heap.\<close>

definition heap_page :: "nat \<Rightarrow> u64" where
  "heap_page k = HEAP_START + 4096 * of_nat k"

lemma unat_heap_page: "k < 250 \<Longrightarrow> unat (heap_page k) = unat HEAP_START + 4096 * k"
  by (simp add: heap_page_def HEAP_START_def unat_word_ariths unat_of_nat)

lemma heap_page_inj: "j < 250 \<Longrightarrow> k < 250 \<Longrightarrow> heap_page j = heap_page k \<longleftrightarrow> j = k"
  by (auto dest: arg_cong [where f = unat] simp: unat_heap_page)

definition heap_page_list :: "u64 list" where
  "heap_page_list = map heap_page [0..<250]"

lemma heap_page_list [simp]:
  "distinct heap_page_list" "length heap_page_list = 250" "set heap_page_list = heap_page ` {..<250}"
  "k < 250 \<Longrightarrow> heap_page_list ! k = heap_page k"
  unfolding heap_page_list_def
  by (simp_all add: distinct_map heap_page_inj inj_on_def atLeast0LessThan del: upt_rec_numeral)

lemma heap_pages_eq:
  assumes "paging_ok c"
  shows "heap_pages c = Inr heap_page_list"
proof -
  let ?e = "HEAP_START + HEAP_SIZE - 1"
  have "virt_new c HEAP_START = Inr HEAP_START"
    using assms by (simp add: paging_ok_def HEAP_START_def)
  moreover have "virt_add c HEAP_START HEAP_SIZE = Inr (HEAP_START + HEAP_SIZE)"
    using assms by (simp add: paging_ok_def HEAP_START_def HEAP_SIZE_def)
  moreover have "virt_sub c (HEAP_START + HEAP_SIZE) 1 = Inr ?e"
    using assms by (simp add: paging_ok_def HEAP_START_def HEAP_SIZE_def)
  moreover have "unat (page_containing c HEAP_START) = unat HEAP_START div 4096 * 4096"
    using assms by (simp add: paging_ok_def)
  then have "page_containing c HEAP_START = HEAP_START"
    by (simp add: word_unat_eq_iff HEAP_START_def)
  moreover have "unat (page_containing c ?e) = unat ?e div 4096 * 4096"
    using assms by (simp only: paging_ok_def)
  then have "page_containing c ?e = HEAP_START + 4096 * of_nat 249"
    by (simp add: word_unat_eq_iff HEAP_START_def HEAP_SIZE_def)
  moreover have "range_inclusive c HEAP_START (HEAP_START + 4096 * of_nat 249) =
      heap_page_list"
  proof -
    have "4096 dvd unat HEAP_START" "unat HEAP_START + 4096 * 249 < 2 ^ 64"
      by (simp_all add: HEAP_START_def)
    then have "range_inclusive c HEAP_START (HEAP_START + 4096 * of_nat 249) =
        map (\<lambda>k. HEAP_START + 4096 * of_nat k) [0..<Suc 249]"
      using assms unfolding paging_ok_def by blast
    moreover have "Suc 249 = 250" by simp
    ultimately show ?thesis
      unfolding heap_page_list_def heap_page_def by metis
  qed
  ultimately show ?thesis
    by (simp add: heap_pages_def)
qed

lemma heap_byte_page:
  assumes "paging_ok c" "HEAP_START \<le> a" "a < HEAP_START + HEAP_SIZE"
  shows "\<exists>k<250. page_containing c a = heap_page k"
proof -
  define d where "d = unat a - unat HEAP_START"
  let ?k = "d div 4096" and ?q = "unat HEAP_START div 4096"
  have "unat HEAP_START \<le> unat a" and less: "unat a < unat HEAP_START + 1024000"
    using assms(2,3) by (simp_all add: word_le_nat_alt word_less_nat_alt HEAP_START_def HEAP_SIZE_def)
  then have a: "unat a = unat HEAP_START + d" and "d < 1024000"
    by (simp_all add: d_def)
  then have k: "?k < 250" by simp
  have q: "unat HEAP_START = ?q * 4096"
    by (simp add: HEAP_START_def)
  have "unat a div 4096 = ?q + ?k"
    unfolding a by (subst q) (simp only: div_mult_self3 rel_simps simp_thms add.commute)
  then have "unat a div 4096 * 4096 = unat HEAP_START + 4096 * ?k"
    using q by simp
  moreover have "unat (page_containing c a) = unat a div 4096 * 4096"
    using assms(1) by (simp only: paging_ok_def)
  ultimately have "page_containing c a = heap_page ?k"
    using unat_heap_page [OF k] by (simp add: word_unat_eq_iff)
  then show ?thesis using k by blast
qed



section \<open>A concrete instance\<close>

text \<open>An address arithmetic and a mapper with the documented behaviour, and a memory map of one region of 1000 frames.\<close>

definition example_paging :: paging where
  "example_paging =
     \<lparr>phys_new = \<lambda>a. if unat a < 2 ^ 52 then Inr a else Inl (Panicked ''physical address''),
      frame_containing = \<lambda>a. of_nat (unat a div 4096 * 4096),
      virt_new = \<lambda>a. if unat a < 2 ^ 47 then Inr a else Inl (Panicked ''virtual address''),
      virt_add = \<lambda>a b. if unat a + unat b < 2 ^ 47 then Inr (a + b) else Inl (Panicked ''virtual address''),
      virt_sub = \<lambda>a b. if unat b \<le> unat a then Inr (a - b) else Inl (Panicked ''virtual address''),
      page_containing = \<lambda>a. of_nat (unat a div 4096 * 4096),
      range_inclusive = \<lambda>p q. map (\<lambda>k. p + 4096 * of_nat k) [0..<Suc (unat (q - p) div 4096)]\<rparr>"

definition example_map_to :: "(u64 \<rightharpoonup> u64 \<times> u64, boot_info_frame_allocator) map_to" where
  "example_map_to page frame flags = (\<lambda>(m, s). Inr (None, m(page \<mapsto> (frame, flags)), s))"

definition example_regions :: "memory_region list" where
  "example_regions = [\<lparr>start_addr = 0x100000, end_addr = 0x4E8000, region_type = Usable\<rparr>]"

lemma example_paging_ok: "paging_ok example_paging"
proof -
  have down: "unat (of_nat (unat a div 4096 * 4096) :: u64) = unat a div 4096 * 4096" for a :: u64
  proof -
    have "unat a div 4096 * 4096 \<le> unat a" by simp
    moreover have "unat a < 2 ^ 64"
      by (rule order.strict_trans2 [OF unsigned_less]) simp
    ultimately show ?thesis
      by (simp only: unat_of_nat) simp
  qed
  have "unat (4096 * of_nat n :: u64) div 4096 = n" if "unat p + 4096 * n < 2 ^ 64" for p :: u64 and n
    using that by (simp add: unat_word_ariths unat_of_nat)
  then show ?thesis
    by (auto simp: paging_ok_def example_paging_def down simp del: of_nat_mult upt_Suc)
qed

lemma example_map_to_ok:
  "map_to_ok (boot_budget c) boot_remaining (\<lambda>m. m) (\<lambda>m p. m p = None) example_map_to"
  by (auto simp: map_to_ok_def example_map_to_def boot_budget_def intro!: exI [of _ "0 :: nat"])

lemma step_by_length: "length (step_by a b) = (b - a + 4095) div 4096"
proof (induction a b rule: step_by.induct)
  case (1 a b)
  show ?case
  proof (cases "a < b")
    case True
    then have "Suc ((b - (a + 4096) + 4095) div 4096) = (b - a + 4095) div 4096"
      by (cases "a + 4096 \<le> b") (auto simp: div_add_self2 [symmetric] le_div_geq)
    then show ?thesis
      using 1 True by (subst step_by.simps) simp
  qed (simp add: step_by.simps [of a b])
qed

lemma example_regions_ok:
  "regions_ok example_regions" "regions_disjoint example_regions"
  "length (frame_addresses (boot_frames_init example_regions)) = 1000"
  by (simp_all add: regions_ok_def regions_disjoint_def example_regions_def frame_addresses_def
      boot_frames_init_def step_by_length)

section \<open>Setting up the heap\<close>

lemma memory_setup_ok:
  assumes "paging_ok c" "regions_ok rs" "regions_disjoint rs"
    "1000 \<le> length (frame_addresses (boot_frames_init rs))"
    "map_to_ok (boot_budget c) boot_remaining translate vacant map_to"
    "\<forall>k<250. vacant (new_table (off + cr3) off) (heap_page k)" "unat off + unat cr3 < 2 ^ 47"
  shows "\<exists>m s' frames. memory_setup c new_table cr3 map_to heap_init rs off h =
      Inr (m, s', heap_init HEAP_START HEAP_SIZE h) \<and>
    length frames = 250 \<and> distinct frames \<and> set frames \<subseteq> set (frame_addresses (boot_frames_init rs)) \<and>
    (\<forall>k<250. translate m (heap_page k) = Some (frames ! k, PRESENT OR WRITABLE)) \<and>
    (\<forall>a. HEAP_START \<le> a \<and> a < HEAP_START + HEAP_SIZE \<longrightarrow> (\<exists>k<250. page_containing c a = heap_page k)) \<and>
    (\<forall>p. (\<forall>k<250. p \<noteq> heap_page k) \<longrightarrow> translate m p = translate (new_table (off + cr3) off) p)"
proof -
  let ?m = "new_table (off + cr3) off" and ?s = "boot_frames_init rs" and ?ps = heap_page_list
  have "boot_budget c (4 * length ?ps) ?s" "4 * length ?ps \<le> length (boot_remaining ?s)"
    using assms(1,2,4) by (simp_all add: boot_budget_def boot_frames_init_def boot_remaining_def)
  moreover have "\<forall>p \<in> set ?ps. vacant ?m p"
    using assms(6) by auto
  ultimately obtain m s' frames where run: "map_pages (boot_allocate_frame c) map_to ?ps (?m, ?s) = Inr (None, m, s')"
      "length frames = length ?ps" "subseq frames (boot_remaining ?s)"
      "translate m = translate ?m ++ map_of (zip ?ps (map (\<lambda>f. (f, PRESENT OR WRITABLE)) frames))"
    using boot_frames.map_pages_law [OF assms(5) heap_page_list(1)] by blast
  have "virt_new c off = Inr off" "virt_add c off cr3 = Inr (off + cr3)"
    using assms(1,7) by (auto simp: paging_ok_def)
  then have "memory_setup c new_table cr3 map_to heap_init rs off h = Inr (m, s', heap_init HEAP_START HEAP_SIZE h)"
    using run(1) heap_pages_eq [OF assms(1)]
    by (simp add: memory_setup_def memory_init_def active_level_4_table_def init_heap_def)
  moreover have "distinct frames \<and> set frames \<subseteq> set (frame_addresses ?s)"
    using subseq_members [OF run(3)] frame_addresses_distinct [of ?s] assms(3)
    by (auto simp: boot_remaining_def boot_frames_init_def)
  moreover have "translate m (heap_page k) = Some (frames ! k, PRESENT OR WRITABLE)" if "k < 250" for k
    using map_of_zip_nth [of ?ps "map (\<lambda>f. (f, PRESENT OR WRITABLE)) frames" k] run(2,4) that by simp
  moreover have "translate m p = translate ?m p" if "\<forall>k<250. p \<noteq> heap_page k" for p
  proof -
    have "p \<notin> dom (map_of (zip ?ps (map (\<lambda>f. (f, PRESENT OR WRITABLE)) frames)))"
      using that run(2) by (intro map_of_zip_notin) auto
    then show ?thesis
      using run(4) by (simp add: map_add_dom_app_simps)
  qed
  ultimately show ?thesis
    using run(2) heap_byte_page [OF assms(1)] by (intro exI [of _ m] exI [of _ s'] exI [of _ frames]) simp
qed

section \<open>Properties\<close>



text \<open>
  C19: with 1000 usable frames and a vacant heap range, \<^verbatim>\<open>memory::setup\<close> succeeds: every
  byte of the heap lies in one of 250 pages, each translated to its own usable
  frame as present and writable, no other page's translation changes, and the
  heap is initialized with the mapped range.
\<close>

theorem setup_maps_heap:
  assumes "paging_ok c" "regions_ok rs" "regions_disjoint rs"
    "1000 \<le> length (frame_addresses (boot_frames_init rs))"
    "map_to_ok (boot_budget c) boot_remaining translate vacant map_to"
    "\<forall>k<250. vacant (new_table (off + cr3) off) (heap_page k)" "unat off + unat cr3 < 2 ^ 47"
  shows "\<exists>m s' frames. memory_setup c new_table cr3 map_to heap_init rs off h =
      Inr (m, s', heap_init HEAP_START HEAP_SIZE h) \<and>
    length frames = 250 \<and> distinct frames \<and> set frames \<subseteq> set (frame_addresses (boot_frames_init rs)) \<and>
    (\<forall>k<250. translate m (heap_page k) = Some (frames ! k, PRESENT OR WRITABLE)) \<and>
    (\<forall>a. HEAP_START \<le> a \<and> a < HEAP_START + HEAP_SIZE \<longrightarrow> (\<exists>k<250. page_containing c a = heap_page k)) \<and>
    (\<forall>p. (\<forall>k<250. p \<noteq> heap_page k) \<longrightarrow> translate m p = translate (new_table (off + cr3) off) p)"
  using memory_setup_ok [where new_table = new_table and off = off and vacant = vacant, OF assms] .

theorem setup_maps_heap_witness:
  "\<exists>m s'. memory_setup example_paging (\<lambda>_ _. Map.empty) 0x1000 example_map_to (\<lambda>a n h. Some (a, n))
      example_regions 0x18000000000 None = Inr (m, s', Some (HEAP_START, HEAP_SIZE)) \<and>
    (\<exists>f. m (heap_page 249) = Some (f, PRESENT OR WRITABLE)) \<and> m 0 = None"
proof -
  have "0 \<noteq> heap_page k" if "k < 250" for k
    using unat_heap_page [OF that] by (auto simp: HEAP_START_def)
  then show ?thesis
    using setup_maps_heap [OF example_paging_ok example_regions_ok(1,2) _ example_map_to_ok,
        of "\<lambda>_ _. Map.empty" "0x18000000000" "0x1000" "\<lambda>a n h. Some (a, n)" None]
    by (fastforce simp: example_regions_ok(3))
qed

text \<open>
  C38: with no usable frame, \<^verbatim>\<open>init_heap\<close> returns the allocation error with the page
  table and the heap as they were, for the boot allocator as for the one that is always
  empty, and \<^verbatim>\<open>memory::setup\<close> turns it into a panic.
\<close>

theorem heap_init_out_of_frames:
  assumes "paging_ok c" "\<forall>r \<in> set rs. region_type r \<noteq> Usable" "unat off + unat cr3 < 2 ^ 47"
  shows "(\<exists>s'. init_heap c (boot_allocate_frame c) map_to heap_init (m, boot_frames_init rs, h) =
      Inr (Some FrameAllocationFailed, m, s', h)) \<and>
    init_heap c empty_allocate_frame map_to' heap_init (m, (), h) = Inr (Some FrameAllocationFailed, m, (), h) \<and>
    memory_setup c new_table cr3 map_to heap_init rs off h = Inl (Panicked ''heap initialization failed'')"
proof -
  let ?s = "boot_frames_init rs"
  have none: "boot_budget c 1 ?s" "boot_remaining ?s = []"
    using assms(1,2) by (auto simp: boot_budget_def boot_remaining_def regions_ok_def frame_addresses_def
        boot_frames_init_def filter_empty_conv)
  have ne: "heap_page_list \<noteq> []"
    by (simp flip: length_0_conv)
  have boot: "\<exists>s'. init_heap c (boot_allocate_frame c) map_to heap_init (m, ?s, h) =
      Inr (Some FrameAllocationFailed, m, s', h)" for m
    using boot_frames.map_pages_exhausted [OF none ne, of map_to m] heap_pages_eq [OF assms(1)]
    by (auto simp: init_heap_def)
  moreover have "init_heap c empty_allocate_frame map_to' heap_init (m, (), h) =
      Inr (Some FrameAllocationFailed, m, (), h)"
    using no_frames.map_pages_exhausted [OF _ _ ne, where map_to = map_to' and m = m and s = "()"] heap_pages_eq [OF assms(1)]
    by (auto simp: init_heap_def)
  moreover have "virt_new c off = Inr off" "virt_add c off cr3 = Inr (off + cr3)"
    using assms(1,3) by (auto simp: paging_ok_def)
  moreover obtain s' where "init_heap c (boot_allocate_frame c) map_to heap_init (new_table (off + cr3) off, ?s, h) =
      Inr (Some FrameAllocationFailed, new_table (off + cr3) off, s', h)"
    using boot by blast
  ultimately show ?thesis
    by (simp add: memory_setup_def memory_init_def active_level_4_table_def)
qed

theorem heap_init_out_of_frames_witness:
  "memory_setup example_paging (\<lambda>_ _. Map.empty) 0x1000 example_map_to (\<lambda>a n h. Some (a, n))
     [\<lparr>start_addr = 0, end_addr = 0x4E8000, region_type = OtherRegion\<rparr>] 0x18000000000 None =
   Inl (Panicked ''heap initialization failed'')"
  using heap_init_out_of_frames [OF example_paging_ok,
      of "[\<lparr>start_addr = 0, end_addr = 0x4E8000, region_type = OtherRegion\<rparr>]" "0x18000000000" "0x1000"
        example_map_to "\<lambda>a n h. Some (a, n)" Map.empty None]
  by simp

end
