(* ===== verification/Boot.thy ===== *)
theory Boot
  imports Context_Props Frames
begin

text \<open>
  The boot sequence: \<^verbatim>\<open>init\<close> of src/src/lib.rs and \<^verbatim>\<open>kernel_main\<close> of src/src/main.rs,
  composed of the components' operations up to the final \<^verbatim>\<open>hlt_loop\<close>. The sequence is
  that of the code itself: of the interrupts that may arrive in between, only those
  of the local APIC during the calibration loop are part of it. A step whose allocation
  the heap refuses panics.
\<close>

section \<open>The sequence\<close>

text \<open>
  What the sequence takes from outside the repository: the crates' functions, the
  addresses of the two stacks in gdt.rs and of the functions it starts, the value
  of CR3, the allocations the heap returns or refuses (then with size and alignment) in the
  steps that allocate, and what the bootloader passes on.
\<close>

datatype boot_step = SchedulerInit | StartFirst | StartSecond | ShellInit | RegisterHandler

record ('g, 'm, 'h) boot_env =
  env_add_entry :: "descriptor \<Rightarrow> 'g \<Rightarrow> u16 \<times> 'g"
  env_gdt :: 'g
  env_ist_stack :: u64
  env_priv_stack :: u64
  env_paging :: paging
  env_page_table :: "u64 \<Rightarrow> u64 \<Rightarrow> 'm"
  env_cr3 :: u64
  env_map_to :: "('m, boot_info_frame_allocator) map_to"
  env_heap_init :: "usize \<Rightarrow> usize \<Rightarrow> 'h \<Rightarrow> 'h"
  env_build_apic :: "lapic \<Rightarrow> string + lapic"
  env_xapic_base :: u64
  env_void :: allocation
  env_first :: allocation
  env_second :: allocation
  env_refused :: "boot_step \<Rightarrow> (usize \<times> usize) option"
  env_idle_fn :: u64
  env_test_fn :: u64
  env_test_fn_hello :: u64

record boot_info =
  boot_memory_map :: "memory_region list"
  physical_memory_offset :: u64

definition leaf_init :: "('g, 'm, 'h) boot_env \<Rightarrow> ('kb, 'a) kernel_scheme \<Rightarrow> ('kb, 'a) kernel_scheme" where
  "leaf_init env s =
     (let s = s\<lparr>SEGMENTS := gdt_init (env_ist_stack env) (env_priv_stack env)
            (snd (gdt_build (env_add_entry env) (env_gdt env))) (SEGMENTS s)\<rparr>;
          s = interrupts_init s;
          s = s\<lparr>pic_log := pic_log s @ [PicInitialize]\<rparr>
      in enable_interrupts s)"

definition sched_step :: "(sched \<Rightarrow> sched) \<Rightarrow> ('kb, 'a) kernel_scheme \<Rightarrow> ('kb, 'a) kernel_scheme" where
  "sched_step f s = s\<lparr>SCHED := f (SCHED s)\<rparr>"

definition heap_allocates :: "('g, 'm, 'h) boot_env \<Rightarrow> boot_step \<Rightarrow> 's \<Rightarrow> 's res" where
  "heap_allocates env i s =
     (case env_refused env i of
        None \<Rightarrow> Inr s
      | Some (layout_size, layout_align) \<Rightarrow> alloc_error_handler layout_size layout_align)"

text \<open>The sequence before \<^verbatim>\<open>init_apic\<close>, and the one behind it.\<close>

definition boot_before_apic ::
    "('g, 'm, 'h) boot_env \<Rightarrow> boot_info \<Rightarrow> 'h \<Rightarrow> ('kb, 'a) kernel_scheme \<Rightarrow>
     ('m \<times> boot_info_frame_allocator \<times> 'h \<times> ('kb, 'a) kernel_scheme) res" where
  "boot_before_apic env bi h s =
     bind_res (irq_println (ascii ''Initializing...'') s) (\<lambda>s.
     bind_res (irq_println (ascii ''Initialization succeeded!'') (leaf_init env s)) (\<lambda>s.
     bind_res (memory_setup (env_paging env) (env_page_table env) (env_cr3 env) (env_map_to env)
         (env_heap_init env) (boot_memory_map bi) (physical_memory_offset bi) h) (\<lambda>(table, allocator, h).
     bind_res (heap_allocates env SchedulerInit s) (\<lambda>s.
     Inr (table, allocator, h, sched_step (scheduler_init (env_void env) (env_idle_fn env)) s)))))"

definition boot_start_procs ::
    "('g, 'm, 'h) boot_env \<Rightarrow> ('kb, 'a) kernel_scheme \<Rightarrow> ('kb, 'a) kernel_scheme res" where
  "boot_start_procs env s =
     bind_res (pit_init s) (\<lambda>(_, s).
     bind_res (start_timer_one_shot SCHEDULER_TIMER_DELAY s) (\<lambda>s.
     bind_res (heap_allocates env StartFirst s) (\<lambda>s.
     let s = sched_step (start_proc (env_first env) (env_test_fn env) True) s
     in bind_res (heap_allocates env StartSecond s) (\<lambda>s.
        Inr (sched_step (start_proc (env_second env) (env_test_fn_hello env) True) s)))))"

definition boot_after_apic ::
    "('g, 'm, 'h) boot_env \<Rightarrow> ('kb, 'a) kernel_scheme \<Rightarrow> ('kb, 'a) kernel_scheme res" where
  "boot_after_apic env s =
     bind_res (boot_start_procs env s) (\<lambda>s.
     bind_res (irq_println (ascii ''Startup succeeded!'') s) (\<lambda>s.
     bind_res (heap_allocates env ShellInit s) (\<lambda>s.
     bind_res (shell_init s) (\<lambda>s.
     bind_res (heap_allocates env RegisterHandler s) (\<lambda>s. Inr (init_kb_handler s))))))"

definition kernel_main ::
    "('g, 'm, 'h) boot_env \<Rightarrow> (nat \<Rightarrow> arrivals) \<Rightarrow> nat \<Rightarrow>
     boot_info \<Rightarrow> 'h \<Rightarrow> ('kb, 'a) kernel_scheme \<Rightarrow>
     ('m \<times> boot_info_frame_allocator \<times> 'h \<times> ('kb, 'a) kernel_scheme) res option" where
  "kernel_main env wake fuel bi h s =
     (case boot_before_apic env bi h s of
        Inl e \<Rightarrow> Some (Inl e)
      | Inr (table, allocator, h, s) \<Rightarrow>
          map_option (\<lambda>r. bind_res r (\<lambda>s. bind_res (boot_after_apic env s) (\<lambda>s. Inr (table, allocator, h, s))))
            (init_apic (env_build_apic env) (env_xapic_base env) wake fuel (physical_memory_offset bi) s))"

text \<open>The panic handler up to its \<^verbatim>\<open>hlt_loop\<close>, for the text of the panic.\<close>

definition panic_handler :: "bytes \<Rightarrow> ('kb, 'a) irq_scheme \<Rightarrow> ('kb, 'a) irq_scheme res" where
  "panic_handler info s = irq_println info s"

lemma panic_handler_returns: "wf_console s \<Longrightarrow> \<exists>t. panic_handler info s = Inr t \<and> wf_console t"
  using irq_println_ok by (auto simp: panic_handler_def)

section \<open>Frames\<close>

lemma kernel_of_irq_more:
  "irq.more s = irq.more t \<Longrightarrow> CPU s = CPU t \<and> SCHED s = SCHED t \<and> SEGMENTS s = SEGMENTS t"
  by (cases s; cases t) simp

lemma set_exceptions_update: "set_exceptions es s = s\<lparr>IDT := IDT (set_exceptions es s)\<rparr>"
proof (induction es arbitrary: s)
  case (Cons e es)
  show ?case
    using Cons [of "set_handler_fn (exception_vector e) (ExceptionHandler e) s"]
    by (simp add: set_handler_fn_def)
qed simp

lemma interrupts_init_update:
  "interrupts_init s = s\<lparr>IDT := IDT (interrupts_init s), IDT_LOADED := True\<rparr>"
proof -
  obtain d where "set_exceptions first_exceptions s = s\<lparr>IDT := d\<rparr>"
    using set_exceptions_update by blast
  then show ?thesis
    unfolding interrupts_init_def first_exceptions_def [symmetric] Let_def
    by (simp add: set_handler_fn_def set_stack_index_def)
qed

lemma leaf_init_frame [simp]:
  "WRITER (leaf_init env s) = WRITER s" "SHELL (leaf_init env s) = SHELL s"
  "INITIALIZED (leaf_init env s) = INITIALIZED s" "TRIGGERED_ONCE (leaf_init env s) = TRIGGERED_ONCE s"
  "device (leaf_init env s) = device s" "io_log (leaf_init env s) = io_log s"
  "EVENT_HANDLERS (leaf_init env s) = EVENT_HANDLERS s" "SCHED (leaf_init env s) = SCHED s"
  "lapic_log (leaf_init env s) = lapic_log s" "is_interrupts_enabled (leaf_init env s)"
proof -
  let ?t = "s\<lparr>SEGMENTS := gdt_init (env_ist_stack env) (env_priv_stack env)
      (snd (gdt_build (env_add_entry env) (env_gdt env))) (SEGMENTS s)\<rparr>"
  obtain d where "interrupts_init ?t = ?t\<lparr>IDT := d, IDT_LOADED := True\<rparr>"
    using interrupts_init_update by blast
  then have "leaf_init env s =
      enable_interrupts (?t\<lparr>IDT := d, IDT_LOADED := True, pic_log := pic_log s @ [PicInitialize]\<rparr>)"
    by (simp add: leaf_init_def)
  then show "WRITER (leaf_init env s) = WRITER s" "SHELL (leaf_init env s) = SHELL s"
    "INITIALIZED (leaf_init env s) = INITIALIZED s" "TRIGGERED_ONCE (leaf_init env s) = TRIGGERED_ONCE s"
    "device (leaf_init env s) = device s" "io_log (leaf_init env s) = io_log s"
    "EVENT_HANDLERS (leaf_init env s) = EVENT_HANDLERS s" "SCHED (leaf_init env s) = SCHED s"
    "lapic_log (leaf_init env s) = lapic_log s" "is_interrupts_enabled (leaf_init env s)"
    by (simp_all) (simp_all add: enable_interrupts_def)
qed

lemma leaf_init_handlers: "i \<noteq> Invalid \<Longrightarrow> map_option entry_fn (IDT (leaf_init env s) (as_usize i)) = index_handler i"
  by (cases i) (simp_all add: leaf_init_def Let_def enable_interrupts_def interrupts_init_IDT as_usize_inj)

text \<open>\<^verbatim>\<open>Shell::init\<close> on a blank bottom row prints the prompt there.\<close>

lemma shell_init_fresh:
  assumes "wf_console s" "column_position (WRITER s) = 0" "buffer (WRITER s) ! 24 = blank_row (w_color (WRITER s))"
    "length (cs_chars (prompt (SHELL s))) \<le> 80" "written_char_count (SHELL s) = 0"
  shows "\<exists>w. shell_init s = Inr (s\<lparr>WRITER := w, INITIALIZED := True\<rparr>) \<and>
    editing (cs_chars (prompt (SHELL s))) (take 24 (buffer w)) [] (s\<lparr>WRITER := w, INITIALIZED := True\<rparr>)"
proof -
  let ?cs = "cs_chars (prompt (SHELL s))"
  let ?w = "overwrite_line ?cs (WRITER s)"
  have "is_current_row_clear (WRITER s) = Inr True"
    using row_clear_from_wf [of "WRITER s" "[0..<80]"] assms(1,3)
    by (simp add: is_current_row_clear_def blank_row_def del: upt_rec_numeral)
  moreover have "write_colored_string (prompt (SHELL s)) (WRITER s) = Inr ?w"
    using assms by (intro write_colored_string_line) simp_all
  ultimately have "shell_init s = Inr (s\<lparr>WRITER := ?w, INITIALIZED := True\<rparr>)"
    by (simp add: shell_init_def on_writer_def)
  moreover have "wf_writer ?w"
    using assms by (intro overwrite_line_wf) simp_all
  moreover have "take (length ?cs) (buffer ?w ! 24) = ?cs" "unat (column_position ?w) = length ?cs"
    using assms by (simp_all add: overwrite_line_def unat_of_nat)
  moreover have "buffer ?w ! 24 = ?cs @ replicate (80 - length ?cs) (blank_cell (w_color ?w))"
    using assms by (simp add: overwrite_line_def blank_row_def)
  ultimately show ?thesis
    using assms(5) by (intro exI [of _ ?w]) (simp add: editing_def cells_def)
qed

section \<open>The two halves\<close>

lemma boot_before_apic_ok:
  assumes "wf_console s" "\<not> INITIALIZED s"
    "memory_setup (env_paging env) (env_page_table env) (env_cr3 env) (env_map_to env) (env_heap_init env)
       (boot_memory_map bi) (physical_memory_offset bi) h = Inr (table, allocator, h')"
    "\<forall>i. env_refused env i = None"
  shows "\<exists>t. boot_before_apic env bi h s = Inr (table, allocator, h', t) \<and> wf_console t \<and> \<not> INITIALIZED t \<and>
    SHELL t = SHELL s \<and> TRIGGERED_ONCE t = TRIGGERED_ONCE s \<and> device t = device s \<and> io_log t = io_log s \<and>
    EVENT_HANDLERS t = EVENT_HANDLERS s \<and> is_interrupts_enabled t \<and>
    SCHED t = scheduler_init (env_void env) (env_idle_fn env) (SCHED s) \<and>
    (\<forall>i. i \<noteq> Invalid \<longrightarrow> map_option entry_fn (IDT t (as_usize i)) = index_handler i)"
proof -
  obtain v where v: "irq_println (ascii ''Initializing...'') s = Inr (s\<lparr>WRITER := v\<rparr>)" "wf_writer v"
    using irq_println_plain [OF assms(1,2)] by blast
  let ?s = "leaf_init env (s\<lparr>WRITER := v\<rparr>)"
  obtain w where w: "irq_println (ascii ''Initialization succeeded!'') ?s = Inr (?s\<lparr>WRITER := w\<rparr>)" "wf_writer w"
    using irq_println_plain [of ?s] v(2) assms(2) by auto
  have "is_interrupts_enabled (?s\<lparr>WRITER := w, SCHED := x\<rparr>)" for x
    using leaf_init_frame(10) [of env "s\<lparr>WRITER := v\<rparr>"] by (simp add: is_interrupts_enabled_def flags_def)
  then show ?thesis
    using v w assms(2-4) by (simp add: boot_before_apic_def sched_step_def leaf_init_handlers heap_allocates_def)
qed

lemma pit_init_ok: "\<exists>t. pit_init s = Inr ((), t) \<and> machine.more t = machine.more s \<and>
    is_interrupts_enabled t = is_interrupts_enabled s"
proof -
  obtain d where "pit_divisor PIT_FREQUENCY_HZ = Inr d"
    using pit_divisor_nat [of PIT_FREQUENCY_HZ] by (auto simp: PIT_FREQUENCY_HZ_def)
  then show ?thesis
    using write_channel0_count_effect [of "ucast d" s] by (auto simp: pit_init_def set_frequency_eq)
qed

lemma boot_after_apic_ok:
  assumes "wf_console s" "\<not> INITIALIZED s" "SHELL s = shell_static" "LAPIC s = Some l" "\<forall>i. env_refused env i = None"
  shows "\<exists>t. boot_after_apic env s = Inr t \<and> INITIALIZED t \<and>
    editing (cs_chars (prompt shell_static)) (take 24 (buffer (WRITER t))) [] t \<and>
    is_interrupts_enabled t = is_interrupts_enabled s \<and> LAPIC t = LAPIC s \<and>
    lapic_log t = lapic_log s @ [SetTimerDivide Div64, SetTimerMode OneShot,
      SetTimerInitial (ucast (SCHEDULER_TIMER_DELAY * (APIC_TIMER_FREQUENCY s div 1000000)))] \<and>
    IDT t = IDT s \<and> keyboard (EVENT_HANDLERS t) = keyboard (EVENT_HANDLERS s) @ [ShellKeyHandler] \<and>
    SCHED t = start_proc (env_second env) (env_test_fn_hello env) True
      (start_proc (env_first env) (env_test_fn env) True (SCHED s))"
proof -
  obtain a where a: "pit_init s = Inr ((), a)" "machine.more a = machine.more s"
      "is_interrupts_enabled a = is_interrupts_enabled s"
    using pit_init_ok by blast
  note tm = irq_of_machine_more [OF a(2)]
  note tc = irq_of_console_more [OF conjunct1 [OF tm]]
  let ?c = "SetTimerInitial (ucast (SCHEDULER_TIMER_DELAY * (APIC_TIMER_FREQUENCY s div 1000000)))"
  define b where "b = a\<lparr>lapic_log := lapic_log s @ [SetTimerDivide Div64, SetTimerMode OneShot, ?c],
    SCHED := start_proc (env_second env) (env_test_fn_hello env) True
      (start_proc (env_first env) (env_test_fn env) True (SCHED s))\<rparr>"
  have "SCHED a = SCHED s"
    using kernel_of_irq_more tc by blast
  then have timer: "boot_after_apic env s =
      bind_res (irq_println (ascii ''Startup succeeded!'') b) (\<lambda>s.
      bind_res (shell_init s) (\<lambda>s. Inr (init_kb_handler s)))"
    using a(1) tc assms(4,5)
    by (simp add: boot_after_apic_def boot_start_procs_def start_timer_one_shot_def sched_step_def b_def Let_def
        heap_allocates_def)
  have "wf_console b" "\<not> INITIALIZED b"
    using assms(1,2) tm by (simp_all add: b_def)
  then obtain w where w: "irq_println (ascii ''Startup succeeded!'') b = Inr (b\<lparr>WRITER := w\<rparr>)" "wf_writer w"
      "column_position w = 0" "buffer w ! 24 = blank_row (w_color w)"
    using irq_println_plain by blast
  have shell: "SHELL b = shell_static"
    using tm assms(3) by (simp add: b_def)
  have "length (cs_chars (prompt shell_static)) \<le> 80"
    by (simp add: shell_static_def shell_new_def from_string_def push_char_def)
  then obtain v where v: "shell_init (b\<lparr>WRITER := w\<rparr>) = Inr (b\<lparr>WRITER := v, INITIALIZED := True\<rparr>)"
      "editing (cs_chars (prompt shell_static)) (take 24 (buffer v)) [] (b\<lparr>WRITER := v, INITIALIZED := True\<rparr>)"
    using shell_init_fresh [of "b\<lparr>WRITER := w\<rparr>"] w shell by auto
  show ?thesis
    using timer w(1) v tc a(3)
    by (simp add: init_kb_handler_def register_keyboard_handler_def editing_def b_def)
      (simp add: is_interrupts_enabled_def flags_def)
qed

section \<open>Booting\<close>

text \<open>The statics before the kernel's first instruction.\<close>

definition power_on :: "mem \<Rightarrow> ('kb, 'a) kernel_scheme \<Rightarrow> bool" where
  "power_on m s \<longleftrightarrow> wf_console s \<and> \<not> INITIALIZED s \<and> SHELL s = shell_static \<and> \<not> TRIGGERED_ONCE s \<and>
     SCHED s = sched_boot m \<and> EVENT_HANDLERS s = event_handlers_new"

text \<open>The hypotheses under which the heap can be mapped (see \<^verbatim>\<open>memory_setup_ok\<close>).\<close>

definition memory_ready :: "('g, 'm, 'h) boot_env \<Rightarrow> boot_info \<Rightarrow> ('m \<Rightarrow> u64 \<rightharpoonup> u64 \<times> u64) \<Rightarrow>
    ('m \<Rightarrow> u64 \<Rightarrow> bool) \<Rightarrow> bool" where
  "memory_ready env bi translate vacant \<longleftrightarrow>
     paging_ok (env_paging env) \<and> regions_ok (boot_memory_map bi) \<and> regions_disjoint (boot_memory_map bi) \<and>
     1000 \<le> length (frame_addresses (boot_frames_init (boot_memory_map bi))) \<and>
     map_to_ok (boot_budget (env_paging env)) boot_remaining translate vacant (env_map_to env) \<and>
     (\<forall>k<250. vacant (env_page_table env (physical_memory_offset bi + env_cr3 env) (physical_memory_offset bi))
        (heap_page k)) \<and>
     unat (physical_memory_offset bi) + unat (env_cr3 env) < 2 ^ 47"

definition boot_sched :: "('g, 'm, 'h) boot_env \<Rightarrow> mem \<Rightarrow> sched" where
  "boot_sched env m =
     start_proc (env_second env) (env_test_fn_hello env) True
       (start_proc (env_first env) (env_test_fn env) True
         (scheduler_init (env_void env) (env_idle_fn env) (sched_boot m)))"

lemmas boot_sched_defs = start_proc_def start_process_def scheduler_init_def sched_boot_def
  round_robin_new_def boxed_state_def

lemma boot_sched_reachable:
  assumes "distinct [alloc_box (env_void env), alloc_box (env_first env), alloc_box (env_second env)]"
  shows "reachable (env_idle_fn env) (boot_sched env m)"
  unfolding boot_sched_def
proof (intro reachable.start)
  show "reachable (env_idle_fn env) (scheduler_init (env_void env) (env_idle_fn env) (sched_boot m))"
    by (rule reachable.boot)
qed (use assms in \<open>auto simp: boot_sched_defs Let_def split: prod.splits\<close>)

lemma boot_sched_tick:
  "current (tick al f (boot_sched env m)) = Some (process_new 2 Runnable, alloc_box (env_second env))"
  by (simp add: boot_sched_def boot_sched_defs select_next_task_def pick_next_def replace_curr_task_def Let_def
      split: prod.splits)

text \<open>Everything the boot sequence needs to run to its end.\<close>

definition boot_ready ::
    "('g, 'm, 'h) boot_env \<Rightarrow> (nat \<Rightarrow> arrivals) \<Rightarrow> nat \<Rightarrow>
     boot_info \<Rightarrow> mem \<Rightarrow> ('kb, 'a) kernel_scheme \<Rightarrow> bool" where
  "boot_ready env wake fuel bi m s \<longleftrightarrow>
     power_on m s \<and> (\<exists>translate vacant. memory_ready env bi translate vacant) \<and>
     (\<exists>l. env_build_apic env (lapic_config (physical_memory_offset bi) (env_xapic_base env)) = Inr l) \<and>
     (\<exists>k n. notices False wake 0 k \<and> k < fuel \<and>
        latches (device s) (io_log s @ calibration_ports) n \<and> n \<noteq> 0xFFFF) \<and>
     distinct [alloc_box (env_void env), alloc_box (env_first env), alloc_box (env_second env)] \<and>
     (\<forall>i. env_refused env i = None)"

text \<open>Every page of the heap is mapped, each to a usable frame of its own, and the pages cover the heap.\<close>

definition heap_mapped ::
    "('g, 'm, 'h) boot_env \<Rightarrow> boot_info \<Rightarrow> ('m \<Rightarrow> u64 \<rightharpoonup> u64 \<times> u64) \<Rightarrow> 'm \<Rightarrow> bool" where
  "heap_mapped env bi translate table \<longleftrightarrow>
     (\<exists>frames. length frames = 250 \<and> distinct frames \<and>
        set frames \<subseteq> set (frame_addresses (boot_frames_init (boot_memory_map bi))) \<and>
        (\<forall>k<250. translate table (heap_page k) = Some (frames ! k, PRESENT OR WRITABLE))) \<and>
     (\<forall>a. HEAP_START \<le> a \<and> a < HEAP_START + HEAP_SIZE \<longrightarrow>
        (\<exists>k<250. page_containing (env_paging env) a = heap_page k))"

lemma memory_setup_ready:
  assumes "memory_ready env bi translate vacant"
  shows "\<exists>table allocator. memory_setup (env_paging env) (env_page_table env) (env_cr3 env)
      (env_map_to env) (env_heap_init env) (boot_memory_map bi) (physical_memory_offset bi) h =
      Inr (table, allocator, env_heap_init env HEAP_START HEAP_SIZE h) \<and> heap_mapped env bi translate table"
  using assms memory_setup_ok [of "env_paging env" "boot_memory_map bi" translate vacant "env_map_to env"
      "env_page_table env" "physical_memory_offset bi" "env_cr3 env" "env_heap_init env" h]
  unfolding memory_ready_def heap_mapped_def by blast

lemma kernel_main_ok:
  assumes "boot_ready env wake fuel bi m s"
  shows "\<exists>table allocator t.
    kernel_main env wake fuel bi h s =
      Some (Inr (table, allocator, env_heap_init env HEAP_START HEAP_SIZE h, t)) \<and>
    INITIALIZED t \<and> editing (cs_chars (prompt shell_static)) (take 24 (buffer (WRITER t))) [] t \<and>
    is_interrupts_enabled t \<and> LAPIC t \<noteq> None \<and> keyboard (EVENT_HANDLERS t) = [ShellKeyHandler] \<and>
    (\<forall>i. i \<noteq> Invalid \<longrightarrow> map_option entry_fn (IDT t (as_usize i)) =
       (if i = ApicTimer then Some ApicTimerHandler else index_handler i)) \<and>
    SCHED t = boot_sched env m \<and>
    (\<forall>translate vacant. memory_ready env bi translate vacant \<longrightarrow> heap_mapped env bi translate table)"
proof -
  obtain translate :: "'b \<Rightarrow> u64 \<rightharpoonup> u64 \<times> u64" and vacant l k n where
      mr: "power_on m s" "memory_ready env bi translate vacant"
      "env_build_apic env (lapic_config (physical_memory_offset bi) (env_xapic_base env)) = Inr l"
      "notices False wake 0 k" "k < fuel" "latches (device s) (io_log s @ calibration_ports) n" "n \<noteq> 0xFFFF"
      "\<forall>i. env_refused env i = None"
    using assms unfolding boot_ready_def by blast
  obtain table allocator where mem: "memory_setup (env_paging env) (env_page_table env) (env_cr3 env)
      (env_map_to env) (env_heap_init env) (boot_memory_map bi) (physical_memory_offset bi) h =
      Inr (table, allocator, env_heap_init env HEAP_START HEAP_SIZE h)"
    using memory_setup_ready [OF mr(2)] by blast
  have mapped: "\<forall>translate vacant. memory_ready env bi translate vacant \<longrightarrow> heap_mapped env bi translate table"
    using memory_setup_ready [where h = h] mem by fastforce
  obtain a where a: "boot_before_apic env bi h s = Inr (table, allocator, env_heap_init env HEAP_START HEAP_SIZE h, a)"
      "wf_console a" "\<not> INITIALIZED a" "SHELL a = shell_static" "\<not> TRIGGERED_ONCE a" "device a = device s"
      "io_log a = io_log s" "EVENT_HANDLERS a = event_handlers_new" "is_interrupts_enabled a"
      "SCHED a = scheduler_init (env_void env) (env_idle_fn env) (sched_boot m)"
      "\<forall>i. i \<noteq> Invalid \<longrightarrow> map_option entry_fn (IDT a (as_usize i)) = index_handler i"
    using boot_before_apic_ok [OF _ _ mem mr(8), of s] mr(1) by (auto simp: power_on_def)
  have "apic_gates a"
    using a(11) by (simp add: apic_gates_def)
  then obtain b where b: "init_apic (env_build_apic env) (env_xapic_base env) wake fuel (physical_memory_offset bi) a = Some (Inr b)"
      "LAPIC b = Some l" "IDT b = (IDT a)(33 \<mapsto> \<lparr>entry_fn = ApicTimerHandler, stack_index = None\<rparr>)"
      "wf_console b" "is_interrupts_enabled b" "EVENT_HANDLERS b = event_handlers_new" "irq.more b = irq.more a"
      "\<not> INITIALIZED b" "SHELL b = shell_static"
    using init_apic_ok [of a "env_build_apic env" "physical_memory_offset bi" "env_xapic_base env" l wake k fuel n]
      a mr(3-7) by auto
  obtain t where t: "boot_after_apic env b = Inr t" "INITIALIZED t"
      "editing (cs_chars (prompt shell_static)) (take 24 (buffer (WRITER t))) [] t"
      "is_interrupts_enabled t" "LAPIC t = Some l" "IDT t = IDT b" "keyboard (EVENT_HANDLERS t) = [ShellKeyHandler]"
      "SCHED t = boot_sched env m"
    using boot_after_apic_ok [OF b(4,8,9,2) mr(8)] b a(10) kernel_of_irq_more [OF b(7)]
    by (auto simp: boot_sched_def event_handlers_new_def)
  have "as_usize i = 33 \<longleftrightarrow> i = ApicTimer" for i
    using as_usize_inj [of i ApicTimer] by (simp add: as_usize_def)
  then have "\<forall>i. i \<noteq> Invalid \<longrightarrow> map_option entry_fn (IDT t (as_usize i)) =
      (if i = ApicTimer then Some ApicTimerHandler else index_handler i)"
    using t(6) b(3) a(11) by simp
  then show ?thesis
    using a(1) b(1) t mapped by (auto simp: kernel_main_def)
qed

text \<open>
  C6: The kernel boots. From the initial statics, with enough memory, a local APIC
  that can be built, a calibration loop that sees the timer interrupt and a heap that
  serves the allocations of the sequence, \<^verbatim>\<open>kernel_main\<close>, interrupted by nothing but the
  local APIC's interrupts during calibration, runs to its end without a panic: each
  of the 250 pages of the heap is mapped writable to a usable frame of its own, the heap is
  initialized on that range, the shell waits behind its prompt on the bottom row
  with its key handler registered, interrupts are enabled and lead to the scheduler, the
  keyboard and the system call handler, and the first tick switches to the process
  started last.
\<close>

theorem kernel_boots:
  assumes "power_on m s" "memory_ready env bi translate vacant"
    "env_build_apic env (lapic_config (physical_memory_offset bi) (env_xapic_base env)) = Inr l"
    "notices False wake 0 k" "k < fuel" "latches (device s) (io_log s @ calibration_ports) n" "n \<noteq> 0xFFFF"
    "distinct [alloc_box (env_void env), alloc_box (env_first env), alloc_box (env_second env)]"
    "\<forall>i. env_refused env i = None"
  shows "\<exists>table allocator t.
    kernel_main env wake fuel bi h s =
      Some (Inr (table, allocator, env_heap_init env HEAP_START HEAP_SIZE h, t)) \<and>
    (\<exists>frames. length frames = 250 \<and> distinct frames \<and>
       set frames \<subseteq> set (frame_addresses (boot_frames_init (boot_memory_map bi))) \<and>
       (\<forall>k<250. translate table (heap_page k) = Some (frames ! k, PRESENT OR WRITABLE))) \<and>
    INITIALIZED t \<and> editing (cs_chars (prompt shell_static)) (take 24 (buffer (WRITER t))) [] t \<and>
    is_interrupts_enabled t \<and> keyboard (EVENT_HANDLERS t) = [ShellKeyHandler] \<and>
    map_option entry_fn (IDT t (as_usize ApicTimer)) = Some ApicTimerHandler \<and>
    map_option entry_fn (IDT t (as_usize Keyboard)) = Some KeyboardInterruptHandler \<and>
    map_option entry_fn (IDT t (as_usize Syscall)) = Some SyscallHandler \<and>
    reachable (env_idle_fn env) (SCHED t) \<and>
    (\<forall>scratch al al'. alloc_box al \<notin> dom (boxes (SCHED t)) \<and> alloc_box al' \<notin> dom (boxes (SCHED t)) \<and>
       alloc_box al' \<noteq> alloc_box al \<longrightarrow>
       (\<exists>u. apic_timer_handler scratch al al' (env_idle_fn env) t = Inr u \<and>
          current (SCHED u) = Some (process_new 2 Runnable, alloc_box (env_second env))))"
proof -
  have "boot_ready env wake fuel bi m s"
    using assms unfolding boot_ready_def by blast
  then obtain table allocator t where t: "kernel_main env wake fuel bi h s =
      Some (Inr (table, allocator, env_heap_init env HEAP_START HEAP_SIZE h, t))" "INITIALIZED t"
      "editing (cs_chars (prompt shell_static)) (take 24 (buffer (WRITER t))) [] t" "is_interrupts_enabled t"
      "LAPIC t \<noteq> None" "keyboard (EVENT_HANDLERS t) = [ShellKeyHandler]"
      "\<forall>i. i \<noteq> Invalid \<longrightarrow> map_option entry_fn (IDT t (as_usize i)) =
         (if i = ApicTimer then Some ApicTimerHandler else index_handler i)" "SCHED t = boot_sched env m"
      "heap_mapped env bi translate table"
    using kernel_main_ok [of env wake fuel bi m s h] assms(2) by blast
  have r: "reachable (env_idle_fn env) (SCHED t)"
    using boot_sched_reachable [OF assms(8)] t(8) by simp
  have "\<exists>u. apic_timer_handler scratch al al' (env_idle_fn env) t = Inr u \<and>
      current (SCHED u) = Some (process_new 2 Runnable, alloc_box (env_second env))"
    if "alloc_box al \<notin> dom (boxes (SCHED t))" "alloc_box al' \<notin> dom (boxes (SCHED t))"
      "alloc_box al' \<noteq> alloc_box al" for scratch al al'
    using timer_tick_ok [OF r t(5) that, of scratch] t(8) boot_sched_tick by auto
  then show ?thesis
    using t r by (auto simp: heap_mapped_def)
qed

text \<open>A machine that boots: 1000 usable frames, and a timer chip that holds 0x8000 when the APIC timer fires.\<close>

definition example_env :: "(unit, u64 \<rightharpoonup> u64 \<times> u64, (usize \<times> usize) option) boot_env" where
  "example_env =
     \<lparr>env_add_entry = (\<lambda>d g. (0, g)), env_gdt = (), env_ist_stack = 0x5000, env_priv_stack = 0x6000,
      env_paging = example_paging, env_page_table = (\<lambda>_ _. Map.empty), env_cr3 = 0x1000,
      env_map_to = example_map_to, env_heap_init = (\<lambda>a n h. Some (a, n)), env_build_apic = Inr,
      env_xapic_base = 0xFEE00000, env_void = example_alloc 0x10000, env_first = example_alloc 0x20000,
      env_second = example_alloc 0x30000, env_refused = (\<lambda>_. None), env_idle_fn = 0x400, env_test_fn = 0x800, env_test_fn_hello = 0xC00\<rparr>"

definition example_info :: boot_info where
  "example_info = \<lparr>boot_memory_map = example_regions, physical_memory_offset = 0x18000000000\<rparr>"

definition example_machine :: "unit kernel" where
  "example_machine = (example_kernel (sched_boot (\<lambda>_. 0)))
     \<lparr>device := (\<lambda>log p. if last log = Out 0x43 0 then 0x00 else 0x80), INITIALIZED := False, TRIGGERED_ONCE := False\<rparr>"

lemma example_memory_ready: "memory_ready example_env example_info (\<lambda>m. m) (\<lambda>m p. m p = None)"
  using example_paging_ok example_regions_ok example_map_to_ok
  by (simp add: memory_ready_def example_env_def example_info_def)

lemma example_power_on:
  "power_on (\<lambda>_. 0) example_machine"
  "latches (device example_machine) (io_log example_machine @ calibration_ports) 0x8000"
  "env_build_apic example_env (lapic_config (physical_memory_offset example_info)
     (env_xapic_base example_env)) = Inr (lapic_config 0x18000000000 0xFEE00000)"
  "distinct [alloc_box (env_void example_env), alloc_box (env_first example_env), alloc_box (env_second example_env)]"
  "\<forall>i. env_refused example_env i = None"
proof -
  show "power_on (\<lambda>_. 0) example_machine"
    by (simp add: power_on_def example_machine_def example_kernel_def writer_init_def)
  show "latches (device example_machine) (io_log example_machine @ calibration_ports) 0x8000"
    by (simp add: latches_def low_byte_def high_byte_def example_machine_def example_kernel_def calibration_ports_def)
qed (simp_all add: example_env_def example_info_def example_alloc_def)

theorem kernel_boots_witness:
  "\<exists>table allocator t.
     kernel_main example_env example_wake 3 example_info None example_machine =
       Some (Inr (table, allocator, Some (HEAP_START, HEAP_SIZE), t)) \<and>
     (\<exists>f. table (heap_page 7) = Some (f, PRESENT OR WRITABLE)) \<and>
     keyboard (EVENT_HANDLERS t) = [ShellKeyHandler] \<and> is_interrupts_enabled t"
proof -
  have "env_heap_init example_env = (\<lambda>a n h. Some (a, n))" "(2 :: nat) < 3" "(0x8000 :: u16) \<noteq> 0xFFFF" "(7 :: nat) < 250"
    by (simp_all add: example_env_def)
  then show ?thesis
    using kernel_boots [OF example_power_on(1) example_memory_ready example_power_on(3) example_notices(1) _
        example_power_on(2) _ example_power_on(4,5), of 3 None]
    by (auto dest!: spec [of "\<lambda>k. k < 250 \<longrightarrow> _ k" 7])
qed

end
