(* ===== verification/Driver.thy ===== *)
theory Driver
  imports Terminal
begin

text \<open>
  The driver framework of src/src/drivers/driver.rs. A boxed trait object is the
  record of its methods with its state; the access kind of a driver is a phantom
  type, so that a method exists only for the kinds the source gives it. The one
  implementation in the kernel is the VGA writer.
\<close>

section \<open>Character drivers\<close>

datatype read_only = ReadOnly
datatype write_only = WriteOnly
datatype read_write = ReadWrite

record ('s, 't, 'idt) char_driver_impl =
  drv_init :: "'idt \<Rightarrow> 's \<Rightarrow> bool \<times> 'idt \<times> 's"
  drv_exit :: "'s \<Rightarrow> 's"
  drv_write_char :: "'t \<Rightarrow> 's \<Rightarrow> 's res"
  drv_write_char_indexed :: "usize \<Rightarrow> 't \<Rightarrow> 's \<Rightarrow> 's res"
  drv_read_char :: "'s \<Rightarrow> ('t \<times> 's) res"
  drv_read_char_indexed :: "usize \<Rightarrow> 's \<Rightarrow> ('t \<times> 's) res"

datatype ('s, 't, 'idt, 'a) char_driver = CharDriver "('s, 't, 'idt) char_driver_impl" 's

definition char_new_read_write :: "('s, 't, 'idt) char_driver_impl \<Rightarrow> 's \<Rightarrow> ('s, 't, 'idt, read_write) char_driver" where
  "char_new_read_write i s = CharDriver i s"

definition char_new_read_only :: "('s, 't, 'idt) char_driver_impl \<Rightarrow> 's \<Rightarrow> ('s, 't, 'idt, read_only) char_driver" where
  "char_new_read_only i s = CharDriver i s"

definition char_new_write_only :: "('s, 't, 'idt) char_driver_impl \<Rightarrow> 's \<Rightarrow> ('s, 't, 'idt, write_only) char_driver" where
  "char_new_write_only i s = CharDriver i s"

definition char_driver_init :: "'idt \<Rightarrow> ('s, 't, 'idt, 'a) char_driver \<Rightarrow> bool \<times> 'idt \<times> ('s, 't, 'idt, 'a) char_driver" where
  "char_driver_init idt d =
     (case d of CharDriver i s \<Rightarrow> case drv_init i idt s of (b, idt, s) \<Rightarrow> (b, idt, CharDriver i s))"

definition char_driver_exit :: "('s, 't, 'idt, 'a) char_driver \<Rightarrow> ('s, 't, 'idt, 'a) char_driver" where
  "char_driver_exit d = (case d of CharDriver i s \<Rightarrow> CharDriver i (drv_exit i s))"

definition ro_read_char :: "('s, 't, 'idt, read_only) char_driver \<Rightarrow> ('t \<times> ('s, 't, 'idt, read_only) char_driver) res" where
  "ro_read_char d = (case d of CharDriver i s \<Rightarrow> bind_res (drv_read_char i s) (\<lambda>(c, s). Inr (c, CharDriver i s)))"

definition ro_read_char_indexed ::
    "usize \<Rightarrow> ('s, 't, 'idt, read_only) char_driver \<Rightarrow> ('t \<times> ('s, 't, 'idt, read_only) char_driver) res" where
  "ro_read_char_indexed index d =
     (case d of CharDriver i s \<Rightarrow> bind_res (drv_read_char_indexed i index s) (\<lambda>(c, s). Inr (c, CharDriver i s)))"

definition wo_write_char :: "'t \<Rightarrow> ('s, 't, 'idt, write_only) char_driver \<Rightarrow> ('s, 't, 'idt, write_only) char_driver res" where
  "wo_write_char c d = (case d of CharDriver i s \<Rightarrow> bind_res (drv_write_char i c s) (\<lambda>s. Inr (CharDriver i s)))"

definition wo_write_char_indexed ::
    "usize \<Rightarrow> 't \<Rightarrow> ('s, 't, 'idt, write_only) char_driver \<Rightarrow> ('s, 't, 'idt, write_only) char_driver res" where
  "wo_write_char_indexed index c d =
     (case d of CharDriver i s \<Rightarrow> bind_res (drv_write_char_indexed i index c s) (\<lambda>s. Inr (CharDriver i s)))"

definition rw_read_char :: "('s, 't, 'idt, read_write) char_driver \<Rightarrow> ('t \<times> ('s, 't, 'idt, read_write) char_driver) res" where
  "rw_read_char d = (case d of CharDriver i s \<Rightarrow> bind_res (drv_read_char i s) (\<lambda>(c, s). Inr (c, CharDriver i s)))"

definition rw_read_char_indexed ::
    "usize \<Rightarrow> ('s, 't, 'idt, read_write) char_driver \<Rightarrow> ('t \<times> ('s, 't, 'idt, read_write) char_driver) res" where
  "rw_read_char_indexed index d =
     (case d of CharDriver i s \<Rightarrow> bind_res (drv_read_char_indexed i index s) (\<lambda>(c, s). Inr (c, CharDriver i s)))"

definition rw_write_char :: "'t \<Rightarrow> ('s, 't, 'idt, read_write) char_driver \<Rightarrow> ('s, 't, 'idt, read_write) char_driver res" where
  "rw_write_char c d = (case d of CharDriver i s \<Rightarrow> bind_res (drv_write_char i c s) (\<lambda>s. Inr (CharDriver i s)))"

definition rw_write_char_indexed ::
    "usize \<Rightarrow> 't \<Rightarrow> ('s, 't, 'idt, read_write) char_driver \<Rightarrow> ('s, 't, 'idt, read_write) char_driver res" where
  "rw_write_char_indexed index c d =
     (case d of CharDriver i s \<Rightarrow> bind_res (drv_write_char_indexed i index c s) (\<lambda>s. Inr (CharDriver i s)))"

section \<open>Block drivers\<close>

record ('s, 't, 'idt) block_driver_impl =
  blk_init :: "'idt \<Rightarrow> 's \<Rightarrow> bool \<times> 'idt \<times> 's"
  blk_exit :: "'s \<Rightarrow> 's"
  blk_write_block :: "'t list \<Rightarrow> 's \<Rightarrow> 's res"
  blk_write_block_indexed :: "usize \<Rightarrow> 't list \<Rightarrow> 's \<Rightarrow> 's res"
  blk_read_block :: "usize \<Rightarrow> 's \<Rightarrow> ('t list \<times> 's) res"
  blk_read_block_indexed :: "usize \<Rightarrow> usize \<Rightarrow> 's \<Rightarrow> ('t list \<times> 's) res"

datatype ('s, 't, 'idt, 'a) block_driver = BlockDriver "('s, 't, 'idt) block_driver_impl" 's

definition block_new_read_write :: "('s, 't, 'idt) block_driver_impl \<Rightarrow> 's \<Rightarrow> ('s, 't, 'idt, read_write) block_driver" where
  "block_new_read_write i s = BlockDriver i s"

definition block_new_read_only :: "('s, 't, 'idt) block_driver_impl \<Rightarrow> 's \<Rightarrow> ('s, 't, 'idt, read_only) block_driver" where
  "block_new_read_only i s = BlockDriver i s"

definition block_new_write_only :: "('s, 't, 'idt) block_driver_impl \<Rightarrow> 's \<Rightarrow> ('s, 't, 'idt, write_only) block_driver" where
  "block_new_write_only i s = BlockDriver i s"

definition block_driver_init :: "'idt \<Rightarrow> ('s, 't, 'idt, 'a) block_driver \<Rightarrow> bool \<times> 'idt \<times> ('s, 't, 'idt, 'a) block_driver" where
  "block_driver_init idt d =
     (case d of BlockDriver i s \<Rightarrow> case blk_init i idt s of (b, idt, s) \<Rightarrow> (b, idt, BlockDriver i s))"

definition block_driver_exit :: "('s, 't, 'idt, 'a) block_driver \<Rightarrow> ('s, 't, 'idt, 'a) block_driver" where
  "block_driver_exit d = (case d of BlockDriver i s \<Rightarrow> BlockDriver i (blk_exit i s))"

definition ro_read_block ::
    "usize \<Rightarrow> ('s, 't, 'idt, read_only) block_driver \<Rightarrow> ('t list \<times> ('s, 't, 'idt, read_only) block_driver) res" where
  "ro_read_block block_size d =
     (case d of BlockDriver i s \<Rightarrow> bind_res (blk_read_block i block_size s) (\<lambda>(b, s). Inr (b, BlockDriver i s)))"

definition ro_read_block_indexed ::
    "usize \<Rightarrow> usize \<Rightarrow> ('s, 't, 'idt, read_only) block_driver \<Rightarrow> ('t list \<times> ('s, 't, 'idt, read_only) block_driver) res" where
  "ro_read_block_indexed index block_size d =
     (case d of BlockDriver i s \<Rightarrow> bind_res (blk_read_block_indexed i index block_size s) (\<lambda>(b, s). Inr (b, BlockDriver i s)))"

definition wo_write_block ::
    "'t list \<Rightarrow> ('s, 't, 'idt, write_only) block_driver \<Rightarrow> ('s, 't, 'idt, write_only) block_driver res" where
  "wo_write_block b d = (case d of BlockDriver i s \<Rightarrow> bind_res (blk_write_block i b s) (\<lambda>s. Inr (BlockDriver i s)))"

definition wo_write_block_indexed ::
    "usize \<Rightarrow> 't list \<Rightarrow> ('s, 't, 'idt, write_only) block_driver \<Rightarrow> ('s, 't, 'idt, write_only) block_driver res" where
  "wo_write_block_indexed index b d =
     (case d of BlockDriver i s \<Rightarrow> bind_res (blk_write_block_indexed i index b s) (\<lambda>s. Inr (BlockDriver i s)))"

definition rw_read_block ::
    "usize \<Rightarrow> ('s, 't, 'idt, read_write) block_driver \<Rightarrow> ('t list \<times> ('s, 't, 'idt, read_write) block_driver) res" where
  "rw_read_block block_size d =
     (case d of BlockDriver i s \<Rightarrow> bind_res (blk_read_block i block_size s) (\<lambda>(b, s). Inr (b, BlockDriver i s)))"

definition rw_read_block_indexed ::
    "usize \<Rightarrow> usize \<Rightarrow> ('s, 't, 'idt, read_write) block_driver \<Rightarrow> ('t list \<times> ('s, 't, 'idt, read_write) block_driver) res" where
  "rw_read_block_indexed index block_size d =
     (case d of BlockDriver i s \<Rightarrow> bind_res (blk_read_block_indexed i index block_size s) (\<lambda>(b, s). Inr (b, BlockDriver i s)))"

definition rw_write_block ::
    "'t list \<Rightarrow> ('s, 't, 'idt, read_write) block_driver \<Rightarrow> ('s, 't, 'idt, read_write) block_driver res" where
  "rw_write_block b d = (case d of BlockDriver i s \<Rightarrow> bind_res (blk_write_block i b s) (\<lambda>s. Inr (BlockDriver i s)))"

definition rw_write_block_indexed ::
    "usize \<Rightarrow> 't list \<Rightarrow> ('s, 't, 'idt, read_write) block_driver \<Rightarrow> ('s, 't, 'idt, read_write) block_driver res" where
  "rw_write_block_indexed index b d =
     (case d of BlockDriver i s \<Rightarrow> bind_res (blk_write_block_indexed i index b s) (\<lambda>s. Inr (BlockDriver i s)))"

section \<open>Output devices\<close>

text \<open>
  What a client relies on of a device it prints on: writing a character never
  panics and keeps the device's invariant. Then any text goes through a driver
  to the device, with either access kind.
\<close>

locale output_device =
  fixes impl :: "('s, 't, 'idt) char_driver_impl" and valid :: "'s \<Rightarrow> bool"
  assumes write_valid: "valid s \<Longrightarrow> \<exists>s'. drv_write_char impl c s = Inr s' \<and> valid s'"
begin

lemma write_only_text:
  "valid s \<Longrightarrow> \<exists>s'. for_each (drv_write_char impl) cs s = Inr s' \<and> valid s' \<and>
    for_each wo_write_char cs (char_new_write_only impl s) = Inr (char_new_write_only impl s')"
proof (induction cs arbitrary: s)
  case (Cons c cs)
  then show ?case
    using write_valid [OF Cons.prems, of c] by (auto simp: wo_write_char_def char_new_write_only_def)
qed simp

lemma read_write_text:
  "valid s \<Longrightarrow> \<exists>s'. for_each (drv_write_char impl) cs s = Inr s' \<and> valid s' \<and>
    for_each rw_write_char cs (char_new_read_write impl s) = Inr (char_new_read_write impl s')"
proof (induction cs arbitrary: s)
  case (Cons c cs)
  then show ?case
    using write_valid [OF Cons.prems, of c] by (auto simp: rw_write_char_def char_new_read_write_def)
qed simp

end

definition writer_impl :: "(writer, screen_char, 'idt) char_driver_impl" where
  "writer_impl = \<lparr>drv_init = writer_driver_init, drv_exit = writer_driver_exit, drv_write_char = write_char,
     drv_write_char_indexed = write_char_indexed, drv_read_char = read_char,
     drv_read_char_indexed = read_char_indexed\<rparr>"

lemma writer_impl_valid: "wf_writer w \<Longrightarrow> \<exists>w'. drv_write_char writer_impl c w = Inr w' \<and> wf_writer w'"
  using write_byte_colored_ok [of w "ascii_character c" "sc_color c"]
  by (auto simp: writer_impl_def write_char_def)

interpretation vga_device: output_device writer_impl wf_writer
  by unfold_locales (rule writer_impl_valid)

lemma write_chars_write_string:
  "wf_writer w \<Longrightarrow> \<forall>c \<in> set s. printable c \<or> c = 0x0A \<Longrightarrow>
   for_each (drv_write_char writer_impl) (map (\<lambda>c. screen_char_new c (w_color w)) s) w = write_string s w"
proof (induction s arbitrary: w)
  case (Cons c s)
  obtain w' where w': "write_byte_colored c (w_color w) w = Inr w'" "wf_writer w'" "w_color w' = w_color w"
    using write_byte_colored_ok [OF Cons.prems(1)] by blast
  then show ?case
    using Cons.IH [OF w'(2)] Cons.prems(2)
    by (simp add: writer_impl_def write_char_def screen_char_new_def write_string_def write_byte_def)
qed (simp add: write_string_def)

text \<open>
  text of printable characters and line feeds sent to the VGA writer character
  by character through a driver, write-only or read-write, never panics and has
  the effect of \<^verbatim>\<open>write_string\<close> on the writer inside; reading from that driver
  always panics.
\<close>

lemma vga_driver_prints:
  assumes "wf_writer w" "\<forall>c \<in> set s. printable c \<or> c = 0x0A"
  defines "cs \<equiv> map (\<lambda>c. screen_char_new c (w_color w)) s"
  shows "\<exists>w'. write_string s w = Inr w' \<and>
      for_each wo_write_char cs (char_new_write_only writer_impl w) = Inr (char_new_write_only writer_impl w') \<and>
      for_each rw_write_char cs (char_new_read_write writer_impl w) = Inr (char_new_read_write writer_impl w') \<and>
      rw_read_char (char_new_read_write writer_impl w') = Inl Unimplemented"
  using vga_device.write_only_text [OF assms(1), of cs] vga_device.read_write_text [OF assms(1), of cs]
    write_chars_write_string [OF assms(1,2)] cs_def
  by (auto simp: rw_read_char_def char_new_read_write_def) (simp add: writer_impl_def read_char_def)

end
