(* ===== verification/Data_Structures.thy ===== *)
theory Data_Structures
  imports Leaf_Prelude
begin

text \<open>
  The containers of src/src/data_structures: the linked list, the doubly linked
  list and the ring buffer. A \<^verbatim>\<open>Box<Option<Node>>\<close> owns the node behind it, so a
  node is a tree of its links. A method on \<^verbatim>\<open>&mut self\<close> returns the changed node;
  one that hands out a mutable reference takes the change that is made through it.
\<close>

section \<open>Linked list\<close>

datatype 'a linked_list_node =
  LinkedListNode (ll_val: 'a) (ll_next: "'a linked_list_node option")

datatype 'a linked_list = LinkedList (ll_head: "'a linked_list_node")

definition ll_node_new :: "'a \<Rightarrow> 'a linked_list_node" where
  "ll_node_new v = LinkedListNode v None"

definition ll_to_list :: "'a linked_list_node \<Rightarrow> 'a linked_list" where
  "ll_to_list n = LinkedList n"

definition ll_node_value :: "'a linked_list_node \<Rightarrow> 'a" where
  "ll_node_value n = ll_val n"

definition ll_node_value_mut :: "('a \<Rightarrow> 'a) \<Rightarrow> 'a linked_list_node \<Rightarrow> 'a linked_list_node" where
  "ll_node_value_mut f n = LinkedListNode (f (ll_val n)) (ll_next n)"

definition ll_node_set_value :: "'a \<Rightarrow> 'a linked_list_node \<Rightarrow> 'a \<times> 'a linked_list_node" where
  "ll_node_set_value v n = (ll_val n, LinkedListNode v (ll_next n))"

definition ll_node_next :: "'a linked_list_node \<Rightarrow> 'a linked_list_node option" where
  "ll_node_next n = ll_next n"

definition ll_node_next_mut ::
    "('a linked_list_node option \<Rightarrow> 'a linked_list_node option) \<Rightarrow> 'a linked_list_node \<Rightarrow> 'a linked_list_node" where
  "ll_node_next_mut f n = LinkedListNode (ll_val n) (f (ll_next n))"

definition ll_replace_next_raw ::
    "'a linked_list_node \<Rightarrow> 'a linked_list_node \<Rightarrow> 'a linked_list_node option \<times> 'a linked_list_node" where
  "ll_replace_next_raw node n = (ll_next n, LinkedListNode (ll_val n) (Some node))"

definition ll_replace_next :: "'a \<Rightarrow> 'a linked_list_node \<Rightarrow> 'a linked_list_node option \<times> 'a linked_list_node" where
  "ll_replace_next v n = (ll_next n, LinkedListNode (ll_val n) (Some (ll_node_new v)))"

definition ll_new :: "'a \<Rightarrow> 'a linked_list" where
  "ll_new v = ll_to_list (ll_node_new v)"

definition ll_value :: "'a linked_list \<Rightarrow> 'a" where
  "ll_value l = ll_val (ll_head l)"

definition ll_value_mut :: "('a \<Rightarrow> 'a) \<Rightarrow> 'a linked_list \<Rightarrow> 'a linked_list" where
  "ll_value_mut f l = LinkedList (LinkedListNode (f (ll_val (ll_head l))) (ll_next (ll_head l)))"

definition ll_set_value :: "'a \<Rightarrow> 'a linked_list \<Rightarrow> 'a \<times> 'a linked_list" where
  "ll_set_value v l = (ll_val (ll_head l), LinkedList (LinkedListNode v (ll_next (ll_head l))))"

definition ll_list_next :: "'a linked_list \<Rightarrow> 'a linked_list_node option" where
  "ll_list_next l = ll_next (ll_head l)"

definition ll_list_next_mut ::
    "('a linked_list_node option \<Rightarrow> 'a linked_list_node option) \<Rightarrow> 'a linked_list \<Rightarrow> 'a linked_list" where
  "ll_list_next_mut f l = LinkedList (LinkedListNode (ll_val (ll_head l)) (f (ll_next (ll_head l))))"

section \<open>Doubly linked list\<close>

datatype 'a doubly_linked_list_node =
  DoublyLinkedListNode (dll_val: 'a)
    (dll_last: "'a doubly_linked_list_node option") (dll_next: "'a doubly_linked_list_node option")

datatype 'a doubly_linked_list = DoublyLinkedList (dll_head: "'a doubly_linked_list_node")

definition dll_node_new :: "'a \<Rightarrow> 'a doubly_linked_list_node" where
  "dll_node_new v = DoublyLinkedListNode v None None"

definition dll_to_list :: "'a doubly_linked_list_node \<Rightarrow> 'a doubly_linked_list" where
  "dll_to_list n = DoublyLinkedList n"

definition dll_node_value :: "'a doubly_linked_list_node \<Rightarrow> 'a" where
  "dll_node_value n = dll_val n"

definition dll_node_value_mut :: "('a \<Rightarrow> 'a) \<Rightarrow> 'a doubly_linked_list_node \<Rightarrow> 'a doubly_linked_list_node" where
  "dll_node_value_mut f n = DoublyLinkedListNode (f (dll_val n)) (dll_last n) (dll_next n)"

definition dll_node_set_value :: "'a \<Rightarrow> 'a doubly_linked_list_node \<Rightarrow> 'a \<times> 'a doubly_linked_list_node" where
  "dll_node_set_value v n = (dll_val n, DoublyLinkedListNode v (dll_last n) (dll_next n))"

definition dll_node_next :: "'a doubly_linked_list_node \<Rightarrow> 'a doubly_linked_list_node option" where
  "dll_node_next n = dll_next n"

definition dll_node_next_mut :: "('a doubly_linked_list_node option \<Rightarrow> 'a doubly_linked_list_node option) \<Rightarrow>
    'a doubly_linked_list_node \<Rightarrow> 'a doubly_linked_list_node" where
  "dll_node_next_mut f n = DoublyLinkedListNode (dll_val n) (dll_last n) (f (dll_next n))"

definition dll_replace_next_raw :: "'a doubly_linked_list_node \<Rightarrow> 'a doubly_linked_list_node \<Rightarrow>
    'a doubly_linked_list_node option \<times> 'a doubly_linked_list_node" where
  "dll_replace_next_raw node n = (dll_next n, DoublyLinkedListNode (dll_val n) (dll_last n) (Some node))"

definition dll_replace_next :: "'a \<Rightarrow> 'a doubly_linked_list_node \<Rightarrow>
    'a doubly_linked_list_node option \<times> 'a doubly_linked_list_node" where
  "dll_replace_next v n = (dll_next n, DoublyLinkedListNode (dll_val n) (dll_last n) (Some (dll_node_new v)))"

definition dll_node_last :: "'a doubly_linked_list_node \<Rightarrow> 'a doubly_linked_list_node option" where
  "dll_node_last n = dll_last n"

definition dll_node_last_mut :: "('a doubly_linked_list_node option \<Rightarrow> 'a doubly_linked_list_node option) \<Rightarrow>
    'a doubly_linked_list_node \<Rightarrow> 'a doubly_linked_list_node" where
  "dll_node_last_mut f n = DoublyLinkedListNode (dll_val n) (f (dll_last n)) (dll_next n)"

definition dll_replace_last_raw :: "'a doubly_linked_list_node \<Rightarrow> 'a doubly_linked_list_node \<Rightarrow>
    'a doubly_linked_list_node option \<times> 'a doubly_linked_list_node" where
  "dll_replace_last_raw node n = (dll_last n, DoublyLinkedListNode (dll_val n) (Some node) (dll_next n))"

definition dll_replace_last :: "'a \<Rightarrow> 'a doubly_linked_list_node \<Rightarrow>
    'a doubly_linked_list_node option \<times> 'a doubly_linked_list_node" where
  "dll_replace_last v n = (dll_last n, DoublyLinkedListNode (dll_val n) (Some (dll_node_new v)) (dll_next n))"

definition dll_new :: "'a \<Rightarrow> 'a doubly_linked_list" where
  "dll_new v = dll_to_list (dll_node_new v)"

definition dll_value :: "'a doubly_linked_list \<Rightarrow> 'a" where
  "dll_value l = dll_val (dll_head l)"

definition dll_value_mut :: "('a \<Rightarrow> 'a) \<Rightarrow> 'a doubly_linked_list \<Rightarrow> 'a doubly_linked_list" where
  "dll_value_mut f l = DoublyLinkedList
     (DoublyLinkedListNode (f (dll_val (dll_head l))) (dll_last (dll_head l)) (dll_next (dll_head l)))"

definition dll_set_value :: "'a \<Rightarrow> 'a doubly_linked_list \<Rightarrow> 'a \<times> 'a doubly_linked_list" where
  "dll_set_value v l = (dll_val (dll_head l), DoublyLinkedList
     (DoublyLinkedListNode v (dll_last (dll_head l)) (dll_next (dll_head l))))"

definition dll_list_next :: "'a doubly_linked_list \<Rightarrow> 'a doubly_linked_list_node option" where
  "dll_list_next l = dll_next (dll_head l)"

definition dll_list_next_mut :: "('a doubly_linked_list_node option \<Rightarrow> 'a doubly_linked_list_node option) \<Rightarrow>
    'a doubly_linked_list \<Rightarrow> 'a doubly_linked_list" where
  "dll_list_next_mut f l = DoublyLinkedList
     (DoublyLinkedListNode (dll_val (dll_head l)) (dll_last (dll_head l)) (f (dll_next (dll_head l))))"

section \<open>Ring buffer\<close>

text \<open>The buffer holds \<open>N\<close> cells; a cell that is not initialized is \<^const>\<open>None\<close>.\<close>

record 'a ring_buffer =
  rb_buffer :: "'a option list"
  rb_offset :: usize

definition rb_capacity :: "'a ring_buffer \<Rightarrow> usize" where
  "rb_capacity r = of_nat (length (rb_buffer r))"

definition rb_length :: "'a ring_buffer \<Rightarrow> usize" where
  "rb_length r = rb_offset r"

definition rb_push_checked :: "'a \<Rightarrow> 'a ring_buffer \<Rightarrow> bool \<times> 'a ring_buffer" where
  "rb_push_checked elem r = (if rb_capacity r \<le> rb_length r then (False, r) else (True, r))"

definition rb_push_unchecked :: "'a \<Rightarrow> 'a ring_buffer \<Rightarrow> 'a ring_buffer" where
  "rb_push_unchecked elem r = r"

section \<open>Lists as sequences\<close>

text \<open>
  The values a list holds, following the links. Cutting the list off behind its
  first node and putting a node there splits and joins such sequences.
\<close>

fun ll_values :: "'a linked_list_node \<Rightarrow> 'a list" where
  "ll_values (LinkedListNode v n) = v # (case n of None \<Rightarrow> [] | Some m \<Rightarrow> ll_values m)"

definition tail_values :: "'a linked_list_node option \<Rightarrow> 'a list" where
  "tail_values n = (case n of None \<Rightarrow> [] | Some m \<Rightarrow> ll_values m)"

lemma ll_values_eq: "ll_values n = ll_val n # tail_values (ll_next n)"
  by (cases n) (simp add: tail_values_def)

lemma ll_values_not_empty [simp]: "ll_values n \<noteq> []" "[] \<noteq> ll_values n"
  by (simp_all add: ll_values_eq)

lemma ll_values_inj: "ll_values m = ll_values n \<longleftrightarrow> m = n"
proof (induction m arbitrary: n)
  case (LinkedListNode v x)
  obtain w y where n: "n = LinkedListNode w y" by (cases n)
  have "tail_values x = tail_values y \<longleftrightarrow> x = y"
    using LinkedListNode
    by (cases x; cases y) (auto simp: tail_values_def)
  then show ?case
    by (simp add: n ll_values_eq)
qed

text \<open>Linked lists are the non-empty sequences: every one of them is built from \<^verbatim>\<open>new\<close> and \<^verbatim>\<open>replace_next_raw\<close>.\<close>

fun ll_build :: "'a \<Rightarrow> 'a list \<Rightarrow> 'a linked_list_node" where
  "ll_build v [] = ll_node_new v"
| "ll_build v (w # ws) = snd (ll_replace_next_raw (ll_build w ws) (ll_node_new v))"

lemma ll_values_build: "ll_values (ll_build v vs) = v # vs"
  by (induction vs arbitrary: v)
    (simp_all add: ll_node_new_def ll_replace_next_raw_def ll_values_eq tail_values_def)

text \<open>
  On the sequence of values of a linked list, \<^verbatim>\<open>replace_next\<close> and \<^verbatim>\<open>replace_next_raw\<close>
  cut off the tail, return it and append the new node's values; putting the
  returned tail back restores the list; \<^verbatim>\<open>set_value\<close> replaces the first value and
  returns the old one; and a sequence determines its list.
\<close>

lemma linked_list_splices:
  "(\<exists>v vs. ll_values n = v # vs \<and> tail_values (fst (ll_replace_next w n)) = vs \<and>
      ll_values (snd (ll_replace_next w n)) = [v, w] \<and>
      tail_values (fst (ll_replace_next_raw m n)) = vs \<and>
      ll_values (snd (ll_replace_next_raw m n)) = v # ll_values m \<and>
      ll_values (snd (ll_node_set_value w n)) = w # vs \<and> fst (ll_node_set_value w n) = v) \<and>
   (case ll_replace_next_raw m n of
      (Some t, n') \<Rightarrow> ll_replace_next_raw t n' = (Some m, n)
    | (None, n') \<Rightarrow> ll_node_next_mut (\<lambda>_. None) n' = n) \<and>
   (ll_values m = ll_values n \<longleftrightarrow> m = n)"
  unfolding ll_values_inj
  by (cases n)
    (auto simp: ll_replace_next_def ll_replace_next_raw_def ll_node_set_value_def ll_node_new_def
      ll_node_next_mut_def tail_values_def split: option.splits)

text \<open>
  No sequence of pushes ever changes a ring buffer, checked or not: the checked push
  keeps reporting success while the buffer has room, without storing the element.
\<close>

lemma ring_buffer_never_stores:
  "fold (\<lambda>x r. snd (rb_push_checked x r)) xs r = r \<and> fold rb_push_unchecked xs r = r \<and>
   (fst (rb_push_checked x r) \<longleftrightarrow> rb_length r < rb_capacity r)"
proof -
  have "snd (rb_push_checked y q) = q" for y :: 'a and q
    by (simp add: rb_push_checked_def)
  then have "fold (\<lambda>x r. snd (rb_push_checked x r)) xs r = r"
    by (induction xs) simp_all
  moreover have "fold rb_push_unchecked xs r = r"
    by (induction xs) (simp_all add: rb_push_unchecked_def)
  ultimately show ?thesis
    by (auto simp: rb_push_checked_def)
qed

end
