(* ===== verification/Running.thy ===== *)
theory Running
  imports Boot Syscall_Props
begin

unbundle bit_operations_syntax

text \<open>
  The running kernel: delivery of interrupts through the descriptor table
  (src/src/interrupts.rs) to the handlers of the other theories, and the system as a
  machine that reacts to events: interrupts of the devices, system calls, and
  tasks running and printing. After \<^verbatim>\<open>kernel_main\<close> the kernel panics in a sequence of
  events only where a message does not fit the heap or the processor refuses a return,
  and the two processes it started take turns.
\<close>

section \<open>Delivery of interrupts\<close>

text \<open>
  What a running kernel takes from outside the repository, besides what a system call
  does: the keyboard crate, the addresses of functions, the allocations the heap
  returns for an idle task, and the texts printed for the state at an exception.
\<close>

record ('kb, 'ev, 'k) platform = syscall_env +
  kb_driver :: "('kb, 'ev, 'k) kb_crate"
  handler_addr :: "handler \<Rightarrow> u64"
  idle_addr :: u64
  new_task :: "sched \<Rightarrow> allocation \<times> allocation"
  frame_fmt :: string
  code_fmt :: string
  cr2_fmt :: string

text \<open>An \<^verbatim>\<open>x86-interrupt\<close> function with the given body: entry, body, epilogue, return.\<close>

definition interrupt_call ::
    "(cpu \<Rightarrow> cpu \<Rightarrow> cpu) \<Rightarrow> u64 \<Rightarrow> (('kb, 'a) kernel_scheme \<Rightarrow> ('kb, 'a) kernel_scheme res) \<Rightarrow>
     ('kb, 'a) kernel_scheme \<Rightarrow> ('kb, 'a) kernel_scheme res" where
  "interrupt_call ep addr body s =
     (let e = interrupt_entry addr s
      in bind_res (body e) (\<lambda>t. Inr (iretq (t\<lparr>CPU := ep (CPU e) (CPU t)\<rparr>))))"

lemma int_0x80_call: "int_0x80 se addr s = interrupt_call (epilogue se) addr (syscall_handler se) s"
  by (simp add: int_0x80_def interrupt_call_def)

text \<open>
  The handlers as the processor calls them. The exception handlers panic and
  \<^verbatim>\<open>page_fault_handler\<close> ends in \<^verbatim>\<open>hlt_loop\<close>: they do not return to the interrupted code.
\<close>

definition run_handler ::
    "('kb, 'ev, 'k) platform \<Rightarrow> handler \<Rightarrow> ('kb, 'a) kernel_scheme \<Rightarrow> ('kb, 'a) kernel_scheme res" where
  "run_handler pf h s =
     (let addr = handler_addr pf h; sc = callee_stack pf;
          call = (\<lambda>body. interrupt_call (epilogue pf) addr (\<lambda>s. bind_res (body s) (\<lambda>s. Inr (call_scratch sc s))) s)
      in case h of
           ExceptionHandler e \<Rightarrow> exception_handler e (frame_fmt pf) (code_fmt pf) (interrupt_entry addr s)
         | PageFaultHandler \<Rightarrow>
             page_fault_handler (ascii (frame_fmt pf)) (ascii (cr2_fmt pf)) (ascii (code_fmt pf)) (interrupt_entry addr s)
         | TimerInterruptHandler \<Rightarrow> call timer_interrupt_handler
         | KeyboardInterruptHandler \<Rightarrow> call (keyboard_interrupt_handler (kb_driver pf))
         | ApicTimerConfigHandler \<Rightarrow> call apic_timer_config_handler
         | ApicTimerHandler \<Rightarrow>
             (let (al, al') = new_task pf (SCHED s)
              in apic_timer_handler sc al al' (idle_addr pf) (interrupt_entry addr s))
         | ApicErrorHandler \<Rightarrow> call apic_error_handler
         | ApicSpuriousHandler \<Rightarrow> call apic_spurious_handler
         | SyscallHandler \<Rightarrow> int_0x80 pf addr s)"

text \<open>A vector without a gate raises the exception for a segment that is not present.\<close>

definition deliver ::
    "('kb, 'ev, 'k) platform \<Rightarrow> usize \<Rightarrow> ('kb, 'a) kernel_scheme \<Rightarrow> ('kb, 'a) kernel_scheme res" where
  "deliver pf v s =
     (case IDT s v of
        None \<Rightarrow> run_handler pf (ExceptionHandler SegmentNotPresent) s
      | Some gate \<Rightarrow> run_handler pf (entry_fn gate) s)"

section \<open>Events\<close>

datatype irq_line = PitLine | KeyboardLine | LapicTimer | LapicError | LapicSpurious

primrec irq_index :: "irq_line \<Rightarrow> interrupt_index" where
  "irq_index PitLine = Timer"
| "irq_index KeyboardLine = Keyboard"
| "irq_index LapicTimer = ApicTimer"
| "irq_index LapicError = ApicError"
| "irq_index LapicSpurious = ApicSpurious"

text \<open>
  An interrupt is delivered unless interrupts are disabled; a task makes a write
  system call, prints, or computes, that is changes registers, flags and memory.
\<close>

datatype sys_event =
    Irq irq_line
  | WriteCall usize usize usize
  | TaskPrint bytes
  | TaskCode cpu u64 mem

primrec occur ::
    "('kb, 'ev, 'k) platform \<Rightarrow> sys_event \<Rightarrow> ('kb, 'a) kernel_scheme \<Rightarrow> ('kb, 'a) kernel_scheme res" where
  "occur pf (Irq l) s =
     (if is_interrupts_enabled s then deliver pf (as_usize (irq_index l)) s else Inr s)"
| "occur pf (WriteCall fd p n) s = deliver pf (as_usize Syscall) (with_args SYS_WRITE fd p n s)"
| "occur pf (TaskPrint t) s = irq_println t s"
| "occur pf (TaskCode c fl m) s = Inr (set_memory m (s\<lparr>CPU := c, rflags := fl\<rparr>))"

text \<open>
  The same with the check of the \<^verbatim>\<open>iretq\<close> that ends an interrupt or a system call: if the
  processor refuses the selectors it is to return with, the handler of the
  general protection fault panics.
\<close>

definition returns_by_iretq :: "sys_event \<Rightarrow> ('kb, 'a) kernel_scheme \<Rightarrow> bool" where
  "returns_by_iretq e s =
     (case e of Irq l \<Rightarrow> is_interrupts_enabled s | WriteCall fd p n \<Rightarrow> True | _ \<Rightarrow> False)"

definition occur_checked ::
    "('kb, 'ev, 'k) platform \<Rightarrow> sys_event \<Rightarrow> ('kb, 'a) kernel_scheme \<Rightarrow> ('kb, 'a) kernel_scheme res" where
  "occur_checked pf e s =
     bind_res (occur pf e s) (\<lambda>t.
       if returns_by_iretq e s \<and> \<not> selectors_ok (reg_cs (CPU t)) (reg_ss (CPU t))
       then exception_handler GeneralProtectionFault (frame_fmt pf) (code_fmt pf) s
       else Inr t)"

section \<open>Machines that seldom panic\<close>

text \<open>
  A machine whose every step that returns from a state of the invariant does so in
  one, related to the one before by a preorder; a step that does not return panics in one
  of the known ways, and never if it fits. Runs do the same.
\<close>

locale total_machine =
  fixes step :: "'e \<Rightarrow> 's \<Rightarrow> 's res"
    and inv :: "'s \<Rightarrow> bool"
    and progress :: "'s \<Rightarrow> 's \<Rightarrow> bool"
    and fits :: "'e \<Rightarrow> bool"
    and known :: "panic \<Rightarrow> bool"
  assumes step_keeps: "inv s \<Longrightarrow> step e s = Inr t \<Longrightarrow> inv t \<and> progress s t"
    and step_total: "inv s \<Longrightarrow> fits e \<Longrightarrow> \<exists>t. step e s = Inr t"
    and step_known: "inv s \<Longrightarrow> step e s = Inl x \<Longrightarrow> known x"
    and progress_refl: "progress s s"
    and progress_trans: "progress s t \<Longrightarrow> progress t u \<Longrightarrow> progress s u"
begin

lemma run_keeps: "inv s \<Longrightarrow> for_each step es s = Inr t \<Longrightarrow> inv t \<and> progress s t"
proof (induction es arbitrary: s)
  case Nil
  then show ?case by (simp add: progress_refl)
next
  case (Cons e es)
  then obtain u where u: "step e s = Inr u" "for_each step es u = Inr t"
    by (auto simp: bind_res_eq_Inr)
  then show ?case
    using Cons.IH [OF _ u(2)] step_keeps [OF Cons.prems(1) u(1)] progress_trans by blast
qed

lemma run_total: "inv s \<Longrightarrow> list_all fits es \<Longrightarrow> \<exists>t. for_each step es s = Inr t"
proof (induction es arbitrary: s)
  case (Cons e es)
  obtain t where "step e s = Inr t" "inv t"
    using step_total [OF Cons.prems(1)] step_keeps [OF Cons.prems(1)] Cons.prems(2) by fastforce
  then show ?case
    using Cons.IH [of t] Cons.prems(2) by simp
qed simp

lemma run_known: "inv s \<Longrightarrow> for_each step es s = Inl x \<Longrightarrow> known x"
proof (induction es arbitrary: s)
  case (Cons e es)
  show ?case
  proof (cases "step e s")
    case (Inl y)
    then show ?thesis
      using Cons.prems(2) step_known [OF Cons.prems(1)] by simp
  next
    case (Inr t)
    then show ?thesis
      using Cons.IH [of t] Cons.prems step_keeps [OF Cons.prems(1)] by simp
  qed
qed simp

end

section \<open>What interrupt entry and return leave alone\<close>

text \<open>Everything of a kernel state but the processor, the flags, the memory and the devices.\<close>

definition sched_view :: "sched \<Rightarrow> sched" where
  "sched_view sc = sc\<lparr>smem := (\<lambda>_. 0)\<rparr>"

definition kernel_view where
  "kernel_view s =
     (WRITER s, SHELL s, INITIALIZED s, IDT s, LAPIC s, lapic_log s, EVENT_HANDLERS s, sched_view (SCHED s))"

lemma sched_view_smem [simp]: "sched_view (sc\<lparr>smem := m\<rparr>) = sched_view sc"
  by (simp add: sched_view_def)

lemma sched_view_eq: "sched_view sc = sched_view sc' \<Longrightarrow> sc' = sc\<lparr>smem := smem sc'\<rparr>"
  by (cases sc; cases sc') (simp add: sched_view_def)

lemma kernel_view_updates [simp]:
  "kernel_view (s\<lparr>CPU := c\<rparr>) = kernel_view s" "kernel_view (s\<lparr>rflags := f\<rparr>) = kernel_view s"
  "kernel_view (set_memory m s) = kernel_view s" "kernel_view (with_args n a b d s) = kernel_view s"
  "kernel_view (s\<lparr>io_log := l\<rparr>) = kernel_view s" "kernel_view (s\<lparr>SEGMENTS := g\<rparr>) = kernel_view s"
  by (simp_all add: kernel_view_def set_memory_def with_args_def)

lemma kernel_view_stack [simp]:
  "kernel_view (push_all vs s) = kernel_view s" "kernel_view (call_scratch sc s) = kernel_view s"
  "kernel_view (iretq s) = kernel_view s" "kernel_view (restore_registers s) = kernel_view s"
  by (simp_all add: push_all_def call_scratch_def iretq_def restore_registers_def Let_def split: prod.split)

lemma kernel_view_entry [simp]:
  "kernel_view (interrupt_entry a s) = kernel_view s" "kernel_view (save_registers s) = kernel_view s"
  "kernel_view (enable_interrupts s) = kernel_view s" "kernel_view (disable_interrupts s) = kernel_view s"
  by (simp_all add: interrupt_entry_def save_registers_def enable_interrupts_def disable_interrupts_def Let_def)

lemma kernel_viewD:
  assumes "kernel_view s = kernel_view t"
  shows "WRITER s = WRITER t" "SHELL s = SHELL t" "INITIALIZED s = INITIALIZED t" "IDT s = IDT t" "LAPIC s = LAPIC t"
    "lapic_log s = lapic_log t" "EVENT_HANDLERS s = EVENT_HANDLERS t" "sched_view (SCHED s) = sched_view (SCHED t)"
  using assms by (simp_all add: kernel_view_def)

section \<open>The invariant\<close>

text \<open>The gates of the running kernel.\<close>

primrec irq_handler :: "irq_line \<Rightarrow> handler" where
  "irq_handler PitLine = TimerInterruptHandler"
| "irq_handler KeyboardLine = KeyboardInterruptHandler"
| "irq_handler LapicTimer = ApicTimerHandler"
| "irq_handler LapicError = ApicErrorHandler"
| "irq_handler LapicSpurious = ApicSpuriousHandler"

definition idt_running :: "(usize \<rightharpoonup> idt_entry) \<Rightarrow> bool" where
  "idt_running d \<longleftrightarrow> (\<forall>l. map_option entry_fn (d (as_usize (irq_index l))) = Some (irq_handler l)) \<and>
     map_option entry_fn (d (as_usize Syscall)) = Some SyscallHandler"

text \<open>Room for the boxes in use and, until it is built, the idle task's.\<close>

definition box_bound :: "nat \<Rightarrow> sched \<Rightarrow> bool" where
  "box_bound n sc \<longleftrightarrow> card (dom (boxes sc)) + (if idle_task sc = None then 1 else 0) \<le> n"

text \<open>The heap has room for two more boxes whenever at most \<open>n\<close> are in use.\<close>

definition heap_serves :: "nat \<Rightarrow> ('kb, 'ev, 'k) platform \<Rightarrow> bool" where
  "heap_serves n pf \<longleftrightarrow>
     (\<forall>sc. card (dom (boxes sc)) \<le> n \<longrightarrow>
        (case new_task pf sc of (al, al') \<Rightarrow>
           alloc_box al \<notin> dom (boxes sc) \<and> alloc_box al' \<notin> dom (boxes sc) \<and> alloc_box al' \<noteq> alloc_box al))"

definition sys_inv :: "nat \<Rightarrow> ('kb, 'ev, 'k) platform \<Rightarrow> ('kb, 'a) kernel_scheme \<Rightarrow> bool" where
  "sys_inv n pf s \<longleftrightarrow>
     wf_console s \<and> LAPIC s \<noteq> None \<and> idt_running (IDT s) \<and> reachable (idle_addr pf) (SCHED s) \<and>
     box_bound n (SCHED s) \<and> heap_serves n pf"

text \<open>How far scheduling has got: each tick re-arms the timer and switches once.\<close>

fun arms_timer :: "lapic_call \<Rightarrow> bool" where
  "arms_timer (SetTimerInitial c) \<longleftrightarrow> True"
| "arms_timer _ \<longleftrightarrow> False"

definition ticks :: "('kb, 'a) irq_scheme \<Rightarrow> nat" where
  "ticks s = length (filter arms_timer (lapic_log s))"

definition switched :: "('kb, 'a) kernel_scheme \<Rightarrow> ('kb, 'a) kernel_scheme \<Rightarrow> bool" where
  "switched s t \<longleftrightarrow> ticks s \<le> ticks t \<and> void_task (SCHED t) = void_task (SCHED s) \<and>
     (current (SCHED t), scheduler (SCHED t)) =
       (rr.switch ^^ (ticks t - ticks s)) (current (SCHED s), scheduler (SCHED s))"

lemma switched_refl: "switched s s"
  by (simp add: switched_def)

lemma switched_trans:
  assumes "switched s t" "switched t u"
  shows "switched s u"
proof -
  have "ticks u - ticks s = (ticks u - ticks t) + (ticks t - ticks s)"
    using assms by (simp add: switched_def)
  then have "rr.switch ^^ (ticks u - ticks s) = rr.switch ^^ (ticks u - ticks t) \<circ> rr.switch ^^ (ticks t - ticks s)"
    by (simp only: funpow_add)
  then show ?thesis
    using assms by (auto simp: switched_def)
qed

text \<open>Steps outside the scheduler: the table, the APIC and the scheduling state stay.\<close>

definition quiet :: "('kb, 'a) kernel_scheme \<Rightarrow> ('kb, 'a) kernel_scheme \<Rightarrow> bool" where
  "quiet s t \<longleftrightarrow> wf_console t \<and> IDT t = IDT s \<and> LAPIC t = LAPIC s \<and>
     sched_view (SCHED t) = sched_view (SCHED s) \<and> ticks t = ticks s"

lemma quiet_inv:
  assumes "sys_inv n pf s" "quiet s t"
  shows "sys_inv n pf t" "switched s t"
proof -
  have t: "SCHED t = (SCHED s)\<lparr>smem := smem (SCHED t)\<rparr>"
    using assms(2) by (intro sched_view_eq) (simp add: quiet_def)
  then have "reachable (idle_addr pf) (SCHED t)"
    using reachable.run [of "idle_addr pf" "SCHED s"] assms(1) unfolding sys_inv_def by metis
  moreover have "boxes (SCHED t) = boxes (SCHED s)" "idle_task (SCHED t) = idle_task (SCHED s)"
      "current (SCHED t) = current (SCHED s)" "scheduler (SCHED t) = scheduler (SCHED s)"
      "void_task (SCHED t) = void_task (SCHED s)"
    using t by (metis sched.select_convs sched.update_convs sched.surjective)+
  ultimately show "sys_inv n pf t" "switched s t"
    using assms by (simp_all add: sys_inv_def quiet_def box_bound_def switched_def)
qed

lemma quiet_view: "wf_console s \<Longrightarrow> kernel_view t = kernel_view s \<Longrightarrow> quiet s t"
  using kernel_viewD [of t s] by (simp add: quiet_def ticks_def)

section \<open>Handlers other than the scheduler's\<close>

definition runs_quietly :: "('kb, 'a) kernel_scheme \<Rightarrow> ('kb, 'a) kernel_scheme res \<Rightarrow> bool" where
  "runs_quietly s r \<longleftrightarrow> (\<exists>t. r = Inr t \<and> quiet s t)"

named_theorems quietly "handlers that leave the scheduler alone"

lemma quiet_trans: "quiet s t \<Longrightarrow> quiet t u \<Longrightarrow> quiet s u"
  by (simp add: quiet_def)

lemma quietly_Inr [quietly]: "quiet s t \<Longrightarrow> runs_quietly s (Inr t)"
  by (simp add: runs_quietly_def)

lemma quietly_bind [quietly]:
  "runs_quietly s r \<Longrightarrow> (\<And>t. quiet s t \<Longrightarrow> runs_quietly t (f t)) \<Longrightarrow> runs_quietly s (bind_res r f)"
  using quiet_trans by (fastforce simp: runs_quietly_def)

lemma quietly_ok [quietly]: "ok s r \<Longrightarrow> runs_quietly s r"
proof -
  assume "ok s r"
  then obtain t where t: "r = Inr t" "wf_console t" "console.more t = console.more s"
    by (auto simp: ok_def settings_def)
  then show ?thesis
    using irq_of_console_more [OF t(3)] kernel_of_console_more [OF t(3)]
    by (simp add: runs_quietly_def quiet_def ticks_def)
qed

lemma quietly_println [quietly]: "wf_console s \<Longrightarrow> runs_quietly s (irq_println t s)"
  using irq_println_ok [of s t] by (auto intro!: quietly_ok simp: ok_def)

lemma quietly_eoi [quietly]:
  "wf_console s \<Longrightarrow> LAPIC s \<noteq> None \<Longrightarrow> runs_quietly s (on_lapic LapicEoi s)"
  "wf_console s \<Longrightarrow> runs_quietly s (end_of_interrupt v s)"
  by (auto simp: runs_quietly_def end_of_interrupt_def has_lapic_def quiet_def ticks_def)

lemma quietly_view [quietly]: "runs_quietly s r \<Longrightarrow> kernel_view s' = kernel_view s \<Longrightarrow> runs_quietly s' r"
  using kernel_viewD [of s' s] by (auto simp: runs_quietly_def quiet_def ticks_def)

lemma quietly_keyboard: "wf_console s \<Longrightarrow> runs_quietly s (keyboard_interrupt_handler kc s)"
proof -
  assume wf: "wf_console s"
  obtain k kb where d: "decode kc (device s (io_log s) 0x60) (KEYBOARD s) = (k, kb)" by fastforce
  let ?s = "s\<lparr>io_log := io_log s @ [Inp 0x60 (device s (io_log s) 0x60)], KEYBOARD := kb\<rparr>"
  have "ok ?s ((case k of Some k \<Rightarrow> dispatch_key kc k | None \<Rightarrow> Inr) ?s)"
    using wf by (simp add: dispatch_key_ok ok_Inr split: option.split)
  then have "runs_quietly ?s (keyboard_interrupt_handler kc s)"
    unfolding keyboard_interrupt_eq [OF d]
    by (intro quietly_bind quietly_ok quietly_eoi) (simp_all add: quiet_def)
  moreover have "kernel_view ?s = kernel_view s"
    by (simp add: kernel_view_def)
  ultimately show ?thesis
    using quietly_view by metis
qed

lemma quietly_call:
  assumes "wf_console s" and body: "\<And>e. wf_console e \<Longrightarrow> LAPIC e = LAPIC s \<Longrightarrow> runs_quietly e (body e)"
  shows "runs_quietly s (interrupt_call ep a (\<lambda>s. bind_res (body s) (\<lambda>s. Inr (call_scratch sc s))) s)"
proof -
  let ?e = "interrupt_entry a s"
  have e: "kernel_view ?e = kernel_view s" by simp
  have "runs_quietly ?e (body ?e)"
    using body [of ?e] kernel_viewD(1,5) [OF e] assms(1) by simp
  then obtain t where t: "body ?e = Inr t" "quiet ?e t"
    by (auto simp: runs_quietly_def)
  let ?u = "iretq ((call_scratch sc t)\<lparr>CPU := ep (CPU ?e) (CPU (call_scratch sc t))\<rparr>)"
  have "quiet t ?u"
    using t(2) by (intro quiet_view) (simp_all add: quiet_def)
  then have "quiet s ?u"
    using quiet_trans [OF _ quiet_trans [OF t(2)]] quiet_view [OF assms(1) e] by blast
  then show ?thesis
    using t(1) by (simp add: runs_quietly_def interrupt_call_def)
qed

text \<open>A step that leaves the scheduler alone or panics for want of room.\<close>

definition no_room :: "panic \<Rightarrow> bool" where
  "no_room x \<longleftrightarrow> (\<exists>n. x = AllocError n 1) \<or> x = Panicked ''capacity overflow''"

definition quiet_or_full :: "('kb, 'a) kernel_scheme \<Rightarrow> ('kb, 'a) kernel_scheme res \<Rightarrow> bool" where
  "quiet_or_full s r \<longleftrightarrow> (case r of Inl x \<Rightarrow> no_room x | Inr t \<Rightarrow> quiet s t)"

lemma quietly_write:
  assumes "wf_console s" "syscall_id args = 1"
  shows "(case handle_syscall room args s of Inl x \<Rightarrow> no_room x | Inr (args', t) \<Rightarrow> quiet s t) \<and>
    ((arg0 args = STDOUT_FD \<longrightarrow> string_fits room (dom (boxes (SCHED s))) (arg2 args)) \<longrightarrow>
      (\<exists>r. handle_syscall room args s = Inr r))"
proof (cases "arg0 args = STDOUT_FD")
  case True
  obtain t where "irq_println (read_bytes (memory s) (arg1 args) (unat (arg2 args))) s = Inr t" "quiet s t"
    using quietly_println [OF assms(1)] unfolding runs_quietly_def by blast
  then show ?thesis
    using True assms(2)
    by (simp add: handle_syscall_def handle_write_def handle_write_fd_def string_from_cases no_room_def)
next
  case False
  then show ?thesis
    using assms quiet_view [of s s] by (simp add: handle_syscall_def handle_write_def handle_write_fd_def)
qed

lemma kernel_view_clobber [simp]: "kernel_view (call_clobber cl s) = kernel_view s"
  by (simp add: call_clobber_def Let_def)

lemma quietly_syscall:
  assumes "wf_console s" "rax (CPU s) = SYS_WRITE"
  shows "quiet_or_full s (int_0x80 se h s)"
    and "(rdi (CPU s) = STDOUT_FD \<longrightarrow> string_fits (string_room se) (dom (boxes (SCHED s))) (rdx (CPU s))) \<Longrightarrow>
      \<exists>t. int_0x80 se h s = Inr t"
proof -
  let ?e = "syscall_entry h s"
  have e: "kernel_view ?e = kernel_view s"
    by (simp add: syscall_entry_def Let_def)
  then have "wf_console ?e" "syscall_id (args_of (CPU s)) = 1"
    using kernel_viewD(1) [OF e] assms by (simp_all add: args_of_def SYS_WRITE_def)
  note w = quietly_write [OF this, of "string_room se"]
  have run: "\<exists>v. int_0x80 se h s = Inr v \<and> quiet s v"
    if t: "handle_syscall (string_room se) (args_of (CPU s)) ?e = Inr (args, t)" for args t
  proof -
    have q: "quiet ?e t"
      using w t by simp
    let ?v = "pop_args (call_clobber (clobber se) (call_scratch (callee_stack se)
      (set_memory (write64 (slot (entry_stack s) 6) (sys_error args) (memory t)) t)))"
    have v: "kernel_view ?v = kernel_view t"
      by (simp add: pop_args_def Let_def split: prod.split)
    then have "wf_console ?v"
      using kernel_viewD(1) [OF v] q by (simp add: quiet_def)
    then obtain u where u: "end_of_interrupt (as_u8 Syscall) ?v = Inr u" "quiet ?v u"
      using quietly_eoi(2) by (auto simp: runs_quietly_def)
    let ?g = "call_clobber (clobber se) (enable_interrupts (call_clobber (clobber se) (call_scratch (callee_stack se) u)))"
    have "int_0x80 se h s = Inr (iretq (?g\<lparr>CPU := epilogue se (CPU (interrupt_entry h s)) (CPU ?g)\<rparr>))"
      using t u(1) by (simp add: int_0x80_def syscall_handler_def syscall_body_eq Let_def)
    moreover have "quiet u (iretq (?g\<lparr>CPU := epilogue se (CPU (interrupt_entry h s)) (CPU ?g)\<rparr>))"
      using u(2) by (intro quiet_view) (simp_all add: quiet_def)
    moreover have "quiet s ?e" "quiet t ?v"
      using quiet_view [OF assms(1) e] quiet_view [OF _ v] q by (simp_all add: quiet_def)
    ultimately show ?thesis
      using quiet_trans q u(2) by blast
  qed
  show "quiet_or_full s (int_0x80 se h s)"
  proof (cases "handle_syscall (string_room se) (args_of (CPU s)) ?e")
    case (Inl x)
    then show ?thesis
      using w by (simp add: quiet_or_full_def int_0x80_def syscall_handler_def syscall_body_eq Let_def)
  next
    case (Inr r)
    then show ?thesis
      using run by (cases r) (auto simp: quiet_or_full_def)
  qed
  assume "rdi (CPU s) = STDOUT_FD \<longrightarrow> string_fits (string_room se) (dom (boxes (SCHED s))) (rdx (CPU s))"
  then obtain r where "handle_syscall (string_room se) (args_of (CPU s)) ?e = Inr r"
    using w by (auto simp: args_of_def syscall_entry_boxes)
  then show "\<exists>t. int_0x80 se h s = Inr t"
    using run by (cases r) auto
qed

section \<open>The tick\<close>

text \<open>At most the idle task's box is new.\<close>

definition idle_growth :: "sched \<Rightarrow> sched \<Rightarrow> bool" where
  "idle_growth sc sc' \<longleftrightarrow> void_task sc' = void_task sc \<and>
     ((idle_task sc' = None \<longleftrightarrow> idle_task sc = None) \<and> dom (boxes sc') = dom (boxes sc) \<or>
      idle_task sc = None \<and> idle_task sc' \<noteq> None \<and> (\<exists>b. dom (boxes sc') = insert b (dom (boxes sc))))"

lemma idle_growth_trans: "idle_growth a b \<Longrightarrow> idle_growth b c \<Longrightarrow> idle_growth a c"
  unfolding idle_growth_def by (elim disjE conjE) auto

lemma builds_idle_growth: "builds_idle al sc sc' \<Longrightarrow> void_task sc' = void_task sc \<Longrightarrow> idle_growth sc sc'"
  unfolding builds_idle_def idle_growth_def by auto

lemma idle_growth_view: "sched_view sc' = sched_view sc \<Longrightarrow> idle_growth sc sc'"
proof -
  assume "sched_view sc' = sched_view sc"
  then have "sc' = sc\<lparr>smem := smem sc'\<rparr>"
    by (intro sched_view_eq) simp
  then have "boxes sc' = boxes sc" "idle_task sc' = idle_task sc" "void_task sc' = void_task sc"
    by (metis sched.select_convs sched.update_convs sched.surjective)+
  then show ?thesis
    by (simp add: idle_growth_def)
qed

lemma store_rsp_growth: "idle_growth sc (store_kernel_rsp p v sc)"
  by (simp add: idle_growth_def)

lemma box_bound_growth:
  assumes "box_bound n sc" "idle_growth sc sc'"
  shows "box_bound n sc'"
proof (cases "dom (boxes sc') = dom (boxes sc)")
  case True
  then show ?thesis
    using assms by (auto simp: idle_growth_def box_bound_def split: if_splits)
next
  case False
  then obtain b where b: "idle_task sc = None" "idle_task sc' \<noteq> None" "dom (boxes sc') = insert b (dom (boxes sc))"
    using assms(2) unfolding idle_growth_def by blast
  have "card (dom (boxes sc')) \<le> Suc (card (dom (boxes sc)))"
    unfolding b(3) by (simp add: card_insert_le_m1)
  then show ?thesis
    using assms(1) b(1,2) by (auto simp: box_bound_def)
qed

lemma restart_apic_frame:
  assumes "restart_apic s = Inr t"
  shows "WRITER t = WRITER s \<and> IDT t = IDT s \<and> LAPIC t = LAPIC s \<and> SCHED t = SCHED s"
  using assms by (auto simp: restart_apic_def start_timer_one_shot_def on_lapic_def split: option.splits)

lemma timer_save_frame:
  assumes "timer_save sc al f s = Inr (p, s')"
  shows "WRITER s' = WRITER s \<and> IDT s' = IDT s \<and> LAPIC s' = LAPIC s \<and> idle_growth (SCHED s) (SCHED s')"
proof -
  obtain t q sd where t: "restart_apic (save_registers s) = Inr t"
      "current_task_ptr al f (SCHED (call_scratch sc t)) = Inr (q, sd)"
      "s' = (let u = call_scratch sc ((call_scratch sc t)\<lparr>SCHED := sd\<rparr>)
             in u\<lparr>SCHED := store_kernel_rsp q (rsp (CPU u)) (SCHED u)\<rparr>)"
    using assms by (auto simp: timer_save_def bind_res_eq_Inr Let_def)
  let ?c = "call_scratch sc t"
  note r = restart_apic_frame [OF t(1)]
  have "sched_view (SCHED ?c) = sched_view (SCHED s)"
    using r kernel_viewD(8) [of "save_registers s" s] by simp
  then have "idle_growth (SCHED s) sd"
    using current_task_frame [OF t(2)] builds_idle_growth idle_growth_trans idle_growth_view by blast
  moreover have "idle_growth sd (SCHED s')"
    unfolding t(3) Let_def
    by (simp add: idle_growth_def)
  ultimately have "idle_growth (SCHED s) (SCHED s')"
    by (rule idle_growth_trans)
  moreover have "WRITER s' = WRITER t \<and> IDT s' = IDT t \<and> LAPIC s' = LAPIC t"
    by (simp add: t(3) Let_def call_scratch_def set_memory_def)
  ultimately show ?thesis
    using r kernel_viewD [of "save_registers s" s] by simp
qed

lemma timer_handler_frame:
  assumes "apic_timer_handler sc al al' f s = Inr s'"
  shows "WRITER s' = WRITER s \<and> IDT s' = IDT s \<and> LAPIC s' = LAPIC s \<and> idle_growth (SCHED s) (SCHED s')"
proof -
  obtain p t where save: "timer_save sc al f s = Inr (p, t)"
    using assms by (auto simp: apic_timer_handler_def bind_res_eq_Inr)
  obtain q sd where q: "select_next_task al' f (SCHED t) = (q, sd)" by fastforce
  let ?v = "call_scratch sc (t\<lparr>SCHED := sd\<rparr>)"
  have s': "timer_resume sc q ?v = Inr s'"
    using assms save q by (simp add: apic_timer_handler_def)
  then have "kernel_view s' = kernel_view ?v"
    by (auto simp: timer_resume_def timer_restore_def tss_ptr_def store_rsp0_def Let_def split: option.splits prod.splits)
  from kernel_viewD [OF this]
  have "WRITER s' = WRITER t" "IDT s' = IDT t" "LAPIC s' = LAPIC t" "sched_view (SCHED s') = sched_view sd"
    by (simp_all add: call_scratch_def set_memory_def)
  moreover have "idle_growth (SCHED t) sd"
    using select_frame [OF q] builds_idle_growth by blast
  ultimately show ?thesis
    using timer_save_frame [OF save] idle_growth_trans idle_growth_view by metis
qed

lemma tick_inv:
  assumes "sys_inv n pf s"
  shows "\<exists>t. run_handler pf ApicTimerHandler s = Inr t \<and> sys_inv n pf t \<and> switched s t"
proof -
  let ?e = "interrupt_entry (handler_addr pf ApicTimerHandler) s"
  obtain al al' where al: "new_task pf (SCHED s) = (al, al')" by fastforce
  have e: "sys_inv n pf ?e" "switched s ?e"
    using quiet_inv [OF assms quiet_view] assms by (simp_all add: sys_inv_def)
  have v: "sched_view (SCHED ?e) = sched_view (SCHED s)"
    using kernel_viewD(8) [of ?e s] by simp
  have "SCHED ?e = (SCHED s)\<lparr>smem := smem (SCHED ?e)\<rparr>"
    by (rule sched_view_eq [OF v [symmetric]])
  then have b: "boxes (SCHED ?e) = boxes (SCHED s)"
    by (metis sched.select_convs(6) sched.update_convs(7) sched.surjective)
  have "card (dom (boxes (SCHED s))) \<le> n"
    using assms by (simp add: sys_inv_def box_bound_def)
  then have fresh: "alloc_box al \<notin> dom (boxes (SCHED ?e))" "alloc_box al' \<notin> dom (boxes (SCHED ?e))"
      "alloc_box al' \<noteq> alloc_box al"
    using assms al b by (auto simp: sys_inv_def heap_serves_def)
  obtain t c where t: "apic_timer_handler (callee_stack pf) al al' (idle_addr pf) ?e = Inr t"
      "reachable (idle_addr pf) (SCHED t)"
      "current (SCHED t) = current (tick al' (idle_addr pf) (SCHED ?e))"
      "scheduler (SCHED t) = scheduler (tick al' (idle_addr pf) (SCHED ?e))"
      "lapic_log t = lapic_log ?e @ [LapicEoi, SetTimerDivide Div64, SetTimerMode OneShot, SetTimerInitial c]"
    using timer_tick_ok [OF _ _ fresh, of "idle_addr pf" "callee_stack pf"] e(1)
    unfolding sys_inv_def by blast
  have "sys_inv n pf t"
    using timer_handler_frame [OF t(1)] t(2) e(1) box_bound_growth by (auto simp: sys_inv_def)
  moreover have "switched ?e t"
    using t(3-5) select_next_switch [of al' "idle_addr pf" "SCHED ?e"] timer_handler_frame [OF t(1)]
    by (simp add: switched_def ticks_def idle_growth_def)
  ultimately show ?thesis
    using t(1) al switched_trans [OF e(2)] by (auto simp: run_handler_def Let_def)
qed

section \<open>Every event is handled\<close>

text \<open>The bodies of the device handlers, the scheduler's apart.\<close>

primrec irq_body ::
    "('kb, 'ev, 'k) platform \<Rightarrow> irq_line \<Rightarrow> ('kb, 'a) kernel_scheme \<Rightarrow> ('kb, 'a) kernel_scheme res" where
  "irq_body pf PitLine = timer_interrupt_handler"
| "irq_body pf KeyboardLine = keyboard_interrupt_handler (kb_driver pf)"
| "irq_body pf LapicTimer = Inr"
| "irq_body pf LapicError = apic_error_handler"
| "irq_body pf LapicSpurious = apic_spurious_handler"

lemma run_handler_call:
  "l \<noteq> LapicTimer \<Longrightarrow> run_handler pf (irq_handler l) s =
     interrupt_call (epilogue pf) (handler_addr pf (irq_handler l))
       (\<lambda>s. bind_res (irq_body pf l s) (\<lambda>s. Inr (call_scratch (callee_stack pf) s))) s"
  by (cases l) (simp_all add: run_handler_def)

lemma quietly_apic_report [quietly]:
  assumes "wf_console s" "LAPIC s \<noteq> None"
  shows "runs_quietly s (apic_error_handler s)" "runs_quietly s (apic_spurious_handler s)"
proof -
  have "runs_quietly s (bind_res (irq_println t s) (on_lapic LapicEoi))" for t
    by (rule quietly_bind [OF quietly_println [OF assms(1)]], rule quietly_eoi) (simp_all add: quiet_def assms(2))
  then show "runs_quietly s (apic_error_handler s)" "runs_quietly s (apic_spurious_handler s)"
    by (simp_all only: apic_error_handler_def apic_spurious_handler_def)
qed

lemma quietly_handlers:
  assumes "sys_inv n pf s" "l \<noteq> LapicTimer"
  shows "runs_quietly s (run_handler pf (irq_handler l) s)"
proof -
  have s: "wf_console s" "LAPIC s \<noteq> None"
    using assms(1) by (simp_all add: sys_inv_def)
  show ?thesis
    unfolding run_handler_call [OF assms(2)]
  proof (rule quietly_call [OF s(1)])
    fix e :: "('a, 'd) kernel_scheme"
    assume e: "wf_console e" "LAPIC e = LAPIC s"
    have "runs_quietly e (timer_interrupt_handler e)"
      unfolding timer_interrupt_handler_def by (rule quietly_eoi(2) [OF e(1)])
    then show "runs_quietly e (irq_body pf l e)"
      using assms(2) quietly_keyboard [OF e(1)] quietly_apic_report [OF e(1)] e(2) s(2) by (cases l) simp_all
  qed
qed

lemma deliver_running:
  assumes "idt_running (IDT s)"
  shows "deliver pf (as_usize (irq_index l)) s = run_handler pf (irq_handler l) s"
    and "deliver pf (as_usize Syscall) s = run_handler pf SyscallHandler s"
proof -
  have "map_option entry_fn (IDT s (as_usize (irq_index l))) = Some (irq_handler l)"
      "map_option entry_fn (IDT s (as_usize Syscall)) = Some SyscallHandler"
    using assms unfolding idt_running_def by blast+
  then show "deliver pf (as_usize (irq_index l)) s = run_handler pf (irq_handler l) s"
    "deliver pf (as_usize Syscall) s = run_handler pf SyscallHandler s"
    unfolding deliver_def by (auto split: option.split)
qed

lemma quietly_inv:
  "sys_inv n pf s \<Longrightarrow> runs_quietly s r \<Longrightarrow> \<exists>t. r = Inr t \<and> sys_inv n pf t \<and> switched s t"
  using quiet_inv by (fastforce simp: runs_quietly_def)

lemma irq_total:
  assumes "sys_inv n pf s"
  shows "\<exists>t. deliver pf (as_usize (irq_index l)) s = Inr t \<and> sys_inv n pf t \<and> switched s t"
proof -
  have "idt_running (IDT s)"
    using assms by (simp add: sys_inv_def)
  then show ?thesis
    using tick_inv [OF assms] quietly_inv [OF assms quietly_handlers [OF assms]] deliver_running(1) [of s pf l]
    by (cases "l = LapicTimer") simp_all
qed

text \<open>A write fits if the heap has room for its message whenever at most \<open>n\<close> boxes are in use.\<close>

definition event_fits :: "nat \<Rightarrow> ('kb, 'ev, 'k) platform \<Rightarrow> sys_event \<Rightarrow> bool" where
  "event_fits n pf e =
     (case e of
        WriteCall fd p k \<Rightarrow> fd = STDOUT_FD \<longrightarrow> (\<forall>bs. card bs \<le> n \<longrightarrow> string_fits (string_room pf) bs k)
      | _ \<Rightarrow> True)"

lemma write_call_full:
  assumes "sys_inv n pf s"
  shows "quiet_or_full s (occur pf (WriteCall fd p k) s)"
    and "event_fits n pf (WriteCall fd p k) \<Longrightarrow> \<exists>t. occur pf (WriteCall fd p k) s = Inr t"
proof -
  let ?w = "with_args SYS_WRITE fd p k s"
  have w: "kernel_view ?w = kernel_view s" by simp
  have d: "occur pf (WriteCall fd p k) s = int_0x80 pf (handler_addr pf SyscallHandler) ?w"
    using deliver_running(2) [of ?w pf] kernel_viewD(4) [OF w] assms by (simp add: sys_inv_def run_handler_def)
  have c: "wf_console ?w" "rax (CPU ?w) = SYS_WRITE"
    using assms by (simp_all add: sys_inv_def)
  have "quiet s ?w"
    using assms w by (intro quiet_view) (simp_all add: sys_inv_def)
  then show "quiet_or_full s (occur pf (WriteCall fd p k) s)"
    unfolding d using quietly_syscall(1) [OF c] quiet_trans by (fastforce simp: quiet_or_full_def split: sum.splits)
  assume "event_fits n pf (WriteCall fd p k)"
  moreover have "card (dom (boxes (SCHED s))) \<le> n"
    using assms by (simp add: sys_inv_def box_bound_def)
  ultimately show "\<exists>t. occur pf (WriteCall fd p k) s = Inr t"
    unfolding d by (intro quietly_syscall(2) [OF c]) (simp add: event_fits_def)
qed

lemma occur_cases:
  assumes "sys_inv n pf s"
  shows "case occur pf e s of Inl x \<Rightarrow> no_room x | Inr t \<Rightarrow> sys_inv n pf t \<and> switched s t"
    and "event_fits n pf e \<Longrightarrow> \<exists>t. occur pf e s = Inr t"
proof -
  have "\<exists>t. occur pf e s = Inr t \<and> sys_inv n pf t \<and> switched s t" if "\<nexists>fd p k. e = WriteCall fd p k"
  proof (cases e)
    case (Irq l)
    then show ?thesis
      using irq_total [OF assms, of l] assms by (simp add: switched_refl)
  next
    case (TaskPrint t)
    then show ?thesis
      using quietly_inv [OF assms quietly_println] assms by (simp add: sys_inv_def)
  next
    case (TaskCode c fl m)
    have "quiet s (set_memory m (s\<lparr>CPU := c, rflags := fl\<rparr>))"
      using assms by (intro quiet_view) (simp_all add: sys_inv_def)
    then show ?thesis
      using TaskCode quiet_inv [OF assms] by simp
  qed (use that in blast)
  then show "case occur pf e s of Inl x \<Rightarrow> no_room x | Inr t \<Rightarrow> sys_inv n pf t \<and> switched s t"
    "event_fits n pf e \<Longrightarrow> \<exists>t. occur pf e s = Inr t"
    using write_call_full [OF assms] quiet_inv [OF assms]
    by (fastforce simp: quiet_or_full_def split: sum.splits)+
qed

lemma occur_keeps: "sys_inv n pf s \<Longrightarrow> occur pf e s = Inr t \<Longrightarrow> sys_inv n pf t \<and> switched s t"
  using occur_cases(1) [of n pf s e] by simp

lemma occur_known: "sys_inv n pf s \<Longrightarrow> occur pf e s = Inl x \<Longrightarrow> no_room x"
  using occur_cases(1) [of n pf s e] by simp

interpretation running: total_machine "occur pf" "sys_inv n pf" switched "event_fits n pf" no_room for pf n
  by unfold_locales (use occur_keeps occur_known occur_cases(2) switched_refl switched_trans in blast)+

text \<open>With the check, a run ends as without it, or in the fault.\<close>

lemma checked_run:
  "for_each (occur_checked pf) es s = for_each (occur pf) es s \<or>
   for_each (occur_checked pf) es s = exception_handler GeneralProtectionFault (frame_fmt pf) (code_fmt pf) s"
proof (induction es arbitrary: s)
  case (Cons e es)
  show ?case
  proof (cases "occur pf e s")
    case (Inr t)
    then show ?thesis
      using Cons [of t] by (auto simp: occur_checked_def exception_handler_def)
  qed (simp add: occur_checked_def)
qed simp

section \<open>From power on\<close>

lemma boot_sched_boxes:
  "dom (boxes (boot_sched env m)) = {alloc_box (env_void env), alloc_box (env_first env), alloc_box (env_second env)}"
  "idle_task (boot_sched env m) = None" "current (boot_sched env m) = None"
  "tasks (scheduler (boot_sched env m)) =
     [(process_new 1 Runnable, alloc_box (env_first env)), (process_new 2 Runnable, alloc_box (env_second env))]"
  by (auto simp: boot_sched_def boot_sched_defs Let_def split: prod.splits)

lemma boot_box_bound: "box_bound 4 (boot_sched env m)"
proof -
  have "card {alloc_box (env_void env), alloc_box (env_first env), alloc_box (env_second env)} \<le> 3"
    by (simp add: card_insert_le_m1)
  then show ?thesis
    by (simp add: box_bound_def boot_sched_boxes)
qed

lemma booted_inv:
  assumes "boot_ready env wake fuel bi m s" "heap_serves 4 pf" "idle_addr pf = env_idle_fn env"
  shows "\<exists>table allocator t. kernel_main env wake fuel bi h s =
      Some (Inr (table, allocator, env_heap_init env HEAP_START HEAP_SIZE h, t)) \<and>
    sys_inv 4 pf t \<and> SCHED t = boot_sched env m \<and> is_interrupts_enabled t"
proof -
  obtain table allocator t where t: "kernel_main env wake fuel bi h s =
      Some (Inr (table, allocator, env_heap_init env HEAP_START HEAP_SIZE h, t))"
      "editing (cs_chars (prompt shell_static)) (take 24 (buffer (WRITER t))) [] t" "is_interrupts_enabled t" "LAPIC t \<noteq> None"
      "\<forall>i. i \<noteq> Invalid \<longrightarrow> map_option entry_fn (IDT t (as_usize i)) =
         (if i = ApicTimer then Some ApicTimerHandler else index_handler i)" "SCHED t = boot_sched env m"
    using kernel_main_ok [OF assms(1), of h] by blast
  have "map_option entry_fn (IDT t (as_usize (irq_index l))) = Some (irq_handler l)" for l
    using t(5) by (cases l) simp_all
  then have "idt_running (IDT t)"
    using t(5) by (simp add: idt_running_def)
  moreover have "reachable (idle_addr pf) (SCHED t)"
    using boot_sched_reachable [of env m] assms(1,3) t(6) by (simp add: boot_ready_def)
  ultimately show ?thesis
    using t assms(2) boot_box_bound by (simp add: sys_inv_def editing_def)
qed

text \<open>The process that runs after a number of switches.\<close>

definition turn :: "('g, 'm, 'h) boot_env \<Rightarrow> nat \<Rightarrow> task option" where
  "turn env k =
     (if k = 0 then None
      else if odd k then Some (process_new 2 Runnable, alloc_box (env_second env))
      else Some (process_new 1 Runnable, alloc_box (env_first env)))"

lemma boot_turns: "fst ((rr.switch ^^ k) (None, scheduler (boot_sched env m))) = turn env k"
proof (cases k)
  case (Suc n)
  let ?t1 = "(process_new 1 Runnable, alloc_box (env_first env))"
    and ?t2 = "(process_new 2 Runnable, alloc_box (env_second env))"
  obtain r where r: "rr.switch (None, scheduler (boot_sched env m)) = (Some ?t2, r)" "rev (tasks r) = [?t1]"
    using rr.switch_head [of "scheduler (boot_sched env m)" ?t2 "[?t1]" None] by (auto simp: boot_sched_boxes)
  have "fst ((rr.switch ^^ n) (Some ?t2, r)) = Some ([?t2, ?t1] ! (n mod 2))"
    using rr.running_after [of r n ?t2] r(2) by (simp add: numeral_2_eq_2)
  moreover have "n mod 2 = (if even n then 0 else 1)"
    by (simp add: even_iff_mod_2_eq_zero)
  ultimately have "fst ((rr.switch ^^ n) (Some ?t2, r)) = Some (if even n then ?t2 else ?t1)"
    by simp
  then show ?thesis
    using Suc r(1) by (simp add: funpow_Suc_right turn_def del: funpow.simps)
qed (simp add: turn_def)

text \<open>A platform whose heap has six addresses for boxes, on the machine that boots.\<close>

definition example_new_task :: "sched \<Rightarrow> allocation \<times> allocation" where
  "example_new_task sc =
     (let free = filter (\<lambda>a. boxes sc a = None) [0x101000, 0x102000, 0x103000, 0x104000, 0x105000, 0x106000]
      in (example_alloc (free ! 0), example_alloc (free ! 1)))"

definition example_platform :: "(unit, u8, unit) platform" where
  "example_platform =
     \<lparr>epilogue = (\<lambda>c _. c), clobber = (\<lambda>c. c\<lparr>rax := 77\<rparr>), callee_stack = (\<lambda>_ m. m),
      string_room = (\<lambda>_ n. n \<le> 2048), kb_driver = example_kb, handler_addr = (\<lambda>_. 0x700),
      idle_addr = 0x400, new_task = example_new_task, frame_fmt = [], code_fmt = [], cr2_fmt = []\<rparr>"

lemma two_free:
  fixes m :: "u64 \<rightharpoonup> 'v"
  assumes "card (dom m) \<le> 4" "distinct cs" "length cs = 6" and fs: "fs = filter (\<lambda>a. m a = None) cs"
  shows "fs ! 0 \<notin> dom m \<and> fs ! 1 \<notin> dom m \<and> fs ! 1 \<noteq> fs ! 0"
proof -
  let ?us = "filter (\<lambda>a. m a \<noteq> None) cs"
  have "distinct ?us" "set ?us \<subseteq> dom m"
    using assms(2) by (auto simp only: distinct_filter set_filter domIff)
  then have "length ?us \<le> card (dom m)"
    using distinct_card [of ?us] card_mono [of "dom m" "set ?us"] by simp
  then have "2 \<le> length fs"
    using assms(1,3) fs sum_length_filter_compl [of "\<lambda>a. m a = None" cs] by simp
  then have "0 < length fs" "1 < length fs" by linarith+
  moreover have "distinct fs"
    using assms(2) fs by simp
  ultimately have "fs ! 0 \<in> set fs" "fs ! 1 \<in> set fs" "fs ! 1 \<noteq> fs ! 0"
    using nth_eq_iff_index_eq [of fs 1 0] by (simp_all add: nth_mem del: length_greater_0_conv)
  then show ?thesis
    using fs by auto
qed

lemma example_heap_serves: "heap_serves 4 example_platform"
  unfolding heap_serves_def
proof (intro allI impI)
  fix sc :: sched
  assume "card (dom (boxes sc)) \<le> 4"
  from two_free [OF this _ _ refl, of "[0x101000, 0x102000, 0x103000, 0x104000, 0x105000, 0x106000]"]
  show "case new_task example_platform sc of (al, al') \<Rightarrow>
      alloc_box al \<notin> dom (boxes sc) \<and> alloc_box al' \<notin> dom (boxes sc) \<and> alloc_box al' \<noteq> alloc_box al"
    by (simp add: example_platform_def example_new_task_def example_alloc_def Let_def del: filter.simps)
qed

lemma example_boot_ready: "boot_ready example_env example_wake 5 example_info (\<lambda>_. 0) example_machine"
proof -
  have "(0x8000 :: u16) \<noteq> 0xFFFF" "(2 :: nat) < 5"
    by simp_all
  then show ?thesis
    using example_memory_ready example_power_on example_notices(1) unfolding boot_ready_def by blast
qed

lemma example_idle: "idle_addr example_platform = env_idle_fn example_env"
  by (simp add: example_platform_def example_env_def)

section \<open>Properties\<close>

text \<open>
  C2: The running kernel panics in known ways only. After \<^verbatim>\<open>kernel_main\<close>, whatever
  sequence of device interrupts, write system calls to any descriptor with any buffer,
  prints and task code occurs, in whatever order: if the heap has room for each
  message written to the screen while at most four boxes are in use, every event is handled
  to its end, the screen buffer stays in shape and the scheduling state reachable, so
  that all its invariants hold. Without that room the only panics are those
  of the allocation of a message. And if the processor checks the selectors each
  handler returns with, the run is the same or ends in the general protection fault.
  The heap must have room for two boxes while at most four are in use; exceptions that
  task code raises are not events here.
\<close>

theorem running_kernel_total:
  assumes "boot_ready env wake fuel bi m s" "heap_serves 4 pf" "idle_addr pf = env_idle_fn env"
  shows "\<exists>table allocator h' t. kernel_main env wake fuel bi h s = Some (Inr (table, allocator, h', t)) \<and>
    (\<forall>es. list_all (event_fits 4 pf) es \<longrightarrow> (\<exists>u. for_each (occur pf) es t = Inr u)) \<and>
    (\<forall>es u. for_each (occur pf) es t = Inr u \<longrightarrow> wf_console u \<and> reachable (env_idle_fn env) (SCHED u)) \<and>
    (\<forall>es x. for_each (occur pf) es t = Inl x \<longrightarrow> (\<exists>n. x = AllocError n 1) \<or> x = Panicked ''capacity overflow'') \<and>
    (\<forall>es. for_each (occur_checked pf) es t = for_each (occur pf) es t \<or>
       for_each (occur_checked pf) es t =
         exception_handler GeneralProtectionFault (frame_fmt pf) (code_fmt pf) t)"
proof -
  obtain table allocator t where t: "kernel_main env wake fuel bi h s =
      Some (Inr (table, allocator, env_heap_init env HEAP_START HEAP_SIZE h, t))" "sys_inv 4 pf t"
    using booted_inv [OF assms] by blast
  have "wf_console u \<and> reachable (env_idle_fn env) (SCHED u)" if "for_each (occur pf) es t = Inr u" for es u
    using running.run_keeps [OF t(2) that] assms(3) by (simp add: sys_inv_def)
  moreover have "(\<exists>n. x = AllocError n 1) \<or> x = Panicked ''capacity overflow''"
    if "for_each (occur pf) es t = Inl x" for es x
    using running.run_known [OF t(2) that] by (simp add: no_room_def)
  ultimately show ?thesis
    using t(1) running.run_total [OF t(2)] checked_run [of pf _ t] by blast
qed

text \<open>
  C5: Whatever happens between the ticks, the two processes \<^verbatim>\<open>kernel_main\<close> starts take
  turns: none runs before the first tick after boot, and after the \<open>k\<close>-th one (the
  timer has been re-armed \<open>k\<close> times) the process started second runs if \<open>k\<close> is odd
  and the one started first if it is even.
\<close>

theorem processes_take_turns:
  assumes "boot_ready env wake fuel bi m s" "heap_serves 4 pf" "idle_addr pf = env_idle_fn env"
    and "kernel_main env wake fuel bi h s = Some (Inr (table, allocator, h', t))"
    and "for_each (occur pf) es t = Inr u"
  shows "ticks t \<le> ticks u \<and> current (SCHED u) = turn env (ticks u - ticks t)"
proof -
  have t: "sys_inv 4 pf t" "SCHED t = boot_sched env m"
    using booted_inv [OF assms(1-3), of h] assms(4) by auto
  have "switched t u"
    using running.run_keeps [OF t(1) assms(5)] by simp
  then have "ticks t \<le> ticks u"
      "(current (SCHED u), scheduler (SCHED u)) =
        (rr.switch ^^ (ticks u - ticks t)) (None, scheduler (boot_sched env m))"
    by (simp_all add: switched_def t(2) boot_sched_boxes)
  then show ?thesis
    by (metis boot_turns fst_conv)
qed

lemma select_not_void:
  assumes "reachable f s" "alloc_box al \<notin> dom (boxes s)" "void_task s = Some v"
  shows "fst (select_next_task al f s) \<noteq> v"
proof -
  obtain p s' where p: "select_next_task al f s = (p, s')" by fastforce
  then have "boxes_ok s'"
    using reachable_inv reachable.select [OF assms(1,2) p] by blast
  then have "distinct (box_addrs s')" "void_task s' = Some v"
    using select_frame [OF p] assms(3) by (simp_all add: boxes_ok_def)
  moreover have "p \<in> snd ` set (all_tasks s') \<union> snd ` set (opt_list (idle_task s'))"
    using p by (auto simp: select_next_task_def Let_def get_idle_task_simps all_tasks_def
        split: prod.splits option.splits)
  ultimately show ?thesis
    using p by (auto simp: box_addrs_def)
qed

text \<open>
  C25: The context of \<^verbatim>\<open>kernel_main\<close> is given up at the first tick: it is saved through
  the box of \<^verbatim>\<open>VOID_TASK\<close>, and no later tick, whatever happens in between, resumes that
  box. What \<^verbatim>\<open>kernel_main\<close> has not done by then is never done.
\<close>

theorem boot_thread_abandoned:
  assumes "boot_ready env wake fuel bi m s" "heap_serves 4 pf" "idle_addr pf = env_idle_fn env"
    and "kernel_main env wake fuel bi h s = Some (Inr (table, allocator, h', t))"
    and "for_each (occur pf) es t = Inr u" "alloc_box al' \<notin> dom (boxes (SCHED u))"
  shows "(\<exists>sc. current_task_ptr al (env_idle_fn env) (SCHED t) = Inr (alloc_box (env_void env), sc)) \<and>
    fst (select_next_task al' (env_idle_fn env) (SCHED u)) \<noteq> alloc_box (env_void env)"
proof -
  have t: "sys_inv 4 pf t" "SCHED t = boot_sched env m"
    using booted_inv [OF assms(1-3), of h] assms(4) by auto
  have v: "void_task (boot_sched env m) = Some (alloc_box (env_void env))"
      "\<not> initialized (boot_sched env m)" "current (boot_sched env m) = None"
    by (simp_all add: boot_sched_def boot_sched_defs Let_def split: prod.splits)
  have "sys_inv 4 pf u" "switched t u"
    using running.run_keeps [OF t(1) assms(5)] by simp_all
  then have "reachable (env_idle_fn env) (SCHED u)" "void_task (SCHED u) = Some (alloc_box (env_void env))"
    using assms(3) t(2) v(1) by (simp_all add: sys_inv_def switched_def)
  then show ?thesis
    using select_not_void assms(6) v t(2) by (simp add: current_task_ptr_def Let_def)
qed

section \<open>Instances\<close>

theorem running_kernel_total_witness:
  "\<exists>table allocator h' t u. kernel_main example_env example_wake 5 example_info None example_machine =
      Some (Inr (table, allocator, h', t)) \<and>
    for_each (occur example_platform) [TaskPrint [0x41], Irq LapicTimer, WriteCall 1 0x9000 3, Irq KeyboardLine] t = Inr u"
proof -
  have "list_all (event_fits 4 example_platform)
      [TaskPrint [0x41], Irq LapicTimer, WriteCall 1 0x9000 3, Irq KeyboardLine]"
    by (simp add: event_fits_def string_fits_def example_platform_def)
  then show ?thesis
    using running_kernel_total [OF example_boot_ready example_heap_serves example_idle, of None] by blast
qed

lemma example_boot_run:
  "\<exists>table allocator h' t u. kernel_main example_env example_wake 5 example_info None example_machine =
      Some (Inr (table, allocator, h', t)) \<and> for_each (occur example_platform) [Irq LapicTimer] t = Inr u"
proof -
  have "list_all (event_fits 4 example_platform) [Irq LapicTimer]"
    by (simp add: event_fits_def)
  then show ?thesis
    using booted_inv [OF example_boot_ready example_heap_serves example_idle, of None] running.run_total by blast
qed

theorem processes_take_turns_witness:
  "\<exists>table allocator h' t u. kernel_main example_env example_wake 5 example_info None example_machine =
      Some (Inr (table, allocator, h', t)) \<and> for_each (occur example_platform) [Irq LapicTimer] t = Inr u \<and>
    current (SCHED u) = turn example_env (ticks u - ticks t)"
  using example_boot_run processes_take_turns [OF example_boot_ready example_heap_serves example_idle, of None] by blast

theorem boot_thread_abandoned_witness:
  "\<exists>table allocator h' t sc. kernel_main example_env example_wake 5 example_info None example_machine =
      Some (Inr (table, allocator, h', t)) \<and>
    current_task_ptr (example_alloc 0) 0x400 (SCHED t) = Inr (0x10000, sc) \<and>
    fst (select_next_task (example_alloc 0x90000) 0x400 (SCHED t)) \<noteq> 0x10000"
proof -
  obtain table allocator t where t: "kernel_main example_env example_wake 5 example_info None example_machine =
      Some (Inr (table, allocator, env_heap_init example_env HEAP_START HEAP_SIZE None, t))"
      "SCHED t = boot_sched example_env (\<lambda>_. 0)"
    using booted_inv [OF example_boot_ready example_heap_serves example_idle, of None] by blast
  have "alloc_box (example_alloc 0x90000) \<notin> dom (boxes (SCHED t))"
    "alloc_box (env_void example_env) = 0x10000" "env_idle_fn example_env = 0x400"
    by (simp_all add: t(2) boot_sched_boxes example_env_def example_alloc_def)
  then show ?thesis
    using boot_thread_abandoned [OF example_boot_ready example_heap_serves example_idle t(1), of "[]" t]
    by (metis for_each.simps(1) t(1))
qed

end
