(* ===== verification/Testing.thy ===== *)
theory Testing
  imports Running
begin

text \<open>
  The test harness of src/src/lib.rs, its copy in src/src/main.rs and the serial port
  both report through (src/src/serial.rs), with the tests of the library
  (src/src/vga_buffer.rs, src/src/interrupts.rs) and of the binary. The serial driver is
  the uart_16550 crate's, a parameter that reads and writes ports. A test is a
  closure: it changes the state and may panic.
\<close>

section \<open>The serial port\<close>

text \<open>\<^verbatim>\<open>SERIAL1\<close> is initialised on first use.\<close>

record ('kb, 'u) harness = "'kb kernel" +
  SERIAL1 :: "'u option"

type_synonym ports = "io_event list \<Rightarrow> u16 \<Rightarrow> u8"

record 'u uart_crate =
  uart_open :: "ports \<Rightarrow> io_event list \<Rightarrow> 'u \<times> io_event list"
  uart_send :: "ports \<Rightarrow> u8 \<Rightarrow> 'u \<times> io_event list \<Rightarrow> 'u \<times> io_event list"

definition serial_print :: "'u uart_crate \<Rightarrow> bytes \<Rightarrow> ('kb, 'u) harness \<Rightarrow> ('kb, 'u) harness" where
  "serial_print c args s =
     (let us = (case SERIAL1 s of Some u \<Rightarrow> (u, io_log s) | None \<Rightarrow> uart_open c (device s) (io_log s));
          (u, log) = fold (uart_send c (device s)) args us
      in s\<lparr>SERIAL1 := Some u, io_log := log\<rparr>)"

definition serial_println :: "'u uart_crate \<Rightarrow> bytes \<Rightarrow> ('kb, 'u) harness \<Rightarrow> ('kb, 'u) harness" where
  "serial_println c args = serial_print c (args @ [0x0A])"

section \<open>Running tests\<close>

record ('kb, 'u) testable =
  test_name :: string
  test_body :: "('kb, 'u) harness \<Rightarrow> ('kb, 'u) harness \<times> panic option"

definition run_test ::
    "'u uart_crate \<Rightarrow> ('kb, 'u) testable \<Rightarrow> ('kb, 'u) harness \<Rightarrow> ('kb, 'u) harness \<times> panic option" where
  "run_test c t s =
     (case test_body t (serial_print c (ascii (test_name t) @ ascii ''...'' @ [0x09]) s) of
        (s, Some e) \<Rightarrow> (s, Some e)
      | (s, None) \<Rightarrow> (serial_println c (ascii ''[ok]'') s, None))"

fun run_tests ::
    "'u uart_crate \<Rightarrow> ('kb, 'u) testable list \<Rightarrow> ('kb, 'u) harness \<Rightarrow> ('kb, 'u) harness \<times> panic option" where
  "run_tests c [] s = (s, None)"
| "run_tests c (t # ts) s =
     (case run_test c t s of (s, Some e) \<Rightarrow> (s, Some e) | (s, None) \<Rightarrow> run_tests c ts s)"

definition test_runner ::
    "'u uart_crate \<Rightarrow> ('kb, 'u) testable list \<Rightarrow> ('kb, 'u) harness \<Rightarrow> ('kb, 'u) harness \<times> panic option" where
  "test_runner c tests s =
     (case run_tests c tests
         (serial_println c (ascii ''Running '' @ decimal (length tests) @ ascii '' tests'') s) of
        (s, Some e) \<Rightarrow> (s, Some e)
      | (s, None) \<Rightarrow> (exit_qemu Success s, None))"

definition test_panic_handler :: "'u uart_crate \<Rightarrow> bytes \<Rightarrow> ('kb, 'u) harness \<Rightarrow> ('kb, 'u) harness" where
  "test_panic_handler c info s =
     (let s = serial_println c (ascii ''[failed]'' @ [0x0A]) s;
          s = serial_println c (ascii ''Error: '' @ info @ [0x0A]) s
      in exit_qemu Failed s)"

text \<open>
  \<^verbatim>\<open>test_kernel_main\<close> up to its \<^verbatim>\<open>hlt_loop\<close>; a panic ends in the panic handler, with the
  text \<open>fmt\<close> gives for it.
\<close>

definition test_kernel_main ::
    "'u uart_crate \<Rightarrow> ('g, 'm, 'h) boot_env \<Rightarrow> (panic \<Rightarrow> bytes) \<Rightarrow> ('kb, 'u) testable list \<Rightarrow>
     ('kb, 'u) harness \<Rightarrow> ('kb, 'u) harness" where
  "test_kernel_main c env fmt tests s =
     (case test_runner c tests (leaf_init env s) of
        (s, None) \<Rightarrow> s
      | (s, Some e) \<Rightarrow> test_panic_handler c (fmt e) s)"

section \<open>The harness of the binary\<close>

definition main_exit_qemu :: "qemu_exit_code \<Rightarrow> ('kb, 'u) harness \<Rightarrow> ('kb, 'u) harness" where
  "main_exit_qemu exit_code s = port_write_u32 0xf4 (qemu_exit_code_u32 exit_code) s"

definition main_run_test ::
    "'u uart_crate \<Rightarrow> ('kb, 'u) testable \<Rightarrow> ('kb, 'u) harness \<Rightarrow> ('kb, 'u) harness \<times> panic option" where
  "main_run_test c t s =
     (case test_body t (serial_print c (ascii (test_name t) @ ascii ''...'' @ [0x09]) s) of
        (s, Some e) \<Rightarrow> (s, Some e)
      | (s, None) \<Rightarrow> (serial_println c (ascii ''[ok]'') s, None))"

fun main_run_tests ::
    "'u uart_crate \<Rightarrow> ('kb, 'u) testable list \<Rightarrow> ('kb, 'u) harness \<Rightarrow> ('kb, 'u) harness \<times> panic option" where
  "main_run_tests c [] s = (s, None)"
| "main_run_tests c (t # ts) s =
     (case main_run_test c t s of (s, Some e) \<Rightarrow> (s, Some e) | (s, None) \<Rightarrow> main_run_tests c ts s)"

definition main_test_runner ::
    "'u uart_crate \<Rightarrow> ('kb, 'u) testable list \<Rightarrow> ('kb, 'u) harness \<Rightarrow> ('kb, 'u) harness \<times> panic option" where
  "main_test_runner c tests s =
     (case main_run_tests c tests
         (serial_println c (ascii ''Running '' @ decimal (length tests) @ ascii '' tests'') s) of
        (s, Some e) \<Rightarrow> (s, Some e)
      | (s, None) \<Rightarrow> (main_exit_qemu Success s, None))"

definition main_test_panic :: "'u uart_crate \<Rightarrow> bytes \<Rightarrow> ('kb, 'u) harness \<Rightarrow> ('kb, 'u) harness" where
  "main_test_panic c info s =
     (let s = serial_println c (ascii ''[failed]'' @ [0x0A]) s;
          s = serial_println c (ascii ''Error: '' @ info @ [0x0A]) s
      in main_exit_qemu Failed s)"

text \<open>\<^verbatim>\<open>test_main\<close> where \<^verbatim>\<open>kernel_main\<close> calls it, with the panic handler of the test build.\<close>

definition main_test_main ::
    "'u uart_crate \<Rightarrow> (panic \<Rightarrow> bytes) \<Rightarrow> ('kb, 'u) testable list \<Rightarrow> ('kb, 'u) harness \<Rightarrow> ('kb, 'u) harness" where
  "main_test_main c fmt tests s =
     (case main_test_runner c tests s of
        (s, None) \<Rightarrow> s
      | (s, Some e) \<Rightarrow> main_test_panic c (fmt e) s)"

section \<open>The tests\<close>

definition of_res :: "('s \<Rightarrow> 's res) \<Rightarrow> 's \<Rightarrow> 's \<times> panic option" where
  "of_res f s = (case f s of Inl e \<Rightarrow> (s, Some e) | Inr t \<Rightarrow> (t, None))"

definition test_println_simple :: "('kb, 'u) testable" where
  "test_println_simple =
     \<lparr>test_name = ''LeafOS::vga_buffer::test_println_simple'',
      test_body = of_res (irq_println (ascii ''test_println_simple output''))\<rparr>"

definition test_println_many :: "('kb, 'u) testable" where
  "test_println_many =
     \<lparr>test_name = ''LeafOS::vga_buffer::test_println_many'',
      test_body = of_res (for_each (\<lambda>_. irq_println (ascii ''test_println_many output'')) [0..<200])\<rparr>"

definition output_text :: bytes where
  "output_text = ascii ''Some test string that fits on a single line''"

text \<open>The loop over the characters with \<^verbatim>\<open>assert_eq\<close>.\<close>

fun check_row :: "(nat \<times> u8) list \<Rightarrow> writer \<Rightarrow> panic option" where
  "check_row [] w = None"
| "check_row ((i, c) # ics) w =
     (case buf_read (BUFFER_HEIGHT - 2) i w of
        Inl e \<Rightarrow> Some e
      | Inr screen_char \<Rightarrow> if ascii_character screen_char = c then check_row ics w else Some AssertFailed)"

definition test_println_output :: "('kb, 'u) testable" where
  "test_println_output =
     \<lparr>test_name = ''LeafOS::vga_buffer::test_println_output'',
      test_body = (\<lambda>s. case irq_println output_text s of
          Inl e \<Rightarrow> (s, Some e)
        | Inr s \<Rightarrow> (s, check_row (enumerate 0 output_text) (WRITER s)))\<rparr>"

text \<open>\<^verbatim>\<open>int3\<close> goes through the gate of the breakpoint exception.\<close>

definition test_breakpoint_exception :: "('kb, 'ev, 'k) platform \<Rightarrow> ('kb, 'u) testable" where
  "test_breakpoint_exception pf =
     \<lparr>test_name = ''LeafOS::interrupts::test_breakpoint_exception'', test_body = of_res (deliver pf 3)\<rparr>"

definition trivial_assertion :: "('kb, 'u) testable" where
  "trivial_assertion =
     \<lparr>test_name = ''LeafOS::trivial_assertion'',
      test_body = (\<lambda>s. (s, if (1 :: nat) = 1 then None else Some AssertFailed))\<rparr>"

definition lib_tests :: "('kb, 'ev, 'k) platform \<Rightarrow> ('kb, 'u) testable list" where
  "lib_tests pf = [test_breakpoint_exception pf, test_println_simple, test_println_many, test_println_output]"

section \<open>The verdict\<close>

text \<open>The writes to the emulator's exit port.\<close>

fun exit_event :: "io_event \<Rightarrow> bool" where
  "exit_event (OutL p v) \<longleftrightarrow> p = 0xf4"
| "exit_event (Out p v) \<longleftrightarrow> p = 0xf4"
| "exit_event (Inp p v) \<longleftrightarrow> False"

definition exits :: "'a machine_scheme \<Rightarrow> io_event list" where
  "exits s = filter exit_event (io_log s)"

text \<open>Documented behaviour of the serial driver: it only touches its own ports.\<close>

definition uart_quiet :: "'u uart_crate \<Rightarrow> bool" where
  "uart_quiet c \<longleftrightarrow>
     (\<forall>d l. filter exit_event (snd (uart_open c d l)) = filter exit_event l) \<and>
     (\<forall>d b u l. filter exit_event (snd (uart_send c d b (u, l))) = filter exit_event l)"

lemma fold_send_quiet:
  "uart_quiet c \<Longrightarrow> filter exit_event (snd (fold (uart_send c d) bs us)) = filter exit_event (snd us)"
  by (induction bs arbitrary: us) (auto simp: uart_quiet_def)

lemma serial_print_frame:
  assumes "uart_quiet c"
  shows "\<exists>u l. serial_print c bs s = s\<lparr>SERIAL1 := u, io_log := l\<rparr> \<and> exits (serial_print c bs s) = exits s"
proof -
  let ?us = "case SERIAL1 s of Some u \<Rightarrow> (u, io_log s) | None \<Rightarrow> uart_open c (device s) (io_log s)"
  obtain u l where ul: "fold (uart_send c (device s)) bs ?us = (u, l)" by fastforce
  have "filter exit_event (snd ?us) = exits s"
    using assms by (auto simp: exits_def uart_quiet_def split: option.split)
  then have "filter exit_event l = exits s"
    using fold_send_quiet [OF assms, of "device s" bs ?us] ul by simp
  then show ?thesis
    using ul by (auto simp: serial_print_def exits_def)
qed

lemma serial_println_frame:
  "uart_quiet c \<Longrightarrow> \<exists>u l. serial_println c bs s = s\<lparr>SERIAL1 := u, io_log := l\<rparr> \<and> exits (serial_println c bs s) = exits s"
  unfolding serial_println_def by (rule serial_print_frame)

lemma exits_exit_qemu: "exits (exit_qemu code s) = exits s @ [OutL 0xf4 (qemu_exit_code_u32 code)]"
  by (simp add: exits_def exit_qemu_def port_write_u32_def)

text \<open>
  A test run reports its verdict exactly once: the success code if no test
  panicked, the failure code otherwise.
\<close>

lemma verdict_reported:
  assumes "uart_quiet c" "run_tests c tests
      (serial_println c (ascii ''Running '' @ decimal (length tests) @ ascii '' tests'') (leaf_init env s)) = (t, r)"
    and "exits t = exits s"
  shows "exits (test_kernel_main c env fmt tests s) = exits s @ [OutL 0xf4 (if r = None then 0x10 else 0x11)]"
    and "snd (test_runner c tests (leaf_init env s)) = r"
proof -
  have q: "exits (serial_println c bs v) = exits v" for bs and v :: "('b, 'a) harness"
    using serial_println_frame [OF assms(1), of bs v] by auto
  show "snd (test_runner c tests (leaf_init env s)) = r"
    using assms(2) by (cases r) (simp_all add: test_runner_def)
  show "exits (test_kernel_main c env fmt tests s) = exits s @ [OutL 0xf4 (if r = None then 0x10 else 0x11)]"
    using assms(2,3) by (cases r) (simp_all add: test_kernel_main_def test_runner_def test_panic_handler_def exits_exit_qemu q Let_def)
qed

section \<open>The printing tests\<close>

text \<open>Before the shell exists, at the start of a line, with the exception gates in place.\<close>

definition harness_ready :: "('kb, 'a) irq_scheme \<Rightarrow> bool" where
  "harness_ready s \<longleftrightarrow> wf_console s \<and> \<not> INITIALIZED s \<and> column_position (WRITER s) = 0 \<and>
     map_option entry_fn (IDT s 3) = Some (ExceptionHandler Breakpoint)"

lemma harness_ready_updates [simp]:
  "harness_ready (s\<lparr>SERIAL1 := u, io_log := l\<rparr>) = harness_ready s"
  "wf_writer w \<Longrightarrow> column_position w = 0 \<Longrightarrow> harness_ready t \<Longrightarrow> harness_ready (t\<lparr>WRITER := w\<rparr>)"
  by (simp_all add: harness_ready_def)

definition passes :: "('kb, 'u) testable \<Rightarrow> bool" where
  "passes t \<longleftrightarrow> (\<forall>s. harness_ready s \<longrightarrow>
     (\<exists>w. test_body t s = (s\<lparr>WRITER := w\<rparr>, None) \<and> wf_writer w \<and> column_position w = 0))"

lemma println_ready:
  assumes "harness_ready s"
  shows "\<exists>w. irq_println t s = Inr (s\<lparr>WRITER := w\<rparr>) \<and> wf_writer w \<and> column_position w = 0 \<and>
    write_string (t @ [0x0A]) (WRITER s) = Inr w"
  using irq_println_plain [of s t] assms by (auto simp: harness_ready_def)

lemma simple_passes: "passes test_println_simple"
  unfolding passes_def
proof (intro allI impI)
  fix s :: "('a, 'b) harness"
  assume "harness_ready s"
  from println_ready [OF this, of "ascii ''test_println_simple output''"]
  show "\<exists>w. test_body test_println_simple s = (s\<lparr>WRITER := w\<rparr>, None) \<and> wf_writer w \<and> column_position w = 0"
    by (auto simp: test_println_simple_def of_res_def)
qed

lemma println_loop:
  "harness_ready s \<Longrightarrow>
   \<exists>w. for_each (\<lambda>_. irq_println t) ns s = Inr (s\<lparr>WRITER := w\<rparr>) \<and> wf_writer w \<and> column_position w = 0"
proof (induction ns arbitrary: s)
  case Nil
  then show ?case
    by (auto simp: harness_ready_def intro!: exI [of _ "WRITER s"])
next
  case (Cons n ns)
  obtain w where w: "irq_println t s = Inr (s\<lparr>WRITER := w\<rparr>)" "wf_writer w" "column_position w = 0"
    using println_ready [OF Cons.prems] by blast
  then show ?case
    using Cons.IH [of "s\<lparr>WRITER := w\<rparr>"] Cons.prems by simp
qed

lemma many_passes: "passes test_println_many"
  unfolding passes_def
proof (intro allI impI)
  fix s :: "('a, 'b) harness"
  assume "harness_ready s"
  from println_loop [OF this, of "ascii ''test_println_many output''" "[0..<200]"]
  show "\<exists>w. test_body test_println_many s = (s\<lparr>WRITER := w\<rparr>, None) \<and> wf_writer w \<and> column_position w = 0"
    by (auto simp: test_println_many_def of_res_def simp del: upt_rec_numeral)
qed

lemma check_row_ok:
  "wf_writer w \<Longrightarrow> n + length cs \<le> 80 \<Longrightarrow> map ascii_character (take (length cs) (drop n (buffer w ! 23))) = cs \<Longrightarrow>
   check_row (enumerate n cs) w = None"
proof (induction cs arbitrary: n)
  case (Cons c cs)
  have len: "length (buffer w ! 23) = 80" "length (buffer w) = 25"
    using Cons.prems(1) by (auto simp: wf_buffer_def)
  then have "drop n (buffer w ! 23) = buffer w ! 23 ! n # drop (Suc n) (buffer w ! 23)"
    using Cons.prems(2) by (intro Cons_nth_drop_Suc [symmetric]) simp
  then show ?case
    using Cons len by (simp add: buf_read_def BUFFER_HEIGHT_def)
qed simp

lemma output_passes: "passes test_println_output"
  unfolding passes_def
proof (intro allI impI)
  fix s :: "('a, 'b) harness"
  assume ready: "harness_ready s"
  obtain w where w: "irq_println output_text s = Inr (s\<lparr>WRITER := w\<rparr>)" "wf_writer w" "column_position w = 0"
      "write_string (output_text @ [0x0A]) (WRITER s) = Inr w"
    using println_ready [OF ready] by blast
  have out: "list_all printable output_text" "length output_text = 43"
    by (simp_all add: output_text_def ascii_def printable_def)
  then have "map ascii_character (take 43 (buffer w ! 23)) = output_text"
    using println_output [of "WRITER s" output_text] ready w(4) by (auto simp: harness_ready_def)
  then have "check_row (enumerate 0 output_text) w = None"
    using check_row_ok [OF w(2), of 0 output_text] out(2) by simp
  then show "\<exists>w. test_body test_println_output s = (s\<lparr>WRITER := w\<rparr>, None) \<and> wf_writer w \<and> column_position w = 0"
    using w by (auto simp: test_println_output_def)
qed

section \<open>The breakpoint test\<close>

definition breakpoint_panic :: "('kb, 'ev, 'k) platform \<Rightarrow> panic" where
  "breakpoint_panic pf = Panicked (''EXCEPTION: BREAKPOINT'' @ [CHR 0x0A] @ frame_fmt pf)"

lemma breakpoint_panics:
  assumes "harness_ready s"
  shows "test_body (test_breakpoint_exception pf) s = (s, Some (breakpoint_panic pf))"
proof -
  obtain g where "IDT s 3 = Some g" "entry_fn g = ExceptionHandler Breakpoint"
    using assms by (auto simp: harness_ready_def)
  then show ?thesis
    by (simp add: test_breakpoint_exception_def of_res_def deliver_def run_handler_def exception_handler_def
        error_code_text_def breakpoint_panic_def)
qed

lemma lib_tests_cases:
  "t \<in> set (lib_tests pf) \<Longrightarrow> t = test_breakpoint_exception pf \<or> passes t"
  using simple_passes many_passes output_passes by (auto simp: lib_tests_def)

lemma run_lib_test:
  assumes "uart_quiet c" "harness_ready s" "t \<in> set (lib_tests pf)"
  shows "exits (fst (run_test c t s)) = exits s \<and>
    snd (run_test c t s) = (if t = test_breakpoint_exception pf then Some (breakpoint_panic pf) else None) \<and>
    harness_ready (fst (run_test c t s))"
proof -
  obtain u l where p: "serial_print c (ascii (test_name t) @ ascii ''...'' @ [0x09]) s = s\<lparr>SERIAL1 := u, io_log := l\<rparr>"
      "exits (s\<lparr>SERIAL1 := u, io_log := l\<rparr>) = exits s"
    using serial_print_frame [OF assms(1), of "ascii (test_name t) @ ascii ''...'' @ [0x09]" s] by metis
  let ?p = "s\<lparr>SERIAL1 := u, io_log := l\<rparr>"
  have ready: "harness_ready ?p"
    using assms(2) by simp
  show ?thesis
  proof (cases "t = test_breakpoint_exception pf")
    case True
    then show ?thesis
      using breakpoint_panics [OF ready, of pf] p ready by (simp add: run_test_def)
  next
    case False
    then obtain w where w: "test_body t ?p = (?p\<lparr>WRITER := w\<rparr>, None)" "wf_writer w" "column_position w = 0"
      using lib_tests_cases [OF assms(3)] ready unfolding passes_def by blast
    obtain u' l' where q: "serial_println c (ascii ''[ok]'') (?p\<lparr>WRITER := w\<rparr>) = ?p\<lparr>WRITER := w, SERIAL1 := u', io_log := l'\<rparr>"
        "exits (?p\<lparr>WRITER := w, SERIAL1 := u', io_log := l'\<rparr>) = exits (?p\<lparr>WRITER := w\<rparr>)"
      using serial_println_frame [OF assms(1), of "ascii ''[ok]''" "?p\<lparr>WRITER := w\<rparr>"] by metis
    have "harness_ready (?p\<lparr>WRITER := w, SERIAL1 := u', io_log := l'\<rparr>)"
      using w(2,3) ready by (simp add: harness_ready_def)
    then show ?thesis
      using False p q w(1) by (simp add: run_test_def exits_def)
  qed
qed

lemma run_lib_tests:
  assumes "uart_quiet c"
  shows "harness_ready s \<Longrightarrow> set ts \<subseteq> set (lib_tests pf) \<Longrightarrow> exits (fst (run_tests c ts s)) = exits s \<and>
    snd (run_tests c ts s) = (if test_breakpoint_exception pf \<in> set ts then Some (breakpoint_panic pf) else None)"
proof (induction ts arbitrary: s)
  case (Cons t ts)
  have "t \<in> set (lib_tests pf)"
    using Cons.prems(2) by simp
  note t = run_lib_test [OF assms Cons.prems(1) this]
  obtain s' r where r: "run_test c t s = (s', r)" by fastforce
  then show ?case
    using t Cons.IH [of s'] Cons.prems(2) by (auto split: option.split)
qed simp

lemma leaf_init_ready:
  assumes "wf_console s" "\<not> INITIALIZED s" "column_position (WRITER s) = 0"
  shows "harness_ready (leaf_init env s)"
proof -
  have "IDT (leaf_init env s) (exception_vector Breakpoint) = Some \<lparr>entry_fn = ExceptionHandler Breakpoint, stack_index = None\<rparr>"
    by (simp add: leaf_init_def Let_def enable_interrupts_def interrupts_init_IDT set_exceptions_in set_first_exceptions
        exception_vector_inj del: exception_vector.simps)
  then show ?thesis
    using assms by (simp add: harness_ready_def)
qed

section \<open>Properties\<close>

text \<open>
  C26: What the library's test build reports, for any selection of its tests in any order:
  the three printing tests pass, so a run without \<^verbatim>\<open>test_breakpoint_exception\<close> writes the
  success code to the emulator's exit port; a run with it, and so every run of the
  whole suite, stops there with the panic of \<^verbatim>\<open>breakpoint_handler\<close> and writes
  the failure code. Either way the verdict is written exactly once.
\<close>

theorem lib_test_verdict:
  assumes "uart_quiet c" "wf_console s" "\<not> INITIALIZED s" "column_position (WRITER s) = 0"
    and "set tests \<subseteq> set (lib_tests pf)"
  shows "exits (test_kernel_main c env fmt tests s) =
      exits s @ [OutL 0xf4 (if test_breakpoint_exception pf \<in> set tests then 0x11 else 0x10)] \<and>
    snd (test_runner c tests (leaf_init env s)) =
      (if test_breakpoint_exception pf \<in> set tests then Some (breakpoint_panic pf) else None)"
proof -
  let ?i = "leaf_init env s"
  obtain u l where p: "serial_println c (ascii ''Running '' @ decimal (length tests) @ ascii '' tests'') ?i =
      ?i\<lparr>SERIAL1 := u, io_log := l\<rparr>" "exits (?i\<lparr>SERIAL1 := u, io_log := l\<rparr>) = exits s"
    using serial_println_frame [OF assms(1), of "ascii ''Running '' @ decimal (length tests) @ ascii '' tests''" ?i]
    by (metis exits_def leaf_init_frame(6))
  obtain t r where t: "run_tests c tests (?i\<lparr>SERIAL1 := u, io_log := l\<rparr>) = (t, r)" by fastforce
  then have run: "run_tests c tests (serial_println c (ascii ''Running '' @ decimal (length tests) @ ascii '' tests'') ?i) = (t, r)"
    using p(1) by simp
  have e: "exits t = exits s"
      "r = (if test_breakpoint_exception pf \<in> set tests then Some (breakpoint_panic pf) else None)"
    using run_lib_tests [OF assms(1) _ assms(5), of "?i\<lparr>SERIAL1 := u, io_log := l\<rparr>"] t p(2)
      leaf_init_ready [OF assms(2-4), of env] by simp_all
  show ?thesis
    using verdict_reported [OF assms(1) run e(1)] e(2) by simp
qed

definition example_uart :: "unit uart_crate" where
  "example_uart = \<lparr>uart_open = (\<lambda>d l. ((), l)), uart_send = (\<lambda>d b (u, l). (u, l @ [Out 0x3F8 b]))\<rparr>"

definition example_harness :: "(unit, unit) harness" where
  "example_harness = kernel.extend (kernel.truncate example_machine) \<lparr>SERIAL1 = None\<rparr>"

theorem lib_test_verdict_witness:
  "exits (test_kernel_main example_uart example_env (\<lambda>_. []) (lib_tests example_platform) example_harness) =
    [OutL 0xf4 0x11]"
proof -
  have "uart_quiet example_uart"
    by (simp add: uart_quiet_def example_uart_def)
  moreover have "wf_console example_harness" "\<not> INITIALIZED example_harness"
      "column_position (WRITER example_harness) = 0" "exits example_harness = []"
    by (simp_all add: example_harness_def example_machine_def example_kernel_def kernel.defs writer_init_def exits_def)
  moreover have "test_breakpoint_exception example_platform \<in> set (lib_tests example_platform)"
    by (simp add: lib_tests_def)
  ultimately show ?thesis
    using lib_test_verdict [of example_uart example_harness "lib_tests example_platform" example_platform example_env "\<lambda>_. []"]
    by simp
qed

section \<open>The binary's harness is the library's\<close>

lemma main_exit_qemu_eq: "main_exit_qemu = exit_qemu"
  by (intro ext) (simp add: main_exit_qemu_def exit_qemu_def)

lemma main_run_tests_eq: "main_run_tests = run_tests"
proof (intro ext)
  fix c :: "'a uart_crate" and ts :: "('b, 'a) testable list" and s
  show "main_run_tests c ts s = run_tests c ts s"
    by (induction ts arbitrary: s) (simp_all add: main_run_test_def run_test_def)
qed

lemma main_test_runner_eq: "main_test_runner = test_runner"
  by (intro ext) (unfold main_test_runner_def test_runner_def main_run_tests_eq main_exit_qemu_eq, rule refl)

lemma main_test_panic_eq: "main_test_panic = test_panic_handler"
  by (intro ext) (simp add: main_test_panic_def test_panic_handler_def main_exit_qemu_eq)

text \<open>The binary's only test passes.\<close>

lemma main_tests_pass:
  assumes "uart_quiet c"
  shows "exits (main_test_main c fmt [trivial_assertion] s) = exits s @ [OutL 0xf4 0x10]"
proof -
  have q: "exits (serial_print c bs v) = exits v" "exits (serial_println c bs v) = exits v"
    for bs and v :: "('b, 'a) harness"
    using serial_print_frame [OF assms, of bs v] serial_println_frame [OF assms, of bs v] by auto
  show ?thesis
    by (simp add: main_test_main_def main_test_runner_eq test_runner_def run_test_def trivial_assertion_def
        exits_exit_qemu q)
qed

end
