(* ===== verification/Locks.thy ===== *)
theory Locks
  imports Leaf_Prelude
begin

text \<open>
  The spin locks of the kernel on one processor. A function is the sequence of its
  lock operations and critical sections, in the order the code performs them. An
  interrupt handler runs on top of the code it interrupts, with interrupts disabled,
  and the timer interrupt may continue another thread afterwards. Nobody can
  release a lock while the code on top spins on it. Exceptions, whose handlers print
  and never return, and the first use of a lazily initialised static are left out.
\<close>

section \<open>Lock operations\<close>

datatype lock = WRITER_lock | SHELL_lock | EVENT_HANDLERS_lock | KEYBOARD_lock | PICS_lock
  | SCHEDULER_lock | IDLE_TASK_lock | ALLOCATOR_lock

text \<open>\<^verbatim>\<open>Enter\<close> and \<^verbatim>\<open>Leave\<close> are the ends of a \<^verbatim>\<open>without_interrupts\<close> section.\<close>

datatype act = Lock lock | Unlock lock | Enter | Leave

definition locked :: "lock \<Rightarrow> act list \<Rightarrow> act list" where
  "locked l as = Lock l # as @ [Unlock l]"

definition critical :: "act list \<Rightarrow> act list" where
  "critical as = Enter # as @ [Leave]"

section \<open>The kernel's functions\<close>

text \<open>Each call of the global allocator locks it.\<close>

definition alloc_locks :: "nat \<Rightarrow> act list" where
  "alloc_locks n = concat (replicate n (locked ALLOCATOR_lock []))"

text \<open>\<^verbatim>\<open>Shell::write\<close> locks the writer for each of the \<open>n\<close> pieces that \<^verbatim>\<open>write_fmt\<close> hands over.\<close>

definition shell_write_locks :: "nat \<Rightarrow> act list" where
  "shell_write_locks n = concat (replicate n (locked WRITER_lock []))"

definition print_locks :: "bool \<Rightarrow> nat \<Rightarrow> act list" where
  "print_locks has_shell n =
     critical (if has_shell then locked SHELL_lock (shell_write_locks n) else locked WRITER_lock [])"

text \<open>\<^verbatim>\<open>Shell::key_event\<close>: a backspace on an empty line does not touch the writer; a raw key prints in a critical section.\<close>

datatype key_effect = NoEffect | WriterEffect | RawKeyEffect

primrec key_event_locks :: "key_effect \<Rightarrow> act list" where
  "key_event_locks NoEffect = []"
| "key_event_locks WriterEffect = locked WRITER_lock []"
| "key_event_locks RawKeyEffect = locked WRITER_lock (critical [])"

definition end_of_interrupt_locks :: "bool \<Rightarrow> act list" where
  "end_of_interrupt_locks has_lapic = (if has_lapic then [] else locked PICS_lock [])"

text \<open>The keyboard interrupt, for the decoded key if there is one, the registered handlers and \<^verbatim>\<open>has_shell\<close>.\<close>

definition kb_handler_locks :: "bool \<Rightarrow> key_effect \<Rightarrow> act list" where
  "kb_handler_locks has_shell k = (if has_shell then locked SHELL_lock (key_event_locks k) else [])"

definition keyboard_interrupt_locks :: "key_effect option \<Rightarrow> nat \<Rightarrow> bool \<Rightarrow> bool \<Rightarrow> act list" where
  "keyboard_interrupt_locks key handlers has_shell has_lapic =
     locked KEYBOARD_lock
       ((case key of
           None \<Rightarrow> []
         | Some k \<Rightarrow> locked EVENT_HANDLERS_lock (concat (replicate handlers (kb_handler_locks has_shell k)))) @
        end_of_interrupt_locks has_lapic)"

text \<open>The timer interrupt: \<^verbatim>\<open>current_task_ptr\<close>, then \<^verbatim>\<open>select_next_task\<close> with \<^verbatim>\<open>replace_curr_task\<close>.\<close>

definition idle_task_locks :: "nat \<Rightarrow> act list" where
  "idle_task_locks n = alloc_locks n @ locked IDLE_TASK_lock []"

definition current_task_locks :: "bool \<Rightarrow> bool \<Rightarrow> nat \<Rightarrow> act list" where
  "current_task_locks has_task init n = (if has_task \<or> \<not> init then [] else idle_task_locks n)"

definition select_next_locks :: "bool \<Rightarrow> bool \<Rightarrow> nat \<Rightarrow> nat \<Rightarrow> act list" where
  "select_next_locks has_task queue_empty n m =
     locked SCHEDULER_lock [] @ (if has_task then locked SCHEDULER_lock (alloc_locks n) else []) @
     (if queue_empty then idle_task_locks m else [])"

definition apic_timer_locks :: "bool \<Rightarrow> bool \<Rightarrow> bool \<Rightarrow> nat \<Rightarrow> nat \<Rightarrow> act list" where
  "apic_timer_locks has_task init queue_empty n m =
     current_task_locks has_task init m @ select_next_locks has_task queue_empty n m"

definition timer_interrupt_locks :: "bool \<Rightarrow> act list" where
  "timer_interrupt_locks has_lapic = end_of_interrupt_locks has_lapic"

definition apic_error_locks :: "bool \<Rightarrow> nat \<Rightarrow> act list" where
  "apic_error_locks has_shell n = print_locks has_shell n"

definition apic_spurious_locks :: "bool \<Rightarrow> nat \<Rightarrow> act list" where
  "apic_spurious_locks has_shell n = print_locks has_shell n"

definition start_proc_locks :: "nat \<Rightarrow> act list" where
  "start_proc_locks n = locked SCHEDULER_lock (alloc_locks n)"

definition shell_init_locks :: "act list" where
  "shell_init_locks = locked WRITER_lock []"

definition init_kb_handler_locks :: "nat \<Rightarrow> act list" where
  "init_kb_handler_locks n = locked EVENT_HANDLERS_lock (alloc_locks n)"

text \<open>\<^verbatim>\<open>kernel_main\<close> from the moment the timer is armed.\<close>

definition kernel_main_locks :: "nat \<Rightarrow> nat \<Rightarrow> nat \<Rightarrow> nat \<Rightarrow> act list" where
  "kernel_main_locks a b n d =
     start_proc_locks a @ start_proc_locks b @ print_locks False n @
     locked SHELL_lock shell_init_locks @ init_kb_handler_locks d"

text \<open>
  The write system call: interrupts are disabled from the gate to the return, and the
  message is copied to a string of its own, which is freed after it is printed.
\<close>

definition handle_write_locks :: "bool \<Rightarrow> nat \<Rightarrow> bool \<Rightarrow> nat \<Rightarrow> act list" where
  "handle_write_locks to_stdout a has_shell n =
     (if to_stdout then alloc_locks a @ print_locks has_shell n @ alloc_locks a else [])"

definition write_syscall_locks :: "bool \<Rightarrow> nat \<Rightarrow> bool \<Rightarrow> nat \<Rightarrow> bool \<Rightarrow> act list" where
  "write_syscall_locks to_stdout a has_shell n has_lapic =
     critical (handle_write_locks to_stdout a has_shell n @ end_of_interrupt_locks has_lapic)"

text \<open>A user of the console prints and makes such calls.\<close>

datatype console_call = Print bool nat | WriteSyscall bool nat bool nat bool

primrec output_locks :: "console_call \<Rightarrow> act list" where
  "output_locks (Print has_shell n) = print_locks has_shell n"
| "output_locks (WriteSyscall to_stdout a has_shell n has_lapic) =
     write_syscall_locks to_stdout a has_shell n has_lapic"

text \<open>The handlers that can interrupt running code.\<close>

definition kernel_handlers :: "act list set" where
  "kernel_handlers =
     {keyboard_interrupt_locks k n s l | k n s l. True} \<union> {apic_timer_locks t i q n m | t i q n m. True} \<union>
     {timer_interrupt_locks l | l. True} \<union> {apic_error_locks s n | s n. True} \<union>
     {apic_spurious_locks s n | s n. True}"

section \<open>Execution\<close>

text \<open>
  A frame is what code has still to do and the interrupt flags its critical sections
  will restore. The top frame runs; the frames of the threads that wait are aside.
\<close>

type_synonym frame = "act list \<times> bool list"

record cfg =
  iflag :: bool
  held :: "lock set"
  frames :: "frame list"
  others :: "frame list list"

inductive lstep :: "act list set \<Rightarrow> cfg \<Rightarrow> cfg \<Rightarrow> bool" for H where
  acquire: "frames c = (Lock l # as, sv) # fs \<Longrightarrow> l \<notin> held c \<Longrightarrow>
    lstep H c (c\<lparr>held := insert l (held c), frames := (as, sv) # fs\<rparr>)"
| release: "frames c = (Unlock l # as, sv) # fs \<Longrightarrow>
    lstep H c (c\<lparr>held := held c - {l}, frames := (as, sv) # fs\<rparr>)"
| enter: "frames c = (Enter # as, sv) # fs \<Longrightarrow>
    lstep H c (c\<lparr>iflag := False, frames := (as, iflag c # sv) # fs\<rparr>)"
| leave: "frames c = (Leave # as, b # sv) # fs \<Longrightarrow>
    lstep H c (c\<lparr>iflag := b, frames := (as, sv) # fs\<rparr>)"
| interrupt: "iflag c \<Longrightarrow> h \<in> H \<Longrightarrow>
    lstep H c (c\<lparr>iflag := False, frames := (h, []) # frames c\<rparr>)"
| return: "frames c = ([], []) # fs \<Longrightarrow> fs \<noteq> [] \<Longrightarrow>
    lstep H c (c\<lparr>iflag := True, frames := fs\<rparr>)"
| switch: "frames c = ([], []) # fs \<Longrightarrow> fs \<noteq> [] \<Longrightarrow> others c = us @ t # vs \<Longrightarrow>
    lstep H c (c\<lparr>iflag := True, frames := t, others := us @ fs # vs\<rparr>)"

definition deadlock :: "cfg \<Rightarrow> bool" where
  "deadlock c \<longleftrightarrow> (\<exists>l as sv fs. frames c = (Lock l # as, sv) # fs \<and> l \<in> held c)"

text \<open>Threads about to run, with interrupts enabled and no lock held.\<close>

definition threads :: "act list \<Rightarrow> act list list \<Rightarrow> cfg" where
  "threads p ps = \<lparr>iflag = True, held = {}, frames = [(p, [])], others = map (\<lambda>q. [(q, [])]) ps\<rparr>"

section \<open>Masked code\<close>

text \<open>Code that holds locks in critical sections only, takes none twice and releases them all.\<close>

fun masked :: "nat \<Rightarrow> lock set \<Rightarrow> act list \<Rightarrow> bool" where
  "masked d h [] \<longleftrightarrow> d = 0 \<and> h = {}"
| "masked d h (Lock l # as) \<longleftrightarrow> 0 < d \<and> l \<notin> h \<and> masked d (insert l h) as"
| "masked d h (Unlock l # as) \<longleftrightarrow> masked d (h - {l}) as"
| "masked d h (Enter # as) \<longleftrightarrow> masked (Suc d) h as"
| "masked d h (Leave # as) \<longleftrightarrow> 0 < d \<and> (d = 1 \<longrightarrow> h = {}) \<and> masked (d - 1) h as"

text \<open>A handler is masked as a whole.\<close>

definition handler_ok :: "act list \<Rightarrow> bool" where
  "handler_ok h \<longleftrightarrow> masked 1 {} (h @ [Leave])"

definition idle_thread :: "frame list \<Rightarrow> bool" where
  "idle_thread fs \<longleftrightarrow> (\<exists>as. fs = [(as, [])] \<and> masked 0 {} as)"

definition in_section :: "lock set \<Rightarrow> frame list \<Rightarrow> bool" where
  "in_section h fs \<longleftrightarrow>
     (\<exists>as k. fs = [(as, replicate k False @ [True])] \<and> masked (Suc k) h as)"

definition in_handler :: "lock set \<Rightarrow> frame list \<Rightarrow> bool" where
  "in_handler h fs \<longleftrightarrow>
     (\<exists>as k rest. fs = (as, replicate k False) # rest \<and> masked (Suc k) h (as @ [Leave]) \<and> idle_thread rest)"

definition locks_inv :: "cfg \<Rightarrow> bool" where
  "locks_inv c \<longleftrightarrow>
     (if iflag c then held c = {} \<and> idle_thread (frames c)
      else in_section (held c) (frames c) \<or> in_handler (held c) (frames c)) \<and>
     (\<forall>t \<in> set (others c). idle_thread t)"

lemma locks_inv_no_deadlock: "locks_inv c \<Longrightarrow> \<not> deadlock c"
  by (auto simp: locks_inv_def deadlock_def idle_thread_def in_section_def in_handler_def split: if_splits)

lemma locks_inv_step:
  assumes "lstep H c c'" "locks_inv c" "\<forall>h \<in> H. handler_ok h"
  shows "locks_inv c'"
  using assms(1)
proof cases
  case (acquire l as sv fs)
  then show ?thesis
    using assms(2) by (auto simp: locks_inv_def idle_thread_def in_section_def in_handler_def split: if_splits)
next
  case (release l as sv fs)
  then show ?thesis
    using assms(2) by (auto simp: locks_inv_def idle_thread_def in_section_def in_handler_def split: if_splits)
next
  case (enter as sv fs)
  show ?thesis
  proof (cases "iflag c")
    case True
    then have "in_section (held c) ((as, True # sv) # fs)"
      using assms(2) enter by (auto simp: locks_inv_def idle_thread_def in_section_def)
    then show ?thesis
      using True enter assms(2) by (simp add: locks_inv_def)
  next
    case False
    then consider k where "sv = replicate k False @ [True]" "fs = []" "masked (Suc k) (held c) (Enter # as)"
      | k where "sv = replicate k False" "masked (Suc k) (held c) ((Enter # as) @ [Leave])" "idle_thread fs"
      using assms(2) enter(2) by (auto simp: locks_inv_def in_section_def in_handler_def)
    then have "in_section (held c) ((as, False # sv) # fs) \<or> in_handler (held c) ((as, False # sv) # fs)"
    proof cases
      case (1 k)
      then show ?thesis by (auto simp: in_section_def intro!: exI [of _ "Suc k"])
    next
      case (2 k)
      then show ?thesis by (auto simp: in_handler_def intro!: exI [of _ "Suc k"])
    qed
    then show ?thesis
      using False enter assms(2) by (simp add: locks_inv_def)
  qed
next
  case (leave as b sv fs)
  have off: "\<not> iflag c"
    using assms(2) leave(2) by (auto simp: locks_inv_def idle_thread_def)
  then consider "in_section (held c) ((Leave # as, b # sv) # fs)" | "in_handler (held c) ((Leave # as, b # sv) # fs)"
    using assms(2) leave(2) by (auto simp: locks_inv_def)
  then show ?thesis
  proof cases
    case 1
    then obtain k where k: "fs = []" "b # sv = replicate k False @ [True]" "masked (Suc k) (held c) (Leave # as)"
      by (auto simp: in_section_def)
    then show ?thesis
      using assms(2) leave off by (cases k) (auto simp: locks_inv_def idle_thread_def in_section_def)
  next
    case 2
    then obtain k where k: "b # sv = replicate k False" "masked (Suc k) (held c) ((Leave # as) @ [Leave])"
        "idle_thread fs"
      by (auto simp: in_handler_def)
    then show ?thesis
      using assms(2) leave off by (cases k) (auto simp: locks_inv_def in_handler_def)
  qed
next
  case (interrupt h)
  then show ?thesis
    using assms(2,3) by (auto simp: locks_inv_def in_handler_def handler_ok_def intro!: exI [of _ 0])
next
  case (return fs)
  then show ?thesis
    using assms(2) by (auto simp: locks_inv_def in_section_def in_handler_def idle_thread_def split: if_splits)
next
  case (switch fs us t vs)
  then show ?thesis
    using assms(2) by (auto simp: locks_inv_def in_section_def in_handler_def idle_thread_def split: if_splits)
qed

lemma reachable_no_deadlock:
  assumes "(lstep H)\<^sup>*\<^sup>* (threads p ps) c" "\<forall>h \<in> H. handler_ok h" "\<forall>q \<in> set (p # ps). masked 0 {} q"
  shows "\<not> deadlock c"
proof -
  have "locks_inv (threads p ps)"
    using assms(3) by (auto simp: locks_inv_def threads_def idle_thread_def)
  with assms(1) have "locks_inv c"
    by (induction rule: rtranclp_induct) (auto intro: locks_inv_step [OF _ _ assms(2)])
  then show ?thesis
    by (rule locks_inv_no_deadlock)
qed

section \<open>The kernel's code\<close>

text \<open>A balanced piece of code at some depth, in front of the rest.\<close>

definition balanced :: "lock set \<Rightarrow> act list \<Rightarrow> bool" where
  "balanced u as \<longleftrightarrow> (\<forall>d h bs. 0 < d \<and> h \<inter> u = {} \<and> masked d h bs \<longrightarrow> masked d h (as @ bs))"

named_theorems balance "building balanced code"

lemma balanced_Nil [balance]: "balanced u []"
  by (simp add: balanced_def)

lemma balanced_append [balance]: "balanced u as \<Longrightarrow> balanced u bs \<Longrightarrow> balanced u (as @ bs)"
  by (auto simp: balanced_def)

lemma balanced_mono: "balanced u as \<Longrightarrow> u \<subseteq> v \<Longrightarrow> balanced v as"
  unfolding balanced_def by (meson disjoint_iff subset_iff)

lemma balanced_locked [balance]: "balanced u as \<Longrightarrow> l \<notin> u \<Longrightarrow> balanced (insert l u) (locked l as)"
  by (auto simp: balanced_def locked_def)

lemma balanced_critical [balance]: "balanced u as \<Longrightarrow> balanced u (critical as)"
  by (auto simp: balanced_def critical_def)

lemma balanced_repeat [balance]: "balanced u as \<Longrightarrow> balanced u (concat (replicate n as))"
  by (induction n) (simp_all add: balanced_Nil balanced_append)

lemma masked_critical: "balanced u as \<Longrightarrow> masked 0 {} bs \<Longrightarrow> masked 0 {} (critical as @ bs)"
  by (simp add: balanced_def critical_def)

lemma handler_okI: "balanced u h \<Longrightarrow> handler_ok h"
  by (simp add: balanced_def handler_ok_def)

lemma alloc_locks_balanced: "balanced {ALLOCATOR_lock} (alloc_locks n)"
  unfolding alloc_locks_def by (intro balance) simp

lemma print_locks_balanced:
  "balanced {SHELL_lock, WRITER_lock} (if has_shell then locked SHELL_lock (shell_write_locks n) else locked WRITER_lock [])"
proof -
  have w: "balanced {WRITER_lock} (locked WRITER_lock [])"
    by (intro balance) simp
  then have "balanced {WRITER_lock} (shell_write_locks n)"
    unfolding shell_write_locks_def by (rule balanced_repeat)
  then have "balanced {SHELL_lock, WRITER_lock} (locked SHELL_lock (shell_write_locks n))"
    by (intro balance) simp_all
  then show ?thesis
    using balanced_mono [OF w] by auto
qed

lemma print_locks_inner: "balanced {SHELL_lock, WRITER_lock} (print_locks has_shell n)"
  unfolding print_locks_def by (rule balanced_critical [OF print_locks_balanced])

lemma end_of_interrupt_balanced: "balanced {PICS_lock} (end_of_interrupt_locks has_lapic)"
  using balanced_locked [of "{}" "[]" PICS_lock] balanced_Nil by (auto simp: end_of_interrupt_locks_def)

lemma output_masked: "masked 0 {} bs \<Longrightarrow> masked 0 {} (output_locks x @ bs)"
proof (cases x)
  case (Print has_shell n)
  then show "masked 0 {} bs \<Longrightarrow> ?thesis"
    using masked_critical [OF print_locks_balanced] by (simp add: print_locks_def)
next
  case (WriteSyscall to_stdout a has_shell n has_lapic)
  let ?u = "{SHELL_lock, WRITER_lock, PICS_lock, ALLOCATOR_lock}"
  have "balanced ?u (handle_write_locks to_stdout a has_shell n)"
    using balanced_mono [OF print_locks_inner, of ?u] balanced_mono [OF alloc_locks_balanced, of ?u]
    by (simp add: handle_write_locks_def balanced_append balanced_Nil)
  then have "balanced ?u (handle_write_locks to_stdout a has_shell n @ end_of_interrupt_locks has_lapic)"
    by (intro balance balanced_mono [OF end_of_interrupt_balanced]) auto
  then show "masked 0 {} bs \<Longrightarrow> ?thesis"
    using masked_critical WriteSyscall by (simp add: write_syscall_locks_def)
qed

lemma outputs_masked: "masked 0 {} (concat (map output_locks xs))"
  by (induction xs) (simp_all add: output_masked)

lemma keyboard_locks_ok: "handler_ok (keyboard_interrupt_locks k n has_shell has_lapic)"
proof (rule handler_okI)
  have key: "balanced {WRITER_lock} (key_event_locks e)" for e
  proof (cases e)
    case WriterEffect
    then show ?thesis using balanced_locked [of "{}" "[]" WRITER_lock] balanced_Nil by simp
  next
    case RawKeyEffect
    then show ?thesis using balanced_locked [of "{}" "critical []" WRITER_lock] balanced_critical balanced_Nil by simp
  qed (simp add: balanced_Nil)
  have "balanced {SHELL_lock, WRITER_lock} (kb_handler_locks has_shell e)" for e
    using balanced_locked [OF key, of SHELL_lock e] balanced_Nil by (simp add: kb_handler_locks_def)
  then have "balanced {EVENT_HANDLERS_lock, SHELL_lock, WRITER_lock}
      (locked EVENT_HANDLERS_lock (concat (replicate n (kb_handler_locks has_shell e))))" for e
    by (intro balance) simp_all
  then have "balanced {EVENT_HANDLERS_lock, SHELL_lock, WRITER_lock, PICS_lock}
      ((case k of None \<Rightarrow> [] | Some e \<Rightarrow> locked EVENT_HANDLERS_lock (concat (replicate n (kb_handler_locks has_shell e)))) @
       end_of_interrupt_locks has_lapic)"
    by (intro balanced_append balanced_mono [OF end_of_interrupt_balanced])
      (auto intro: balanced_mono balanced_Nil split: option.split)
  then show "balanced {KEYBOARD_lock, EVENT_HANDLERS_lock, SHELL_lock, WRITER_lock, PICS_lock}
      (keyboard_interrupt_locks k n has_shell has_lapic)"
    unfolding keyboard_interrupt_locks_def by (intro balanced_locked) simp_all
qed

lemma apic_timer_locks_ok: "handler_ok (apic_timer_locks t i q n m)"
proof (rule handler_okI)
  have one: "balanced {l} (locked l [])" for l
    using balanced_locked [OF balanced_Nil, of l "{}"] by simp
  have idle: "balanced {ALLOCATOR_lock, IDLE_TASK_lock} (idle_task_locks m)"
    unfolding idle_task_locks_def
    by (intro balanced_append balanced_mono [OF alloc_locks_balanced] balanced_mono [OF one]) auto
  have sched: "balanced {SCHEDULER_lock, ALLOCATOR_lock} (locked SCHEDULER_lock (alloc_locks n))"
    using balanced_locked [OF alloc_locks_balanced] by simp
  show "balanced {SCHEDULER_lock, ALLOCATOR_lock, IDLE_TASK_lock} (apic_timer_locks t i q n m)"
    unfolding apic_timer_locks_def current_task_locks_def select_next_locks_def
    by (intro balanced_append)
      (auto intro: balanced_mono [OF idle] balanced_mono [OF sched] balanced_mono [OF one] balanced_Nil)
qed

lemma apic_timer_locks_in: "apic_timer_locks t i q n m \<in> kernel_handlers"
  unfolding kernel_handlers_def by blast

lemma kernel_handlers_ok: "\<forall>h \<in> kernel_handlers. handler_ok h"
  using keyboard_locks_ok apic_timer_locks_ok handler_okI [OF end_of_interrupt_balanced]
    handler_okI [OF print_locks_inner]
  by (auto simp: kernel_handlers_def timer_interrupt_locks_def apic_error_locks_def apic_spurious_locks_def)

section \<open>Properties\<close>

text \<open>
  C13: Threads that print and make write system calls never deadlock: however they are
  interrupted by the keyboard, the timers and the local APIC, and however the timer switches
  between them, the running code never waits for a lock that is held.
\<close>

theorem console_output_never_deadlocks:
  assumes "(lstep kernel_handlers)\<^sup>*\<^sup>*
    (threads (concat (map output_locks p)) (map (\<lambda>xs. concat (map output_locks xs)) ps)) c"
  shows "\<not> deadlock c"
  by (rule reachable_no_deadlock [OF assms kernel_handlers_ok]) (auto simp: outputs_masked)

theorem console_output_never_deadlocks_witness:
  "let t = threads (concat (map output_locks [Print True 2])) [];
       c = t\<lparr>iflag := False, frames := (apic_timer_locks True True False 0 0, []) # frames t\<rparr>
   in (lstep kernel_handlers)\<^sup>*\<^sup>* t c \<and> \<not> deadlock c"
proof -
  let ?t = "threads (concat (map output_locks [Print True 2])) []"
  let ?c = "?t\<lparr>iflag := False, frames := (apic_timer_locks True True False 0 0, []) # frames ?t\<rparr>"
  have "lstep kernel_handlers ?t ?c"
    by (rule lstep.interrupt) (simp_all add: threads_def apic_timer_locks_in)
  then have "(lstep kernel_handlers)\<^sup>*\<^sup>* ?t ?c" ..
  then show ?thesis
    using console_output_never_deadlocks [of "[Print True 2]" "[]" ?c] by (simp add: Let_def)
qed

text \<open>
  C39: The rest of the boot sequence is not protected that way: \<^verbatim>\<open>kernel_main\<close> starts its
  processes after the timer is armed, taking the scheduler's lock with interrupts
  enabled. If the tick comes when \<^verbatim>\<open>start_proc\<close> has just taken that lock, the first thing
  the timer's handler does is to wait for it; interrupts are disabled, and no step is
  possible any more, whatever else there is to run.
\<close>

theorem boot_can_deadlock:
  "\<exists>c rest tick. (lstep kernel_handlers)\<^sup>*\<^sup>* (threads (kernel_main_locks a b n d) ps) c \<and>
     kernel_main_locks a b n d = Lock SCHEDULER_lock # rest \<and>
     apic_timer_locks False False q k l = Lock SCHEDULER_lock # tick \<and>
     frames c = [(apic_timer_locks False False q k l, []), (rest, [])] \<and>
     SCHEDULER_lock \<in> held c \<and> \<not> iflag c \<and> deadlock c \<and> (\<forall>c'. \<not> lstep kernel_handlers c c')"
proof -
  let ?t = "threads (kernel_main_locks a b n d) ps" and ?h = "apic_timer_locks False False q k l"
  obtain as where as: "kernel_main_locks a b n d = Lock SCHEDULER_lock # as"
    by (simp add: kernel_main_locks_def start_proc_locks_def locked_def)
  obtain tick where tick: "?h = Lock SCHEDULER_lock # tick"
    by (simp add: apic_timer_locks_def current_task_locks_def select_next_locks_def locked_def)
  let ?u = "?t\<lparr>held := {SCHEDULER_lock}, frames := [(as, [])]\<rparr>"
  let ?c = "?u\<lparr>iflag := False, frames := (?h, []) # frames ?u\<rparr>"
  have "lstep kernel_handlers ?t ?u"
    using lstep.acquire [of ?t SCHEDULER_lock as "[]" "[]" kernel_handlers] as by (simp add: threads_def)
  moreover have "lstep kernel_handlers ?u ?c"
    by (rule lstep.interrupt) (simp_all add: threads_def apic_timer_locks_in)
  ultimately have "(lstep kernel_handlers)\<^sup>*\<^sup>* ?t ?c" by (meson converse_rtranclp_into_rtranclp rtranclp.rtrancl_refl)
  moreover have top: "frames ?c = [(?h, []), (as, [])]" "SCHEDULER_lock \<in> held ?c" "\<not> iflag ?c"
    by simp_all
  moreover have "deadlock ?c"
    using top tick by (auto simp: deadlock_def)
  moreover have "\<not> lstep kernel_handlers ?c c'" for c'
    using top tick by (auto elim!: lstep.cases)
  ultimately show ?thesis
    using as tick by blast
qed

end
