(* ===== verification/Tasks.thy ===== *)
theory Tasks
  imports Running
begin

text \<open>
  The code that runs when the kernel is up: the demonstration task \<^verbatim>\<open>test_fn\<close> of
  src/src/main.rs, which writes a line by a system call for ever, and the halting
  loops \<^verbatim>\<open>hlt_loop\<close> (src/src/lib.rs) and \<^verbatim>\<open>idle\<close> (src/src/scheduler.rs). An endless loop is
  modelled by any number of its iterations.
\<close>

section \<open>The loops\<close>

definition TEST_MSG :: bytes where "TEST_MSG = ascii ''TESTeee!''"

text \<open>The first \<open>n\<close> iterations of \<^verbatim>\<open>test_fn\<close>, for the address of its static string.\<close>

primrec test_fn ::
    "('kb, 'ev, 'k) platform \<Rightarrow> u64 \<Rightarrow> nat \<Rightarrow> ('kb, 'a) kernel_scheme \<Rightarrow> ('kb, 'a) kernel_scheme res" where
  "test_fn pf msg 0 s = Inr s"
| "test_fn pf msg (Suc n) s =
     bind_res (do_syscall_3 pf (handler_addr pf SyscallHandler)
         SYS_WRITE STDOUT_FD msg (of_nat (length TEST_MSG)) s) (\<lambda>(_, s).
     test_fn pf msg n s)"

text \<open>
  \<^verbatim>\<open>hlt\<close> with interrupts enabled waits for the next interrupt, which is handled before
  the instruction behind it; with interrupts disabled the processor never wakes up.
\<close>

definition wait_for_interrupt ::
    "('kb, 'ev, 'k) platform \<Rightarrow> irq_line \<Rightarrow> ('kb, 'a) kernel_scheme \<Rightarrow> ('kb, 'a) kernel_scheme res option" where
  "wait_for_interrupt pf l s =
     (if is_interrupts_enabled s then Some (deliver pf (as_usize (irq_index l)) s) else None)"

text \<open>
  The loop for the interrupts that arrive: a tick gives the processor to another
  task, so the loop is left there.
\<close>

fun hlt_loop ::
    "('kb, 'ev, 'k) platform \<Rightarrow> irq_line list \<Rightarrow> ('kb, 'a) kernel_scheme \<Rightarrow> ('kb, 'a) kernel_scheme res option" where
  "hlt_loop pf [] s = Some (Inr s)"
| "hlt_loop pf (l # ls) s =
     (case wait_for_interrupt pf l s of
        None \<Rightarrow> None
      | Some (Inl e) \<Rightarrow> Some (Inl e)
      | Some (Inr t) \<Rightarrow> if l = LapicTimer then Some (Inr t) else hlt_loop pf ls t)"

definition idle ::
    "('kb, 'ev, 'k) platform \<Rightarrow> irq_line list \<Rightarrow> ('kb, 'a) kernel_scheme \<Rightarrow> ('kb, 'a) kernel_scheme res option" where
  "idle pf ls s = hlt_loop pf ls s"

section \<open>The demonstration task\<close>

text \<open>A buffer no called function writes to.\<close>

definition keeps_buffer :: "(u64 \<Rightarrow> mem \<Rightarrow> mem) \<Rightarrow> u64 \<Rightarrow> nat \<Rightarrow> bool" where
  "keeps_buffer sc p n \<longleftrightarrow> (\<forall>sp m. \<forall>i<n. sc sp m (p + of_nat i) = m (p + of_nat i))"

text \<open>A task that can print its buffer by system calls, each of which the heap has room for.\<close>

definition can_print :: "('kb, 'ev, 'k) platform \<Rightarrow> u64 \<Rightarrow> bytes \<Rightarrow> ('kb, 'a) kernel_scheme \<Rightarrow> bool" where
  "can_print pf p t s \<longleftrightarrow>
     wf_console s \<and> clear_of_stack (entry_stack s) p (length t) \<and> read_bytes (memory s) p (length t) = t \<and>
     length t < 2 ^ 64 \<and> keeps_buffer (callee_stack pf) p (length t) \<and>
     string_fits (string_room pf) (dom (boxes (SCHED s))) (of_nat (length t))"

lemma read_bytes_cong:
  "(\<forall>i<n. m' (p + of_nat i) = m (p + of_nat i)) \<Longrightarrow> read_bytes m' p n = read_bytes m p n"
  by (simp add: read_bytes_def)

lemma write_call_step:
  assumes "keeps_above (callee_stack pf)" "\<forall>c d. epilogue pf c d = c" "can_print pf p t s"
  shows "\<exists>r s' u. do_syscall_3 pf h SYS_WRITE STDOUT_FD p (of_nat (length t)) s = Inr (r, s') \<and>
    irq_println t s = Inr u \<and> same_console s' u \<and> can_print pf p t s' \<and> rflags s' = rflags s \<and>
    CPU s' = (CPU s)\<lparr>rax := SYS_WRITE, rdi := STDOUT_FD, rsi := p, rdx := of_nat (length t)\<rparr>"
proof -
  let ?n = "of_nat (length t) :: u64"
  let ?w = "with_args SYS_WRITE STDOUT_FD p ?n s" and ?a = "entry_stack s"
  have n: "unat ?n = length t"
    using assms(3) by (simp add: can_print_def unat_of_nat)
  have c: "wf_console s" "clear_of_stack ?a p (length t)" "read_bytes (memory s) p (length t) = t"
      "keeps_buffer (callee_stack pf) p (length t)" "string_fits (string_room pf) (dom (boxes (SCHED s))) ?n"
    using assms(3) by (simp_all add: can_print_def)
  obtain v u where v: "handle_syscall (string_room pf) (args_of (CPU ?w)) (syscall_entry h ?w) = Inr (args_of (CPU ?w), v)"
      "CPU v = CPU (syscall_entry h ?w)" "SCHED v = SCHED (syscall_entry h ?w)" "SEGMENTS v = SEGMENTS ?w"
      "println t ?w = Inr ((), u)" "same_console v u"
    using handle_syscall_write [of ?w "string_room pf" h] c n by auto
  have "conventions pf"
    using assms(1,2) by (simp add: conventions_def)
  then obtain s' where s': "int_0x80 pf h ?w = Inr s'" "CPU s' = CPU ?w"
      "rflags s' = rflags s" "same_console s' v" "SEGMENTS s' = SEGMENTS v"
      "SCHED s' = (SCHED v)\<lparr>smem := callee_stack pf (slot ?a 5) (callee_stack pf (slot ?a 13)
        (write64 (slot ?a 6) 0 (memory (syscall_entry h ?w))))\<rparr>"
    using int_0x80_run [OF _ v(1,2)] v(3) by (auto simp: args_of_def)
  have b: "boxes (SCHED s') = boxes (SCHED s)"
    using s'(6) v(3) syscall_entry_boxes [of h ?w] by simp
  obtain x where x: "println t s = Inr ((), x)" "same_console u x"
    using println_same [OF _ v(5), of s] by auto
  have "memory s' (p + of_nat i) = memory s (p + of_nat i)" if "i < length t" for i
  proof -
    have i: "104 \<le> unat (p + of_nat i - slot ?a 13)"
      using c(2) that by (simp add: clear_of_stack_def)
    then show ?thesis
      using c(4) that clear_slot [OF i, of 6] entry_keeps_bytes [of "p + of_nat i" ?w h]
      by (simp add: s'(6) keeps_buffer_def write64_def)
  qed
  then have "read_bytes (memory s') p (length t) = t"
    using c(3) read_bytes_cong by metis
  moreover have "entry_stack s' = ?a"
    using s'(2,5) v(4) by (simp add: entry_stack_def with_args_def)
  moreover have "irq_println t s = Inr x" "wf_console x"
    using irq_println_ok [OF c(1), of t] x(1) by (auto simp: irq_println_def)
  ultimately show ?thesis
    using s' v(6) x(2) assms(3) b
    by (auto simp: do_syscall_3_eq syscall_result_def can_print_def same_console_def)
qed

lemma for_each_const: "length xs = length ys \<Longrightarrow> for_each (\<lambda>_. f) xs s = for_each (\<lambda>_. f) ys s"
  by (induction xs ys arbitrary: s rule: list_induct2) (auto simp: bind_res_def split: sum.split)

lemma same_irq_println:
  assumes "same_console s u" "irq_println t s = Inr s'"
  shows "\<exists>u'. irq_println t u = Inr u' \<and> same_console s' u'"
  using println_same [OF assms(1), of t s'] assms(2) by (auto simp: irq_println_def bind_res_eq_Inr)

lemma test_fn_run:
  assumes "keeps_above (callee_stack pf)" "\<forall>c d. epilogue pf c d = c"
  shows "can_print pf p TEST_MSG s \<Longrightarrow> same_console s v \<Longrightarrow>
    \<exists>s' u. test_fn pf p n s = Inr s' \<and> for_each (\<lambda>_. irq_println TEST_MSG) [0..<n] v = Inr u \<and>
      same_console s' u \<and> rip (CPU s') = rip (CPU s) \<and> rsp (CPU s') = rsp (CPU s) \<and> rflags s' = rflags s"
proof (induction n arbitrary: s v)
  case (Suc n)
  let ?h = "handler_addr pf SyscallHandler"
  obtain r s1 u1 where one: "do_syscall_3 pf ?h SYS_WRITE STDOUT_FD p
        (of_nat (length TEST_MSG)) s = Inr (r, s1)" "irq_println TEST_MSG s = Inr u1" "same_console s1 u1"
      "can_print pf p TEST_MSG s1" "rip (CPU s1) = rip (CPU s)" "rsp (CPU s1) = rsp (CPU s)" "rflags s1 = rflags s"
    using write_call_step [OF assms Suc.prems(1), of ?h] by auto
  obtain v1 where v1: "irq_println TEST_MSG v = Inr v1" "same_console u1 v1"
    using same_irq_println [OF Suc.prems(2) one(2)] by blast
  have "same_console s1 v1"
    using one(3) v1(2) by (simp add: same_console_def)
  from Suc.IH [OF one(4) this] obtain s' u where rest: "test_fn pf p n s1 = Inr s'"
      "for_each (\<lambda>_. irq_println TEST_MSG) [0..<n] v1 = Inr u" "same_console s' u"
      "rip (CPU s') = rip (CPU s1)" "rsp (CPU s') = rsp (CPU s1)" "rflags s' = rflags s1"
    by blast
  have "for_each (\<lambda>_. irq_println TEST_MSG) [0..<Suc n] v = for_each (\<lambda>_. irq_println TEST_MSG) [0..<n] v1"
    using v1(1) for_each_const [of "[0..<Suc n]" "0 # [0..<n]" "irq_println TEST_MSG" v] by (simp del: upt_Suc)
  then show ?case
    using one rest by (simp del: upt_Suc)
qed (simp add: same_console_def)

section \<open>Interrupts are transparent\<close>

lemma entry_word:
  assumes "k < 5"
  shows "read64 (memory (interrupt_entry h s)) (slot (entry_stack s) (Suc k)) = context_words (CPU s) (rflags s) ! k"
proof -
  let ?a = "entry_stack s"
  define ws where "ws = take 5 (context_words (CPU s) (rflags s))"
  have len: "length ws = 5" and nth: "ws ! k = context_words (CPU s) (rflags s) ! k"
    using assms by (simp add: ws_def context_words_def, simp add: ws_def)
  have m: "memory (interrupt_entry h s) = store_slots ?a (zip [Suc 0..<6] ws) (memory s)"
    using interrupt_entry_frame [of h s] fold_push [of ws "memory s" ?a 0] len by (simp add: ws_def [symmetric])
  have "map_of (zip [Suc 0..<6] ws) (Suc k) = Some (ws ! k)"
    using map_of_zip_nth [of "[Suc 0..<6]" ws k] len assms by simp
  moreover have "set (zip [Suc 0..<6] ws) \<subseteq> {Suc 0..<6} \<times> UNIV"
    by (auto dest: set_zip_leftD simp del: upt_Suc)
  ultimately show ?thesis
    using assms len nth read_store_slots [of "zip [Suc 0..<6] ws" "Suc k" ?a "memory s"]
    by (fastforce simp: m simp del: upt_Suc)
qed

text \<open>A body that leaves the processor, the memory and the segments alone.\<close>

lemma interrupt_call_transparent:
  assumes "keeps_above sc" "\<forall>c d. ep c d = c"
    and "body (interrupt_entry h s) = Inr t" "irq.more t = irq.more (interrupt_entry h s)"
  shows "\<exists>u. interrupt_call ep h (\<lambda>s. bind_res (body s) (\<lambda>s. Inr (call_scratch sc s))) s = Inr u \<and>
    CPU u = CPU s \<and> rflags u = rflags s \<and> SEGMENTS u = SEGMENTS s"
proof -
  let ?e = "interrupt_entry h s" and ?a = "entry_stack s"
  have t: "CPU t = CPU ?e" "memory t = memory ?e" "SEGMENTS t = SEGMENTS s"
    using kernel_of_irq_more [OF assms(4)] by (simp_all add: interrupt_entry_def Let_def)
  let ?f = "(call_scratch sc t)\<lparr>CPU := CPU ?e\<rparr>"
  have r: "rsp (CPU ?f) = slot ?a 5"
    by (simp add: interrupt_entry_CPU)
  have "memory ?f = sc (slot ?a 5) (memory ?e)"
    using t by (simp add: interrupt_entry_CPU)
  then have w: "read64 (memory ?f) (slot ?a (Suc k)) = context_words (CPU s) (rflags s) ! k" if "k < 5" for k
    using keeps_above_read [OF assms(1), of "Suc k" 5 ?a "memory ?e"] entry_word [OF that, of h s] that by simp
  have "interrupt_call ep h (\<lambda>s. bind_res (body s) (\<lambda>s. Inr (call_scratch sc s))) s = Inr (iretq ?f)"
    using assms(2,3) by (simp add: interrupt_call_def)
  then show ?thesis
    using iretq_entry [OF r] w [of 0] w [of 1] w [of 2] w [of 3] w [of 4] t(3)
    by (simp add: context_words_def interrupt_entry_CPU numeral_eq_Suc)
qed

text \<open>The bodies keep everything below the interrupt layer.\<close>

lemma irq_more_ok: "ok s r \<Longrightarrow> \<exists>t. r = Inr t \<and> wf_console t \<and> irq.more t = irq.more s \<and> LAPIC t = LAPIC s"
proof -
  assume "ok s r"
  then obtain t where t: "r = Inr t" "wf_console t" "console.more t = console.more s"
    by (auto simp: ok_def settings_def)
  then show ?thesis
    using irq_of_console_more [OF t(3)] by blast
qed

lemma irq_body_more:
  assumes "wf_console s" "LAPIC s \<noteq> None"
  shows "\<exists>t. irq_body pf l s = Inr t \<and> irq.more t = irq.more s"
proof -
  have report: "\<exists>t. bind_res (irq_println m s) (on_lapic LapicEoi) = Inr t \<and> irq.more t = irq.more s" for m
    using irq_println_ok [OF assms(1), of m] irq_more_ok [of s "irq_println m s"] assms(2)
    by (auto simp: ok_def)
  obtain k kb where d: "decode (kb_driver pf) (device s (io_log s) 0x60) (KEYBOARD s) = (k, kb)" by fastforce
  let ?s = "s\<lparr>io_log := io_log s @ [Inp 0x60 (device s (io_log s) 0x60)], KEYBOARD := kb\<rparr>"
  have "ok ?s ((case k of Some k \<Rightarrow> dispatch_key (kb_driver pf) k | None \<Rightarrow> Inr) ?s)"
    using assms(1) by (simp add: dispatch_key_ok ok_Inr split: option.split)
  from irq_more_ok [OF this] obtain t where "(case k of Some k \<Rightarrow> dispatch_key (kb_driver pf) k | None \<Rightarrow> Inr) ?s = Inr t"
      "irq.more t = irq.more s" "LAPIC t = LAPIC s"
    by auto
  then have "\<exists>t. keyboard_interrupt_handler (kb_driver pf) s = Inr t \<and> irq.more t = irq.more s"
    using assms(2) unfolding keyboard_interrupt_eq [OF d] by (auto simp: end_of_interrupt_def has_lapic_def)
  then show ?thesis
    using report assms(2)
    by (cases l) (auto simp: timer_interrupt_handler_def end_of_interrupt_def has_lapic_def
        apic_error_handler_def apic_spurious_handler_def)
qed

lemma device_interrupt_returns:
  assumes "keeps_above (callee_stack pf)" "\<forall>c d. epilogue pf c d = c"
    and "sys_inv n pf s" "l \<noteq> LapicTimer"
  shows "\<exists>t. deliver pf (as_usize (irq_index l)) s = Inr t \<and> sys_inv n pf t \<and>
    CPU t = CPU s \<and> rflags t = rflags s \<and> SEGMENTS t = SEGMENTS s"
proof -
  let ?e = "interrupt_entry (handler_addr pf (irq_handler l)) s"
  have "kernel_view ?e = kernel_view s" by simp
  from kernel_viewD(1,5) [OF this] have "wf_console ?e" "LAPIC ?e \<noteq> None"
    using assms(3) by (simp_all add: sys_inv_def)
  then obtain t where "irq_body pf l ?e = Inr t" "irq.more t = irq.more ?e"
    using irq_body_more by blast
  then obtain u where "run_handler pf (irq_handler l) s = Inr u" "CPU u = CPU s" "rflags u = rflags s"
      "SEGMENTS u = SEGMENTS s"
    using interrupt_call_transparent [OF assms(1,2), of "irq_body pf l"]
    unfolding run_handler_call [OF assms(4)] by blast
  moreover have "idt_running (IDT s)"
    using assms(3) by (simp add: sys_inv_def)
  ultimately show ?thesis
    using deliver_running(1) [of s pf l] irq_total [OF assms(3), of l] by auto
qed

text \<open>The halting loop never sleeps for ever and never panics.\<close>

lemma hlt_loop_returns:
  assumes "keeps_above (callee_stack pf)" "\<forall>c d. epilogue pf c d = c"
  shows "sys_inv n pf s \<Longrightarrow> is_interrupts_enabled s \<Longrightarrow> \<exists>t. hlt_loop pf ls s = Some (Inr t) \<and> sys_inv n pf t \<and>
    (LapicTimer \<notin> set ls \<longrightarrow> CPU t = CPU s \<and> rflags t = rflags s)"
proof (induction ls arbitrary: s)
  case (Cons l ls)
  show ?case
  proof (cases "l = LapicTimer")
    case True
    then show ?thesis
      using irq_total [OF Cons.prems(1), of l] Cons.prems(2) by (auto simp: wait_for_interrupt_def)
  next
    case False
    obtain u where u: "deliver pf (as_usize (irq_index l)) s = Inr u" "sys_inv n pf u" "CPU u = CPU s" "rflags u = rflags s"
      using device_interrupt_returns [OF assms Cons.prems(1) False] by blast
    have "is_interrupts_enabled u"
      using Cons.prems(2) u(4) by (simp add: is_interrupts_enabled_def flags_def)
    then show ?thesis
      using Cons.IH [OF u(2)] u Cons.prems(2) False by (auto simp: wait_for_interrupt_def)
  qed
qed simp

section \<open>Properties\<close>

text \<open>
  C15: The task \<^verbatim>\<open>test_fn\<close> prints its line again and again: after any number of iterations the
  screen and the shell are as if the kernel had printed the line that many times
  itself, provided the heap has room for the string of each call, and the task continues at the same place with the same stack and flags.
\<close>

theorem test_fn_prints:
  assumes "keeps_above (callee_stack pf)" "\<forall>c d. epilogue pf c d = c" "can_print pf p TEST_MSG s"
  shows "\<exists>s' u. test_fn pf p n s = Inr s' \<and> for_each (\<lambda>_. irq_println TEST_MSG) [0..<n] s = Inr u \<and>
    WRITER s' = WRITER u \<and> SHELL s' = SHELL u \<and>
    rip (CPU s') = rip (CPU s) \<and> rsp (CPU s') = rsp (CPU s) \<and> rflags s' = rflags s"
  using test_fn_run [OF assms, of s n] by (auto simp: same_console_def)

text \<open>A task whose buffer lies above its stack.\<close>

definition example_task :: "unit kernel" where
  "example_task = example_kernel (example_boot
     \<lparr>smem := (\<lambda>x. if unat (x - 0xA000) < 8 then TEST_MSG ! unat (x - 0xA000) else 0)\<rparr>)"

lemma example_can_print: "can_print example_platform 0xA000 TEST_MSG example_task"
proof -
  have len: "length TEST_MSG = 8"
    by (simp add: TEST_MSG_def ascii_def)
  have "slot (entry_stack example_task) 13 = 0x8F98"
    by (simp add: entry_stack_def example_task_def example_kernel_def example_cpu_def slot_def)
  moreover have "104 \<le> unat (0xA000 + of_nat i - 0x8F98 :: u64)" if "i < 8" for i
  proof -
    have "0xA000 + of_nat i - 0x8F98 = (of_nat (0x1068 + i) :: u64)"
      by simp
    then show ?thesis
      using that by (simp only: unat_of_nat) simp
  qed
  ultimately have "clear_of_stack (entry_stack example_task) 0xA000 8"
    by (simp add: clear_of_stack_def)
  moreover have "read_bytes (memory example_task) 0xA000 8 = TEST_MSG"
    using len by (intro nth_equalityI) (simp_all add: read_bytes_def example_task_def example_kernel_def unat_of_nat)
  moreover have "wf_console example_task"
    using example_console_simps(1) by (simp add: example_task_def example_kernel_def example_console_def)
  ultimately show ?thesis
    using len by (simp add: can_print_def keeps_buffer_def example_platform_def string_fits_def)
qed

lemma example_convention:
  "keeps_above (callee_stack example_platform)" "\<forall>c d. epilogue example_platform c d = c"
  by (simp_all add: example_platform_def keeps_above_def)

theorem test_fn_prints_witness:
  "\<exists>s' u. test_fn example_platform 0xA000 3 example_task = Inr s' \<and>
     for_each (\<lambda>_. irq_println TEST_MSG) [0..<3] example_task = Inr u \<and> WRITER s' = WRITER u"
  using test_fn_prints [OF example_convention example_can_print, of 3] by blast

text \<open>
  C14: The loop at the end of \<^verbatim>\<open>kernel_main\<close> serves every interrupt: after boot it is never
  asleep with interrupts disabled and no handler panics; and as long as no tick gives
  the processor away, every interrupt is transparent: all registers, the stack
  pointer and the flags are as before it. The selectors a tick returns with are taken to
  be ones the processor accepts.
\<close>

theorem hlt_loop_serves:
  assumes "boot_ready env wake fuel bi m s" "heap_serves 4 pf" "idle_addr pf = env_idle_fn env"
    and "keeps_above (callee_stack pf)" "\<forall>c d. epilogue pf c d = c"
  shows "\<exists>table allocator h' t. kernel_main env wake fuel bi h s = Some (Inr (table, allocator, h', t)) \<and>
    (\<forall>ls. \<exists>u. hlt_loop pf ls t = Some (Inr u) \<and>
      (LapicTimer \<notin> set ls \<longrightarrow> CPU u = CPU t \<and> rflags u = rflags t))"
  using booted_inv [OF assms(1-3), of h] hlt_loop_returns [OF assms(4,5)] by blast

theorem hlt_loop_serves_witness:
  "\<exists>table allocator h' t u. kernel_main example_env example_wake 5 example_info None example_machine =
      Some (Inr (table, allocator, h', t)) \<and>
    hlt_loop example_platform [PitLine, KeyboardLine, LapicSpurious] t = Some (Inr u) \<and> CPU u = CPU t"
proof -
  have "LapicTimer \<notin> set [PitLine, KeyboardLine, LapicSpurious]" by simp
  then show ?thesis
    using hlt_loop_serves [OF example_boot_ready example_heap_serves example_idle example_convention, of None]
    by blast
qed

end
