(* ===== verification/Hal.thy ===== *)
theory Hal
  imports Arch
begin

text \<open>
  The hardware abstraction layer of src/src/arch: the functions of mod.rs over the
  implementations for x86, RISC-V and ARM, of which the build selects one, and the
  cached check for the cpuid instruction. Instructions and crates of the other
  architectures are parameters. The rest of the development uses the x86 functions
  of \<^verbatim>\<open>Arch\<close> directly; here they are shown to be what mod.rs computes.
\<close>

section \<open>Implementations\<close>

datatype target_arch = X86_64 | Riscv | Aarch64

record 'm hal =
  hal_nop :: "'m \<Rightarrow> 'm res"
  hal_enable :: "'m \<Rightarrow> 'm res"
  hal_disable :: "'m \<Rightarrow> 'm res"
  hal_is_enabled :: "'m \<Rightarrow> bool res"
  hal_wait :: "'m \<Rightarrow> 'm res"
  hal_break :: "'m \<Rightarrow> 'm res"

text \<open>What happens during a halt and at a breakpoint is the business of the interrupt handlers.\<close>

record 'm x86_insns =
  x86_halt :: "'m \<Rightarrow> 'm res"
  x86_int3 :: "'m \<Rightarrow> 'm res"

definition x86_hal :: "'a machine_scheme x86_insns \<Rightarrow> 'a machine_scheme hal" where
  "x86_hal i =
     \<lparr>hal_nop = Inr, hal_enable = (\<lambda>s. Inr (enable_interrupts s)), hal_disable = (\<lambda>s. Inr (disable_interrupts s)),
      hal_is_enabled = (\<lambda>s. Inr (is_interrupts_enabled s)), hal_wait = x86_halt i, hal_break = x86_int3 i\<rparr>"

record 'm riscv_crate =
  riscv_enable :: "'m \<Rightarrow> 'm"
  riscv_disable :: "'m \<Rightarrow> 'm"
  mstatus_mie :: "'m \<Rightarrow> bool"
  riscv_wfi :: "'m \<Rightarrow> 'm res"
  riscv_ebreak :: "'m \<Rightarrow> 'm res"

definition riscv_hal :: "'m riscv_crate \<Rightarrow> 'm hal" where
  "riscv_hal c =
     \<lparr>hal_nop = Inr, hal_enable = (\<lambda>s. Inr (riscv_enable c s)), hal_disable = (\<lambda>s. Inr (riscv_disable c s)),
      hal_is_enabled = (\<lambda>s. Inr (mstatus_mie c s)), hal_wait = riscv_wfi c, hal_break = riscv_ebreak c\<rparr>"

record 'm arm_insns =
  cpsie_if :: "'m \<Rightarrow> 'm"
  cpsid_if :: "'m \<Rightarrow> 'm"
  cortex_wfi :: "'m \<Rightarrow> 'm res"

text \<open>\<^verbatim>\<open>todo!()\<close> panics.\<close>

definition todo :: panic where
  "todo = Panicked ''not yet implemented''"

definition aarch64_hal :: "'m arm_insns \<Rightarrow> 'm hal" where
  "aarch64_hal a =
     \<lparr>hal_nop = Inr, hal_enable = (\<lambda>s. Inr (cpsie_if a s)), hal_disable = (\<lambda>s. Inr (cpsid_if a s)),
      hal_is_enabled = (\<lambda>_. Inl todo), hal_wait = cortex_wfi a, hal_break = (\<lambda>_. Inl todo)\<rparr>"

section \<open>The layer\<close>

definition arch_nop :: "'m hal \<Rightarrow> 'm \<Rightarrow> 'm res" where
  "arch_nop h s = hal_nop h s"

definition arch_enable_interrupts :: "'m hal \<Rightarrow> 'm \<Rightarrow> 'm res" where
  "arch_enable_interrupts h s = hal_enable h s"

definition arch_disable_interrupts :: "'m hal \<Rightarrow> 'm \<Rightarrow> 'm res" where
  "arch_disable_interrupts h s = hal_disable h s"

definition arch_is_interrupts_enabled :: "'m hal \<Rightarrow> 'm \<Rightarrow> bool res" where
  "arch_is_interrupts_enabled h s = hal_is_enabled h s"

definition arch_without_interrupts :: "'m hal \<Rightarrow> ('m \<Rightarrow> ('r \<times> 'm) res) \<Rightarrow> 'm \<Rightarrow> ('r \<times> 'm) res" where
  "arch_without_interrupts h f s =
     bind_res (arch_is_interrupts_enabled h s) (\<lambda>enabled.
       if enabled then
         bind_res (arch_disable_interrupts h s) (\<lambda>s.
         bind_res (f s) (\<lambda>(result, s).
         bind_res (arch_enable_interrupts h s) (\<lambda>s.
         Inr (result, s))))
       else f s)"

definition arch_wait_for_interrupt :: "'m hal \<Rightarrow> 'm \<Rightarrow> 'm res" where
  "arch_wait_for_interrupt h s = hal_wait h s"

text \<open>For ARM the code calls \<^verbatim>\<open>wait_for_interrupt\<close> here.\<close>

definition arch_break_point :: "target_arch \<Rightarrow> 'm hal \<Rightarrow> 'm \<Rightarrow> 'm res" where
  "arch_break_point t h s =
     (case t of X86_64 \<Rightarrow> hal_break h s | Riscv \<Rightarrow> hal_break h s | Aarch64 \<Rightarrow> hal_wait h s)"

text \<open>\<^verbatim>\<open>CPU_ID\<close> is initialised by the first call.\<close>

definition has_cpuid :: "bool \<Rightarrow> bool option \<Rightarrow> bool \<times> bool option" where
  "has_cpuid probe CPU_ID =
     (case CPU_ID of Some b \<Rightarrow> (b, CPU_ID) | None \<Rightarrow> (probe, Some probe))"

lemma has_cpuid_cached: "fst (has_cpuid p' (snd (has_cpuid p c))) = fst (has_cpuid p c)"
  by (cases c) (simp_all add: has_cpuid_def)

section \<open>The contract of critical sections\<close>

text \<open>What \<^verbatim>\<open>without_interrupts\<close> needs of an implementation, for the flag it controls.\<close>

locale interrupt_control =
  fixes h :: "'m hal" and flag :: "'m \<Rightarrow> bool"
  assumes is_enabled: "hal_is_enabled h s = Inr (flag s)"
    and enable: "\<exists>t. hal_enable h s = Inr t \<and> flag t"
    and disable: "\<exists>t. hal_disable h s = Inr t \<and> \<not> flag t"
begin

text \<open>The state the closure starts in.\<close>

definition masked_state :: "'m \<Rightarrow> 'm" where
  "masked_state s = (if flag s then projr (hal_disable h s) else s)"

lemma masked_off: "\<not> flag (masked_state s)"
  using disable [of s] by (auto simp: masked_state_def)

lemma critical_section:
  "arch_without_interrupts h f s =
     bind_res (f (masked_state s)) (\<lambda>(r, t). if flag s then bind_res (hal_enable h t) (\<lambda>t. Inr (r, t)) else Inr (r, t))"
proof (cases "flag s")
  case True
  obtain t where "hal_disable h s = Inr t"
    using disable [of s] by blast
  then show ?thesis
    using True
    by (simp add: arch_without_interrupts_def arch_is_interrupts_enabled_def arch_disable_interrupts_def
        arch_enable_interrupts_def is_enabled masked_state_def)
next
  case False
  then show ?thesis
    by (simp add: arch_without_interrupts_def arch_is_interrupts_enabled_def is_enabled masked_state_def)
qed

lemma restores:
  assumes "f (masked_state s) = Inr (r, t)" "\<not> flag t"
  shows "\<exists>u. arch_without_interrupts h f s = Inr (r, u) \<and> flag u = flag s"
  using enable [of t] assms by (auto simp: critical_section)

lemma plain: "\<not> flag s \<Longrightarrow> arch_without_interrupts h f s = f s"
  by (simp add: arch_without_interrupts_def arch_is_interrupts_enabled_def is_enabled)

lemma nested: "arch_without_interrupts h (arch_without_interrupts h f) s = arch_without_interrupts h f s"
  by (simp only: critical_section [of "arch_without_interrupts h f" s] critical_section [of f s] plain [OF masked_off])

end

interpretation x86_control: interrupt_control "x86_hal i" is_interrupts_enabled for i
  by unfold_locales (simp_all add: x86_hal_def)

text \<open>Documented behaviour of the riscv crate.\<close>

definition riscv_contract :: "'m riscv_crate \<Rightarrow> bool" where
  "riscv_contract c \<longleftrightarrow> (\<forall>s. mstatus_mie c (riscv_enable c s)) \<and> (\<forall>s. \<not> mstatus_mie c (riscv_disable c s))"

lemma riscv_control: "riscv_contract c \<Longrightarrow> interrupt_control (riscv_hal c) (mstatus_mie c)"
  by unfold_locales (simp_all add: riscv_contract_def riscv_hal_def)

lemma x86_layer: "arch_without_interrupts (x86_hal i) f s = without_interrupts f s"
  by (simp add: arch_without_interrupts_def arch_is_interrupts_enabled_def arch_disable_interrupts_def
      arch_enable_interrupts_def without_interrupts_def x86_hal_def)

section \<open>Properties\<close>

text \<open>
  C27: Critical sections on the three architectures. On x86 the layer's
  \<^verbatim>\<open>without_interrupts\<close> is exactly the function every other part of this development
  uses, nested or not. On RISC-V it also runs the closure with interrupts disabled
  and restores the flag. On ARM, where \<^verbatim>\<open>is_interrupts_enabled\<close> is a \<^verbatim>\<open>todo!()\<close>, it
  panics before the closure runs, whatever the state, and with it every print.
\<close>

theorem critical_sections_by_target:
  assumes "riscv_contract c" "g (if mstatus_mie c v then riscv_disable c v else v) = Inr (r, w)" "\<not> mstatus_mie c w"
  shows "arch_without_interrupts (x86_hal i) f s = without_interrupts f s \<and>
    arch_without_interrupts (x86_hal i) (arch_without_interrupts (x86_hal i) f) s = without_interrupts f s \<and>
    (\<exists>u. arch_without_interrupts (riscv_hal c) g v = Inr (r, u) \<and> mstatus_mie c u = mstatus_mie c v) \<and>
    arch_without_interrupts (aarch64_hal a) k x = Inl todo"
proof (intro conjI)
  show "arch_without_interrupts (x86_hal i) f s = without_interrupts f s"
    by (rule x86_layer)
  show "arch_without_interrupts (x86_hal i) (arch_without_interrupts (x86_hal i) f) s = without_interrupts f s"
    by (rule trans [OF x86_control.nested x86_layer])
  have "interrupt_control.masked_state (riscv_hal c) (mstatus_mie c) v = (if mstatus_mie c v then riscv_disable c v else v)"
    unfolding interrupt_control.masked_state_def [OF riscv_control [OF assms(1)]] by (simp add: riscv_hal_def)
  then show "\<exists>u. arch_without_interrupts (riscv_hal c) g v = Inr (r, u) \<and> mstatus_mie c u = mstatus_mie c v"
    using interrupt_control.restores [OF riscv_control [OF assms(1)], of g v r w] assms(2,3) by simp
  show "arch_without_interrupts (aarch64_hal a) k x = Inl todo"
    by (simp add: arch_without_interrupts_def arch_is_interrupts_enabled_def aarch64_hal_def)
qed

definition example_riscv :: "bool riscv_crate" where
  "example_riscv =
     \<lparr>riscv_enable = (\<lambda>_. True), riscv_disable = (\<lambda>_. False), mstatus_mie = (\<lambda>b. b), riscv_wfi = Inr, riscv_ebreak = Inr\<rparr>"

theorem critical_sections_by_target_witness:
  "let i = \<lparr>x86_halt = Inr, x86_int3 = Inr\<rparr>; s = \<lparr>rflags = 0x0202, io_log = [], device = (\<lambda>_ _. 0)\<rparr>; a = \<lparr>cpsie_if = id, cpsid_if = id, cortex_wfi = Inr\<rparr>
   in arch_without_interrupts (x86_hal i) (\<lambda>s. Inr (7 :: nat, s)) s = without_interrupts (\<lambda>s. Inr (7, s)) s \<and>
     (\<exists>u. arch_without_interrupts (riscv_hal example_riscv) (\<lambda>b. Inr (7 :: nat, b)) True = Inr (7, u) \<and> mstatus_mie example_riscv u) \<and>
     arch_without_interrupts (aarch64_hal a) (\<lambda>b. Inr (7 :: nat, b)) True = Inl todo"
proof -
  have c: "riscv_contract example_riscv" "\<not> mstatus_mie example_riscv False" "mstatus_mie example_riscv True"
    "(\<lambda>b. Inr (7 :: nat, b)) (if mstatus_mie example_riscv True then riscv_disable example_riscv True else True) = Inr (7, False)"
    by (simp_all add: riscv_contract_def example_riscv_def)
  show ?thesis
    unfolding Let_def
    using critical_sections_by_target [where c = example_riscv and g = "\<lambda>b. Inr (7 :: nat, b)" and v = True and r = 7
        and w = False and i = "\<lparr>x86_halt = Inr, x86_int3 = Inr\<rparr>" and f = "\<lambda>s. Inr (7 :: nat, s)"
        and s = "\<lparr>rflags = 0x0202, io_log = [], device = (\<lambda>_ _. 0)\<rparr>"
        and a = "\<lparr>cpsie_if = id, cpsid_if = id, cortex_wfi = Inr\<rparr>" and k = "\<lambda>b. Inr (7 :: nat, b)" and x = True] c
    by blast
qed

end
