(* ===== verification/Spec2Isabelle.thy ===== *)
theory Spec2Isabelle
  imports Terminal Pit Syscall_Props Block_Heap Boot Driver Data_Structures Testing Locks Tasks Hal
begin

text \<open>
  \<^bold>\<open>LeafOS\<close>, a small x86-64 kernel in Rust (sources under src/src).

  \<^bold>\<open>Parts of the program and how they interact.\<close> \<^verbatim>\<open>kernel_main\<close> (main.rs) prints,
  loads segment table and task state segment (gdt.rs) and the interrupt descriptor table
  (interrupts.rs), maps and initializes the heap (memory.rs, allocators/mod.rs),
  prepares the scheduler (scheduler.rs, process.rs), calibrates the local APIC timer
  against the interval timer (interrupts.rs, drivers/pit.rs), starts two processes and
  the shell (shell.rs) and registers its key handler (events.rs). From then on the
  APIC timer interrupt switches between tasks, the keyboard interrupt feeds the shell and
  \<^verbatim>\<open>int 0x80\<close> is the system call (syscall.rs). All output goes through \<^verbatim>\<open>_print\<close> (print.rs)
  to the shell or the VGA text buffer (vga_buffer.rs). The fixed-size block allocator, the
  driver framework and the containers (allocators/fixed_size_block.rs,
  drivers/driver.rs, data_structures) are library code that the kernel does not call yet.

  \<^bold>\<open>Conventions.\<close> Integers are words of their Rust width; arithmetic wraps, as in the
  release build the kernel documents. A panic is a value: fallible code returns \<open>panic + 'a\<close>
  (\<open>Inl\<close> the panic), sequenced with \<^const>\<open>bind_res\<close>; a \<^verbatim>\<open>for\<close> loop is \<^const>\<open>for_each\<close>. Statics
  are fields of one state that grows with the layers as an extensible record:
  \<open>machine\<close> (flags, port log, devices), \<open>console\<close> (writer and shell), \<open>irq\<close> (descriptor
  table, APIC, keyboard), \<open>kernel\<close> (registers, scheduling state, segments). Memory that the
  kernel accesses through raw pointers is a byte-addressed map. Code outside the
  repository is a parameter: devices, the crates x86_64, x2apic, pic8259, pc_keyboard,
  uart_16550, linked_list_allocator and bootloader, what the compiler puts around an
  \<^verbatim>\<open>x86-interrupt\<close> function, and the registers and memory called functions change. What
  is relied on of it is a named predicate, met by a concrete instance in the witnesses.
  The compiled \<^verbatim>\<open>x86-interrupt\<close> functions give back all registers (\<^verbatim>\<open>conventions\<close>), as their
  calling convention documents.

  \<^bold>\<open>Theories.\<close>

  \<^item> \<^verbatim>\<open>Leaf_Prelude\<close>: words, panics, loops, shared lemmas, the collection \<open>runs\<close> of rules for
    operations that return. \<^verbatim>\<open>Memory_Model\<close>: 64-bit accesses to byte memory, stack slots.

  \<^item> \<^verbatim>\<open>Vga_Buffer\<close>: vga_buffer.rs function by function. \<^verbatim>\<open>Terminal\<close>: an abstract terminal with
    unbounded scroll-back and the proof that the writer shows its last 25 lines; scrolling
    round trip; the indexed write.

  \<^item> \<^verbatim>\<open>Arch\<close>: interrupt flag, critical sections and ports (arch, drivers/pic.rs, \<^verbatim>\<open>exit_qemu\<close>).
    \<^verbatim>\<open>Hal\<close>: the layer of arch/mod.rs over all three implementations (arch/x86, arch/riscv,
    arch/aarch64) and cpuid.rs; critical sections as the locale \<open>interrupt_control\<close>,
    interpreted on the x86 functions. \<^verbatim>\<open>Pit\<close>: drivers/pit.rs, nearest divisor and count
    read-back.

  \<^item> \<^verbatim>\<open>Gdt\<close>, \<^verbatim>\<open>Process_State\<close>: gdt.rs, process.rs and \<^verbatim>\<open>ProcessState::new\<close> with the initial frame of a
    task. \<^verbatim>\<open>Scheduler\<close>: the \<^verbatim>\<open>Scheduler\<close> trait as the locale \<open>fifo_scheduler\<close>, interpreted on the
    round-robin queue, and the functions the timer interrupt calls. \<^verbatim>\<open>Sched_Invariant\<close>: reachable
    scheduling states as an inductive predicate, uniqueness of ids and boxes, fairness,
    and that a context is saved where it was loaded from.

  \<^item> \<^verbatim>\<open>Shell\<close>, \<^verbatim>\<open>Events\<close>: shell.rs, print.rs, events.rs. \<^verbatim>\<open>Shell_Props\<close>: totality of all output and
    refinement of an abstract line editor.

  \<^item> \<^verbatim>\<open>Interrupts\<close>: the descriptor table, handlers, APIC and calibration loop. \<^verbatim>\<open>Interrupt_Props\<close>:
    completeness of the table, one acknowledgement per interrupt, when calibration ends
    and what it stores, and typing from the scancode to the screen.

  \<^item> \<^verbatim>\<open>Context_Switch\<close>: interrupt entry, \<^verbatim>\<open>iretq\<close> and the assembly of \<^verbatim>\<open>apic_timer_handler\<close>.
    \<^verbatim>\<open>iretq\<close> is the return on selectors the processor accepts; \<^verbatim>\<open>iretq_checked\<close> adds its check of
    the code and stack selectors against the loaded segment table. \<^verbatim>\<open>Context_Props\<close>: a
    preempted task resumes unchanged, a tick is total, and which new tasks start.

  \<^item> \<^verbatim>\<open>Syscall\<close>, \<^verbatim>\<open>Syscall_Props\<close>: syscall.rs and the assembly of \<^verbatim>\<open>syscall_handler\<close>, with the heap
    string a write allocates and the registers its calls may clobber; the write system
    call from the caller's registers to the screen and back, and its errors.

  \<^item> \<^verbatim>\<open>Frames\<close>: memory.rs and allocators/mod.rs; the \<^verbatim>\<open>FrameAllocator\<close> trait as the locale
    \<open>frame_allocator\<close>, interpreted on both allocators of the kernel; the mapped heap.

  \<^item> \<^verbatim>\<open>Fixed_Size_Block\<close>, \<^verbatim>\<open>Block_Heap\<close>: allocators/fixed_size_block.rs with its free lists in
    memory; programs using it as an inductive predicate, and their memory safety.

  \<^item> \<^verbatim>\<open>Driver\<close>: drivers/driver.rs with access kinds as phantom types; the locale
    \<open>output_device\<close>, interpreted on the VGA writer. \<^verbatim>\<open>Data_Structures\<close>: the lists and the
    ring buffer.

  \<^item> \<^verbatim>\<open>Boot\<close>: \<^verbatim>\<open>init\<close> (lib.rs) and \<^verbatim>\<open>kernel_main\<close>, composed of the components they start.

  \<^item> \<^verbatim>\<open>Running\<close>: delivery of interrupts through the descriptor table and the system as a machine
    that reacts to events; the locale \<open>total_machine\<close>, interpreted on it, carries the invariant
    over sequences of events. After \<^verbatim>\<open>kernel_main\<close> events make the kernel panic only where a
    message does not fit the heap or, with the processor's check, where a handler
    returns with selectors it refuses; its two processes take turns, and its own
    context is never resumed. \<^verbatim>\<open>Tasks\<close>: \<^verbatim>\<open>test_fn\<close>, \<^verbatim>\<open>hlt_loop\<close>
    and \<^verbatim>\<open>idle\<close>, the loops that run from then on.

  \<^item> \<^verbatim>\<open>Testing\<close>: serial.rs, the test harness of lib.rs and its copy in main.rs, all test
    functions, and the verdict of every selection of the library's tests.

  \<^item> \<^verbatim>\<open>Locks\<close>: the spin locks each function takes, in order, with interrupts and thread switches
    as a step relation; console output cannot deadlock, the boot sequence can.

  \<^bold>\<open>Bounds and fuel.\<close> The only loop that may not end is the halt loop of \<^verbatim>\<open>init_apic\<close>
  (\<^verbatim>\<open>wait_triggered\<close>). Interrupts of the local APIC may arrive before the flag is loaded,
  between the load and the halt, and in the halt; the loop has fuel, \<open>k + 1\<close> steps suffice
  when iteration \<open>k\<close>, counted from 0, is the first to load the flag after the timer interrupt, and
  without such an iteration no fuel suffices. Every other loop that ends is structural or has a termination
  proof. The endless loops are taken for any number of iterations (\<^verbatim>\<open>test_fn\<close>) or any
  sequence of interrupts (\<^verbatim>\<open>hlt_loop\<close>, \<^verbatim>\<open>idle\<close>). The running kernel needs room for two boxes
  on the heap while at most four are in use (\<^verbatim>\<open>heap_serves 4\<close>): four are the void task, the two
  processes and the idle task, and two is what a tick can ask for. Room for the string of
  a write is a predicate on the boxes in use and the length. \<^verbatim>\<open>setup_maps_heap\<close> asks for 1000 frames: 250 pages and at most three new page
  tables for each. The frame allocator's counter is a machine word, so its contract
  carries the number of calls left before it wraps.

  \<^bold>\<open>Not modelled.\<close> Outside \<^verbatim>\<open>Locks\<close>, code under a spin lock is atomic, and the boot
  sequence is not interrupted between its steps, except by the local APIC's interrupts during
  calibration. Exceptions that task code raises are not events of the running kernel, and the
  check of \<^verbatim>\<open>iretq\<close> is part only of the statements that mention it. Left out are the lists of modules; the
  integration tests, of which one has no tests and an unimplemented runner and the other does
  not build; the red-black tree, which is commented out; filesystem.rs, which is empty;
  \<^verbatim>\<open>test_fn_hello\<close>, an empty loop, which appears as an entry address; \<^verbatim>\<open>nop\<close>, which changes
  no state; the formatting machinery of \<^verbatim>\<open>core::fmt\<close>, which appears as the list of strings it
  hands to \<^verbatim>\<open>write_str\<close>. The global allocator is the linked_list_allocator crate's:
  allocations of the scheduler are arguments that must be fresh, a refused allocation of
  the boot sequence or of a string is the panic of \<^verbatim>\<open>alloc_error_handler\<close>, and the allocation
  of the idle task in a tick is taken to succeed.
\<close>

end
